(* ===== verification/Dfs_Prelude.thy ===== *)
theory Dfs_Prelude
  imports Main "HOL-Library.Word" "HOL-Library.AList" "HOL-Library.Multiset"
begin

text \<open>
  Shared vocabulary of the development: Go's machine integers, the result type of an
  operation that threads a state and may return an error, the preservation judgement used
  for every invariant, and the generic list and association-list lemmas the components share.

  A Go function \<open>func f(...) (T, error)\<close> that reads and writes some state is a function
  \<open>'s \<Rightarrow> (go_error + 'a) \<times> 's\<close>: \<open>Inl\<close> is a non-nil error, \<open>Inr\<close> the value, and
  the state is threaded whether or not there is an error. \<open>bindR\<close> is the pattern
  \<open>x, err := m(); if err != nil { return err }; ...\<close>.
\<close>

named_theorems preserve_intros "rules that push a preserved invariant through an operation"
named_theorems op_simps "unfolding rules for the sequencing of operations"

subsection \<open>Go's integers\<close>

type_synonym int64 = "64 word"
type_synonym byte = "8 word"

text \<open>Go's signed division truncates towards zero; the divisor is never zero where it is used.\<close>

definition go_div :: "int64 \<Rightarrow> int64 \<Rightarrow> int64" where
  "go_div a b = word_of_int (sgn (sint a) * sgn (sint b) * (\<bar>sint a\<bar> div \<bar>sint b\<bar>))"

lemma sint64_bounds: "- (2 ^ 63) \<le> sint (w :: int64)" "sint (w :: int64) < 2 ^ 63"
  using sint_ge [of w] sint_lt [of w] by simp_all

lemma sint64_of_int:
  assumes "- (2 ^ 63) \<le> i" "i < 2 ^ 63"
  shows "sint (word_of_int i :: int64) = i"
  using assms by (simp add: sint_sbintrunc' signed_take_bit_int_eq_self)

lemma sint64_wrap_high:
  assumes "2 ^ 63 \<le> i" "i < 2 ^ 64"
  shows "sint (word_of_int i :: int64) = i - 2 ^ 64"
proof -
  have "(word_of_int (2 ^ 64) :: int64) = 0"
    by (simp add: word_of_int_eq_iff take_bit_eq_mod)
  then have "(word_of_int i :: int64) = word_of_int (i - 2 ^ 64)"
    by (simp only: wi_hom_sub [symmetric] diff_zero)
  moreover have "sint (word_of_int (i - 2 ^ 64) :: int64) = i - 2 ^ 64"
    using assms by (intro sint64_of_int) simp_all
  ultimately show ?thesis
    by (simp only:)
qed

lemma sint64_add:
  assumes "- (2 ^ 63) \<le> sint a + sint b" "sint a + sint b < 2 ^ 63"
  shows "sint (a + b :: int64) = sint a + sint b"
  using assms sint64_of_int [of "sint a + sint b"] by simp

lemma sint64_diff:
  assumes "- (2 ^ 63) \<le> sint a - sint b" "sint a - sint b < 2 ^ 63"
  shows "sint (a - b :: int64) = sint a - sint b"
  using assms sint64_of_int [of "sint a - sint b"] by simp

lemma sint64_mult:
  assumes "- (2 ^ 63) \<le> sint a * sint b" "sint a * sint b < 2 ^ 63"
  shows "sint (a * b :: int64) = sint a * sint b"
  using assms sint64_of_int [of "sint a * sint b"] by simp

lemma sint64_of_nat: "n < 2 ^ 63 \<Longrightarrow> sint (word_of_nat n :: int64) = int n"
  using sint64_of_int [of "int n"] by simp

lemma sint64_inject: "sint a = sint b \<longleftrightarrow> a = (b :: int64)"
  by (metis of_int_sint scast_id)

subsection \<open>Operations: a result or an error, and the next state\<close>

type_synonym ('s, 'e, 'a) op = "'s \<Rightarrow> ('e + 'a) \<times> 's"

definition retR :: "'a \<Rightarrow> ('s, 'e, 'a) op" where
  "retR x = (\<lambda>s. (Inr x, s))"

definition failR :: "'e \<Rightarrow> ('s, 'e, 'a) op" where
  "failR err = (\<lambda>s. (Inl err, s))"

definition bindR :: "('s, 'e, 'a) op \<Rightarrow> ('a \<Rightarrow> ('s, 'e, 'b) op) \<Rightarrow> ('s, 'e, 'b) op" where
  "bindR m f = (\<lambda>s. case m s of (Inl err, s1) \<Rightarrow> (Inl err, s1) | (Inr x, s1) \<Rightarrow> f x s1)"

definition mapErrR :: "('e \<Rightarrow> 'f) \<Rightarrow> ('s, 'e, 'a) op \<Rightarrow> ('s, 'f, 'a) op" where
  "mapErrR g m = (\<lambda>s. case m s of (Inl err, s1) \<Rightarrow> (Inl (g err), s1) | (Inr x, s1) \<Rightarrow> (Inr x, s1))"

lemma retR_apply [simp, op_simps]: "retR x s = (Inr x, s)"
  by (simp add: retR_def)

lemma failR_apply [simp, op_simps]: "failR err s = (Inl err, s)"
  by (simp add: failR_def)

lemma bindR_Inr [op_simps]: "m s = (Inr x, s1) \<Longrightarrow> bindR m f s = f x s1"
  by (simp add: bindR_def)

lemma bindR_Inl [op_simps]: "m s = (Inl err, s1) \<Longrightarrow> bindR m f s = (Inl err, s1)"
  by (simp add: bindR_def)

lemma bindR_eq_Inr:
  "bindR m f s = (Inr y, s2) \<longleftrightarrow> (\<exists>x s1. m s = (Inr x, s1) \<and> f x s1 = (Inr y, s2))"
  by (auto simp: bindR_def split: prod.splits sum.splits)

lemma bindR_eq_Inl:
  "bindR m f s = (Inl err, s2) \<longleftrightarrow>
     m s = (Inl err, s2) \<or> (\<exists>x s1. m s = (Inr x, s1) \<and> f x s1 = (Inl err, s2))"
  by (auto simp: bindR_def split: prod.splits sum.splits)

lemma mapErrR_eq_Inr [simp]: "mapErrR g m s = (Inr x, s1) \<longleftrightarrow> m s = (Inr x, s1)"
  by (auto simp: mapErrR_def split: prod.splits sum.splits)

lemma mapErrR_eq_Inl:
  "mapErrR g m s = (Inl err, s1) \<longleftrightarrow> (\<exists>d. m s = (Inl d, s1) \<and> err = g d)"
  by (auto simp: mapErrR_def split: prod.splits sum.splits)

lemma snd_mapErrR [simp]: "snd (mapErrR g m s) = snd (m s)"
  by (auto simp: mapErrR_def split: prod.splits sum.splits)

subsection \<open>Preserved invariants\<close>

definition preserves :: "('s \<Rightarrow> bool) \<Rightarrow> ('s \<Rightarrow> 'r \<times> 's) \<Rightarrow> bool" where
  "preserves I m \<longleftrightarrow> (\<forall>s. I s \<longrightarrow> I (snd (m s)))"

lemma preservesI: "(\<And>s. I s \<Longrightarrow> I (snd (m s))) \<Longrightarrow> preserves I m"
  by (simp add: preserves_def)

lemma preservesD: "preserves I m \<Longrightarrow> I s \<Longrightarrow> I (snd (m s))"
  by (simp add: preserves_def)

lemma preserves_retR [preserve_intros]: "preserves I (retR x)"
  by (simp add: preserves_def)

lemma preserves_failR [preserve_intros]: "preserves I (failR err)"
  by (simp add: preserves_def)

lemma preserves_Pair [simp]: "preserves I (Pair x)"
  by (simp add: preserves_def)

lemma preserves_bindR [preserve_intros]:
  assumes "preserves I m" and "\<And>x. preserves I (f x)"
  shows "preserves I (bindR m f)"
proof (rule preservesI)
  fix s
  assume "I s"
  with assms(1) have "I (snd (m s))"
    by (rule preservesD)
  with assms(2) show "I (snd (bindR m f s))"
    by (auto simp: bindR_def preserves_def split: prod.splits sum.splits)
qed

lemma preserves_mapErrR [preserve_intros]: "preserves I m \<Longrightarrow> preserves I (mapErrR g m)"
  by (simp add: preserves_def)

lemma preserves_if [preserve_intros]:
  "preserves I m \<Longrightarrow> preserves I n \<Longrightarrow> preserves I (if b then m else n)"
  by simp

lemma preserves_case_option [preserve_intros]:
  "preserves I m \<Longrightarrow> (\<And>x. preserves I (f x)) \<Longrightarrow>
     preserves I (case v of None \<Rightarrow> m | Some x \<Rightarrow> f x)"
  by (cases v) auto

lemma preserves_case_sum [preserve_intros]:
  "(\<And>x. preserves I (f x)) \<Longrightarrow> (\<And>x. preserves I (g x)) \<Longrightarrow>
     preserves I (case v of Inl x \<Rightarrow> f x | Inr x \<Rightarrow> g x)"
  by (cases v) auto

subsection \<open>Rows returned in an order the engine chooses\<close>

text \<open>
  A query without \<open>ORDER BY\<close>, and a \<open>range\<close> over a Go map, visit their elements in an
  unspecified order. The order is a list of positions \<open>p\<close>; a \<open>p\<close> that is not a permutation
  of the positions stands for the identity, so that \<open>reorder p xs\<close> ranges over exactly the
  permutations of \<open>xs\<close> and no hypothesis on \<open>p\<close> is needed.
\<close>

definition reorder :: "nat list \<Rightarrow> 'a list \<Rightarrow> 'a list" where
  "reorder p xs = (if sort p = [0..<length xs] then map (\<lambda>i. xs ! i) p else xs)"

lemma mset_reorder [simp]: "mset (reorder p xs) = mset xs"
proof (cases "sort p = [0..<length xs]")
  case True
  have "mset p = mset (sort p)"
    by simp
  then have "mset p = mset [0..<length xs]"
    by (simp only: True)
  then have "mset (map (\<lambda>i. xs ! i) p) = mset (map (\<lambda>i. xs ! i) [0..<length xs])"
    by (metis mset_map)
  with True show ?thesis
    by (simp add: reorder_def map_nth)
qed (simp add: reorder_def)

lemma set_reorder [simp]: "set (reorder p xs) = set xs"
  by (metis mset_eq_setD mset_reorder)

lemma length_reorder [simp]: "length (reorder p xs) = length xs"
  by (metis mset_eq_length mset_reorder)

lemma distinct_reorder [simp]: "distinct (reorder p xs) = distinct xs"
  using mset_eq_imp_distinct_iff [OF mset_reorder] .

lemma distinct_map_reorder [simp]: "distinct (map f (reorder p xs)) = distinct (map f xs)"
  by (rule mset_eq_imp_distinct_iff) simp

lemma reorder_Nil [simp]: "reorder p [] = []"
  by (metis length_0_conv length_reorder)

lemma sort_eq_upt_iff: "sort p = [0..<n] \<longleftrightarrow> distinct p \<and> set p = {0..<n}"
proof
  assume "sort p = [0..<n]"
  then show "distinct p \<and> set p = {0..<n}"
    by (metis atLeastLessThan_upt distinct_sort distinct_upt set_sort)
next
  assume "distinct p \<and> set p = {0..<n}"
  then show "sort p = [0..<n]"
    by (metis sorted_list_of_set_range sorted_list_of_set_sort_remdups distinct_remdups_id)
qed

text \<open>Every order the engine may choose is one that \<open>reorder\<close> can produce.\<close>

lemma reorder_onto: "mset ys = mset xs \<Longrightarrow> \<exists>p. reorder p xs = ys"
proof -
  have "mset ys = mset xs \<Longrightarrow> \<exists>p. sort p = [0..<length xs] \<and> map (\<lambda>i. xs ! i) p = ys"
  proof (induction ys arbitrary: xs)
    case Nil
    then show ?case by simp
  next
    case (Cons y ys)
    then have "y \<in> set xs"
      by (metis list.set_intros(1) mset_eq_setD)
    then obtain us vs where xs: "xs = us @ y # vs"
      by (meson split_list)
    with Cons.prems have "mset ys = mset (us @ vs)"
      by simp
    from Cons.IH [OF this] obtain q
      where q: "distinct q" "set q = {0..<length (us @ vs)}" "map (\<lambda>i. (us @ vs) ! i) q = ys"
      by (auto simp: sort_eq_upt_iff)
    define up where "up = (\<lambda>j. if j < length us then j else Suc j)"
    let ?p = "length us # map up q"
    have "inj up" and hole: "\<And>j. up j \<noteq> length us"
      by (auto simp: inj_def up_def split: if_splits)
    then have "distinct (map up q)"
      using q(1) by (simp add: distinct_map inj_on_subset [OF _ subset_UNIV])
    moreover have "length us \<notin> set (map up q)"
      using hole by (metis ex_map_conv)
    ultimately have "distinct ?p"
      by simp
    moreover have "up ` {0..<length (us @ vs)} = {0..<length xs} - {length us}" (is "?A = ?B")
    proof
      show "?A \<subseteq> ?B"
        by (auto simp: up_def xs)
      show "?B \<subseteq> ?A"
      proof
        fix i
        assume i: "i \<in> ?B"
        show "i \<in> ?A"
        proof (cases "i < length us")
          case True
          then show ?thesis
            by (intro image_eqI [of _ _ i]) (auto simp: up_def)
        next
          case False
          with i show ?thesis
            by (intro image_eqI [of _ _ "i - 1"]) (auto simp: up_def xs)
        qed
      qed
    qed
    then have "set ?p = {0..<length xs}"
      using q(2) by (auto simp: xs)
    moreover have "map (\<lambda>i. xs ! i) ?p = y # ys"
      using q(3) by (auto simp: xs nth_append up_def)
    ultimately show ?case
      by (metis sort_eq_upt_iff)
  qed
  then show "mset ys = mset xs \<Longrightarrow> \<exists>p. reorder p xs = ys"
    by (metis reorder_def)
qed

subsection \<open>Lists of records with a key\<close>

lemma find_key_eq_Some:
  assumes "distinct (map key rows)"
  shows "find (\<lambda>r. key r = k) rows = Some r \<longleftrightarrow> r \<in> set rows \<and> key r = k"
  using assms by (induction rows) (auto simp: image_iff)

lemma find_SomeD: "find P xs = Some x \<Longrightarrow> x \<in> set xs \<and> P x"
  by (induction xs) (auto split: if_splits)

lemma find_key_SomeD: "find (\<lambda>r. key r = k) rows = Some r \<Longrightarrow> r \<in> set rows \<and> key r = k"
  by (induction rows) (auto split: if_splits)

lemma find_key_eq_None: "find (\<lambda>r. key r = k) rows = None \<longleftrightarrow> k \<notin> set (map key rows)"
  by (induction rows) auto

lemma distinct_map_inj_on_set:
  "distinct (map key rows) \<Longrightarrow> a \<in> set rows \<Longrightarrow> b \<in> set rows \<Longrightarrow> key a = key b \<Longrightarrow> a = b"
  by (induction rows) (auto simp: image_iff)

lemma map_key_update:
  "(\<And>r. key (g r) = key r) \<Longrightarrow> map key (map (\<lambda>r. if P r then g r else r) rows) = map key rows"
  by (induction rows) auto

lemma distinct_map_filter_key: "distinct (map key rows) \<Longrightarrow> distinct (map key (filter P rows))"
  by (rule distinct_map_filter)

subsection \<open>Association lists as Go maps\<close>

lemma set_update_subset: "set (AList.update k v al) \<subseteq> insert (k, v) (set al)"
  by (induction al) auto

end
