(* ===== verification/Constants.thy ===== *)
theory Constants
  imports Dfs_Prelude
begin

text \<open>
  The literals of \<open>internal/constants/constants.go\<close> that the logic depends on: the service
  prefixes of gRPC method names, the names of the environment variables, the intervals (a
  \<open>time.Duration\<close> counts nanoseconds) and the status values kept in the metadata tables.
\<close>

definition MetadataServicePrefix :: string where
  "MetadataServicePrefix = ''/metadata.MetadataService/''"

definition NodeServicePrefix :: string where
  "NodeServicePrefix = ''/node.NodeService/''"

definition EnvJWTSecret :: string where
  "EnvJWTSecret = ''DFS_JWT_SECRET''"

definition EnvMetadataDBPath :: string where
  "EnvMetadataDBPath = ''DFS_METADATA_DB_PATH''"

definition EnvReplicationFactor :: string where
  "EnvReplicationFactor = ''DFS_REPLICATION_FACTOR''"

definition EnvStorageNodeID :: string where
  "EnvStorageNodeID = ''DFS_STORAGE_NODE_ID''"

definition EnvStorageListenAddr :: string where
  "EnvStorageListenAddr = ''DFS_STORAGE_LISTEN_ADDR''"

definition EnvMetadataAddr :: string where
  "EnvMetadataAddr = ''DFS_METADATA_ADDR''"

definition second :: int where
  "second = 1000000000"

definition DefaultHeartbeatInterval :: int where
  "DefaultHeartbeatInterval = 3 * second"

definition DefaultNodeTimeout :: int where
  "DefaultNodeTimeout = 5 * second"

definition DefaultRepairScanInterval :: int where
  "DefaultRepairScanInterval = 5 * second"

definition DefaultMetricsPollInterval :: int where
  "DefaultMetricsPollInterval = 5 * second"

definition NodeStatusHealthy :: string where
  "NodeStatusHealthy = ''healthy''"

definition NodeStatusDown :: string where
  "NodeStatusDown = ''down''"

definition FileStatusPending :: string where
  "FileStatusPending = ''pending''"

definition FileStatusCommitted :: string where
  "FileStatusCommitted = ''committed''"

definition FileStatusDeleted :: string where
  "FileStatusDeleted = ''deleted''"

definition UploadStatusPreparing :: string where
  "UploadStatusPreparing = ''preparing''"

definition UploadStatusCommitted :: string where
  "UploadStatusCommitted = ''committed''"

lemmas status_defs = NodeStatusHealthy_def NodeStatusDown_def FileStatusPending_def
  FileStatusCommitted_def FileStatusDeleted_def UploadStatusPreparing_def UploadStatusCommitted_def

lemma status_distinct [simp]:
  "NodeStatusHealthy \<noteq> NodeStatusDown" "NodeStatusDown \<noteq> NodeStatusHealthy"
  "FileStatusPending \<noteq> FileStatusCommitted" "FileStatusCommitted \<noteq> FileStatusPending"
  "FileStatusPending \<noteq> FileStatusDeleted" "FileStatusDeleted \<noteq> FileStatusPending"
  "FileStatusCommitted \<noteq> FileStatusDeleted" "FileStatusDeleted \<noteq> FileStatusCommitted"
  "UploadStatusPreparing \<noteq> UploadStatusCommitted" "UploadStatusCommitted \<noteq> UploadStatusPreparing"
  by (simp_all add: status_defs)

end
