(* ===== verification/Metadata_Tables.thy ===== *)
theory Metadata_Tables
  imports Constants
begin

text \<open>
  The rows of the metadata database (\<open>internal/metadata/store/store.go\<close>), its tables and
  constraints (\<open>schema.go\<close>) and its SQL statements (\<open>queries.go\<close>) as functions on the
  tables. A table is the list of its rows in insertion order. An \<open>INSERT\<close> is refused with
  SQLite's message when a \<open>PRIMARY KEY\<close>, \<open>UNIQUE\<close> or (while \<open>PRAGMA foreign_keys\<close> is on)
  \<open>FOREIGN KEY\<close> constraint fails; the \<open>NOT NULL\<close> constraints always hold because Go's strings
  and integers are never null. \<open>tables_wf\<close> says that a state satisfies the schema.
\<close>

subsection \<open>Rows\<close>

record file_row =
  file_id :: string
  file_name :: string
  file_size :: int64
  file_status :: string
  file_created :: int64

record chunk_row =
  chunk_id :: string
  chunk_file :: string
  chunk_index :: int64
  chunk_size :: int64

record location_row =
  loc_chunk :: string
  loc_node :: string

record node_row =
  node_id :: string
  node_address :: string
  node_capacity :: int64
  node_available :: int64
  node_status :: string
  node_heartbeat :: int64

record session_row =
  sess_id :: string
  sess_file :: string
  sess_status :: string
  sess_created :: int64

record tables =
  foreign_keys :: bool
  t_files :: "file_row list"
  t_chunks :: "chunk_row list"
  t_locations :: "location_row list"
  t_nodes :: "node_row list"
  t_sessions :: "session_row list"

text \<open>The primary key of \<open>chunk_locations\<close>.\<close>

definition loc_key :: "location_row \<Rightarrow> string \<times> string" where
  "loc_key l = (loc_chunk l, loc_node l)"

definition empty_tables :: tables where
  "empty_tables = \<lparr>foreign_keys = False, t_files = [], t_chunks = [], t_locations = [],
     t_nodes = [], t_sessions = []\<rparr>"

text \<open>
  \<open>schema\<close>: every statement is \<open>CREATE ... IF NOT EXISTS\<close>, so on a database that already
  has the tables it changes nothing, and on a fresh one it creates them empty.
\<close>

definition run_schema :: "tables option \<Rightarrow> tables" where
  "run_schema disk = (case disk of None \<Rightarrow> empty_tables | Some T \<Rightarrow> T)"

subsection \<open>INSERT\<close>

definition query_insert_file :: "file_row \<Rightarrow> tables \<Rightarrow> string + tables" where
  "query_insert_file f T =
     (if file_id f \<in> set (map file_id (t_files T))
      then Inl ''UNIQUE constraint failed: files.file_id''
      else Inr (T\<lparr>t_files := t_files T @ [f]\<rparr>))"

definition query_insert_chunk :: "chunk_row \<Rightarrow> tables \<Rightarrow> string + tables" where
  "query_insert_chunk c T =
     (if chunk_id c \<in> set (map chunk_id (t_chunks T))
      then Inl ''UNIQUE constraint failed: chunks.chunk_id''
      else if (chunk_file c, chunk_index c) \<in> set (map (\<lambda>r. (chunk_file r, chunk_index r)) (t_chunks T))
      then Inl ''UNIQUE constraint failed: chunks.file_id, chunks.chunk_index''
      else if foreign_keys T \<and> chunk_file c \<notin> set (map file_id (t_files T))
      then Inl ''FOREIGN KEY constraint failed''
      else Inr (T\<lparr>t_chunks := t_chunks T @ [c]\<rparr>))"

definition query_insert_chunk_location :: "location_row \<Rightarrow> tables \<Rightarrow> string + tables" where
  "query_insert_chunk_location l T =
     (if loc_key l \<in> set (map loc_key (t_locations T))
      then Inl ''UNIQUE constraint failed: chunk_locations.chunk_id, chunk_locations.node_id''
      else if foreign_keys T \<and> loc_chunk l \<notin> set (map chunk_id (t_chunks T))
      then Inl ''FOREIGN KEY constraint failed''
      else Inr (T\<lparr>t_locations := t_locations T @ [l]\<rparr>))"

definition query_insert_node :: "node_row \<Rightarrow> tables \<Rightarrow> string + tables" where
  "query_insert_node n T =
     (if node_id n \<in> set (map node_id (t_nodes T))
      then Inl ''UNIQUE constraint failed: nodes.node_id''
      else Inr (T\<lparr>t_nodes := t_nodes T @ [n]\<rparr>))"

definition query_insert_upload_session :: "session_row \<Rightarrow> tables \<Rightarrow> string + tables" where
  "query_insert_upload_session u T =
     (if sess_id u \<in> set (map sess_id (t_sessions T))
      then Inl ''UNIQUE constraint failed: upload_sessions.session_id''
      else if foreign_keys T \<and> sess_file u \<notin> set (map file_id (t_files T))
      then Inl ''FOREIGN KEY constraint failed''
      else Inr (T\<lparr>t_sessions := t_sessions T @ [u]\<rparr>))"

subsection \<open>UPDATE\<close>

definition query_update_file_status :: "string \<Rightarrow> string \<Rightarrow> tables \<Rightarrow> tables" where
  "query_update_file_status status fid T =
     T\<lparr>t_files := map (\<lambda>f. if file_id f = fid then f\<lparr>file_status := status\<rparr> else f) (t_files T)\<rparr>"

definition query_update_node_heartbeat :: "int64 \<Rightarrow> string \<Rightarrow> tables \<Rightarrow> tables" where
  "query_update_node_heartbeat ts nid T =
     T\<lparr>t_nodes := map (\<lambda>n. if node_id n = nid then n\<lparr>node_heartbeat := ts\<rparr> else n) (t_nodes T)\<rparr>"

definition query_update_node_status :: "string \<Rightarrow> string \<Rightarrow> tables \<Rightarrow> tables" where
  "query_update_node_status status nid T =
     T\<lparr>t_nodes := map (\<lambda>n. if node_id n = nid then n\<lparr>node_status := status\<rparr> else n) (t_nodes T)\<rparr>"

definition query_update_upload_session_status :: "string \<Rightarrow> string \<Rightarrow> tables \<Rightarrow> tables" where
  "query_update_upload_session_status status sid T =
     T\<lparr>t_sessions := map (\<lambda>u. if sess_id u = sid then u\<lparr>sess_status := status\<rparr> else u) (t_sessions T)\<rparr>"

text \<open>The \<open>UPDATE\<close> of the heartbeat upsert; the number is SQLite's count of the rows it matched.\<close>

definition query_upsert_node_heartbeat ::
  "string \<Rightarrow> int64 \<Rightarrow> int64 \<Rightarrow> int64 \<Rightarrow> string \<Rightarrow> tables \<Rightarrow> nat \<times> tables" where
  "query_upsert_node_heartbeat addr cap avail now nid T =
     (length (filter (\<lambda>n. node_id n = nid) (t_nodes T)),
      T\<lparr>t_nodes := map (\<lambda>n. if node_id n = nid
          then n\<lparr>node_address := addr, node_capacity := cap, node_available := avail,
                 node_heartbeat := now, node_status := NodeStatusHealthy\<rparr>
          else n) (t_nodes T)\<rparr>)"

subsection \<open>SELECT\<close>

text \<open>
  A query takes the order \<open>p\<close> in which the engine visits the rows. \<open>ORDER BY\<close> then sorts
  them; rows with equal keys stay in the engine's order.
\<close>

definition query_select_file_by_id :: "string \<Rightarrow> tables \<Rightarrow> file_row option" where
  "query_select_file_by_id fid T = find (\<lambda>f. file_id f = fid) (t_files T)"

definition query_select_all_files :: "nat list \<Rightarrow> tables \<Rightarrow> file_row list" where
  "query_select_all_files p T = sort_key (\<lambda>f. - sint (file_created f)) (reorder p (t_files T))"

definition query_select_chunks_by_file_id :: "nat list \<Rightarrow> string \<Rightarrow> tables \<Rightarrow> chunk_row list" where
  "query_select_chunks_by_file_id p fid T =
     sort_key (\<lambda>c. sint (chunk_index c)) (reorder p (filter (\<lambda>c. chunk_file c = fid) (t_chunks T)))"

definition query_select_all_chunks :: "nat list \<Rightarrow> tables \<Rightarrow> chunk_row list" where
  "query_select_all_chunks p T = reorder p (t_chunks T)"

definition query_select_committed_chunks :: "nat list \<Rightarrow> tables \<Rightarrow> chunk_row list" where
  "query_select_committed_chunks p T =
     reorder p [c. c \<leftarrow> t_chunks T, f \<leftarrow> t_files T,
                   file_id f = chunk_file c \<and> file_status f = FileStatusCommitted]"

definition query_select_chunk_locations :: "nat list \<Rightarrow> string \<Rightarrow> tables \<Rightarrow> location_row list" where
  "query_select_chunk_locations p cid T = reorder p (filter (\<lambda>l. loc_chunk l = cid) (t_locations T))"

definition query_select_healthy_nodes :: "nat list \<Rightarrow> tables \<Rightarrow> node_row list" where
  "query_select_healthy_nodes p T =
     reorder p (filter (\<lambda>n. node_status n = NodeStatusHealthy) (t_nodes T))"

definition query_select_all_nodes :: "nat list \<Rightarrow> tables \<Rightarrow> node_row list" where
  "query_select_all_nodes p T = reorder p (t_nodes T)"

definition query_count_total_nodes :: "tables \<Rightarrow> nat" where
  "query_count_total_nodes T = length (t_nodes T)"

definition query_count_healthy_nodes :: "tables \<Rightarrow> nat" where
  "query_count_healthy_nodes T = length (filter (\<lambda>n. node_status n = NodeStatusHealthy) (t_nodes T))"

definition query_select_upload_session_by_id :: "string \<Rightarrow> tables \<Rightarrow> session_row option" where
  "query_select_upload_session_by_id sid T = find (\<lambda>u. sess_id u = sid) (t_sessions T)"

definition query_count_total_chunks :: "tables \<Rightarrow> nat" where
  "query_count_total_chunks T = length (t_chunks T)"

definition query_count_total_replicas :: "tables \<Rightarrow> nat" where
  "query_count_total_replicas T = length (t_locations T)"

lemmas insert_defs = query_insert_file_def query_insert_chunk_def query_insert_chunk_location_def
  query_insert_node_def query_insert_upload_session_def

lemmas update_defs = query_update_file_status_def query_update_node_heartbeat_def
  query_update_node_status_def query_update_upload_session_status_def
  query_upsert_node_heartbeat_def

subsection \<open>The schema's constraints as an invariant\<close>

definition tables_wf :: "tables \<Rightarrow> bool" where
  "tables_wf T \<longleftrightarrow>
     foreign_keys T
     \<and> distinct (map file_id (t_files T))
     \<and> distinct (map chunk_id (t_chunks T))
     \<and> distinct (map (\<lambda>c. (chunk_file c, chunk_index c)) (t_chunks T))
     \<and> distinct (map loc_key (t_locations T))
     \<and> distinct (map node_id (t_nodes T))
     \<and> distinct (map sess_id (t_sessions T))
     \<and> (\<forall>c \<in> set (t_chunks T). chunk_file c \<in> file_id ` set (t_files T))
     \<and> (\<forall>l \<in> set (t_locations T). loc_chunk l \<in> chunk_id ` set (t_chunks T))
     \<and> (\<forall>u \<in> set (t_sessions T). sess_file u \<in> file_id ` set (t_files T))"

lemma tables_wf_insert_file:
  "tables_wf T \<Longrightarrow> query_insert_file f T = Inr T1 \<Longrightarrow> tables_wf T1"
  by (auto simp: tables_wf_def query_insert_file_def split: if_splits)

lemma tables_wf_insert_chunk:
  "tables_wf T \<Longrightarrow> query_insert_chunk c T = Inr T1 \<Longrightarrow> tables_wf T1"
  by (auto simp: tables_wf_def query_insert_chunk_def split: if_splits)

lemma tables_wf_insert_location:
  "tables_wf T \<Longrightarrow> query_insert_chunk_location l T = Inr T1 \<Longrightarrow> tables_wf T1"
  by (auto simp: tables_wf_def query_insert_chunk_location_def split: if_splits)

lemma tables_wf_insert_node:
  "tables_wf T \<Longrightarrow> query_insert_node n T = Inr T1 \<Longrightarrow> tables_wf T1"
  by (auto simp: tables_wf_def query_insert_node_def split: if_splits)

lemma tables_wf_insert_session:
  "tables_wf T \<Longrightarrow> query_insert_upload_session u T = Inr T1 \<Longrightarrow> tables_wf T1"
  by (auto simp: tables_wf_def query_insert_upload_session_def split: if_splits)

lemmas tables_wf_inserts = tables_wf_insert_file tables_wf_insert_chunk tables_wf_insert_location
  tables_wf_insert_node tables_wf_insert_session

text \<open>
  An update rewrites rows in place, so it keeps every key: it is enough to compare the lists of
  keys before and after.
\<close>

lemma tables_wf_cong:
  assumes "tables_wf T" "foreign_keys T' = foreign_keys T"
    and "map file_id (t_files T') = map file_id (t_files T)"
    and "t_chunks T' = t_chunks T" "t_locations T' = t_locations T"
    and "map node_id (t_nodes T') = map node_id (t_nodes T)"
    and "map sess_id (t_sessions T') = map sess_id (t_sessions T)"
    and "map sess_file (t_sessions T') = map sess_file (t_sessions T)"
  shows "tables_wf T'"
proof -
  have "file_id ` set (t_files T') = file_id ` set (t_files T)"
    "sess_file ` set (t_sessions T') = sess_file ` set (t_sessions T)"
    using assms(3,8) by (metis set_map)+
  with assms show ?thesis
    by (simp only: tables_wf_def image_subset_iff [symmetric])
qed

lemmas update_keys = comp_def if_distrib [of file_id] if_distrib [of node_id]
  if_distrib [of sess_id] if_distrib [of sess_file]

lemma tables_wf_update_file:
  "tables_wf T \<Longrightarrow> tables_wf (query_update_file_status st k T)"
  by (erule tables_wf_cong) (simp_all add: query_update_file_status_def update_keys)

lemma tables_wf_update_heartbeat:
  "tables_wf T \<Longrightarrow> tables_wf (query_update_node_heartbeat ts k T)"
  by (erule tables_wf_cong) (simp_all add: query_update_node_heartbeat_def update_keys)

lemma tables_wf_update_node_status:
  "tables_wf T \<Longrightarrow> tables_wf (query_update_node_status st k T)"
  by (erule tables_wf_cong) (simp_all add: query_update_node_status_def update_keys)

lemma tables_wf_update_session:
  "tables_wf T \<Longrightarrow> tables_wf (query_update_upload_session_status st k T)"
  by (erule tables_wf_cong) (simp_all add: query_update_upload_session_status_def update_keys)

lemma tables_wf_upsert:
  "tables_wf T \<Longrightarrow> tables_wf (snd (query_upsert_node_heartbeat a cp av now k T))"
  by (erule tables_wf_cong) (simp_all add: query_upsert_node_heartbeat_def update_keys)

lemmas tables_wf_updates = tables_wf_update_file tables_wf_update_heartbeat
  tables_wf_update_node_status tables_wf_update_session tables_wf_upsert

lemma tables_wf_empty: "tables_wf (empty_tables\<lparr>foreign_keys := True\<rparr>)"
  by (simp add: tables_wf_def empty_tables_def)

subsection \<open>What the queries select\<close>

lemma select_file_iff:
  "tables_wf T \<Longrightarrow>
     query_select_file_by_id fid T = Some f \<longleftrightarrow> f \<in> set (t_files T) \<and> file_id f = fid"
  by (simp add: query_select_file_by_id_def tables_wf_def find_key_eq_Some)

lemma select_file_id:
  "query_select_file_by_id fid T = Some f \<Longrightarrow> f \<in> set (t_files T) \<and> file_id f = fid"
  unfolding query_select_file_by_id_def by (rule find_key_SomeD)

lemma select_session_id:
  "query_select_upload_session_by_id sid T = Some u \<Longrightarrow> u \<in> set (t_sessions T) \<and> sess_id u = sid"
  unfolding query_select_upload_session_by_id_def by (rule find_key_SomeD)

lemma select_file_None:
  "query_select_file_by_id fid T = None \<longleftrightarrow> fid \<notin> file_id ` set (t_files T)"
  by (simp add: query_select_file_by_id_def find_key_eq_None)

lemma select_session_iff:
  "tables_wf T \<Longrightarrow>
     query_select_upload_session_by_id sid T = Some u \<longleftrightarrow> u \<in> set (t_sessions T) \<and> sess_id u = sid"
  by (simp add: query_select_upload_session_by_id_def tables_wf_def find_key_eq_Some)

lemma set_select_chunks [simp]:
  "set (query_select_chunks_by_file_id p fid T) = {c \<in> set (t_chunks T). chunk_file c = fid}"
  by (simp add: query_select_chunks_by_file_id_def)

lemma set_select_locations [simp]:
  "set (query_select_chunk_locations p cid T) = {l \<in> set (t_locations T). loc_chunk l = cid}"
  by (simp add: query_select_chunk_locations_def)

lemma set_select_healthy [simp]:
  "set (query_select_healthy_nodes p T) = {n \<in> set (t_nodes T). node_status n = NodeStatusHealthy}"
  by (simp add: query_select_healthy_nodes_def)

lemma set_select_committed [simp]:
  "set (query_select_committed_chunks p T) =
     {c \<in> set (t_chunks T). \<exists>f \<in> set (t_files T).
        file_id f = chunk_file c \<and> file_status f = FileStatusCommitted}"
  by (auto simp: query_select_committed_chunks_def split: if_splits)

lemma distinct_select_chunks:
  "tables_wf T \<Longrightarrow> distinct (map chunk_id (query_select_chunks_by_file_id p fid T))"
  by (rule mset_eq_imp_distinct_iff [THEN iffD2,
        where ?ys1 = "map chunk_id (filter (\<lambda>c. chunk_file c = fid) (t_chunks T))"])
    (simp_all add: query_select_chunks_by_file_id_def tables_wf_def distinct_map_filter)

lemma distinct_select_healthy:
  "tables_wf T \<Longrightarrow> distinct (map node_id (query_select_healthy_nodes p T))"
  by (simp add: query_select_healthy_nodes_def tables_wf_def distinct_map_filter)

text \<open>The join with the files yields each chunk of a committed file once.\<close>

lemma join_file:
  assumes "distinct (map file_id fs)"
  shows "concat (map (\<lambda>f. if file_id f = k \<and> P f then [c] else []) fs) =
    (if \<exists>f \<in> set fs. file_id f = k \<and> P f then [c] else [])"
  using assms
proof (induction fs)
  case (Cons f fs)
  show ?case
  proof (cases "file_id f = k")
    case True
    then have "\<forall>g \<in> set fs. file_id g \<noteq> k"
      using Cons.prems by (force simp: image_iff)
    moreover from this have "concat (map (\<lambda>f. if file_id f = k \<and> P f then [c] else []) fs) = []"
      by simp
    ultimately show ?thesis
      by auto
  qed (use Cons in simp)
qed simp

lemma select_committed_filter:
  assumes "tables_wf T"
  shows "query_select_committed_chunks p T = reorder p (filter (\<lambda>c. \<exists>f \<in> set (t_files T).
     file_id f = chunk_file c \<and> file_status f = FileStatusCommitted) (t_chunks T))"
proof -
  have "distinct (map file_id (t_files T))"
    using assms by (simp add: tables_wf_def)
  note join = join_file [OF this, where P = "\<lambda>f. file_status f = FileStatusCommitted"]
  have "concat (map (\<lambda>c. if Q c then [c] else []) cs) = filter Q cs" for Q and cs :: "chunk_row list"
    by (induction cs) auto
  then show ?thesis
    by (simp add: query_select_committed_chunks_def join cong: map_cong)
qed

lemma distinct_select_committed:
  "tables_wf T \<Longrightarrow> distinct (map chunk_id (query_select_committed_chunks p T))"
  by (simp add: select_committed_filter) (simp add: tables_wf_def distinct_map_filter)

end
