(* ===== verification/Go_Errors.thy ===== *)
theory Go_Errors
  imports Dfs_Prelude
begin

text \<open>
  Errors: \<open>internal/common/errors\<close> (\<open>codes.go\<close>, \<open>error.go\<close>, \<open>wrap.go\<close>), the errors made by
  \<open>fmt.Errorf\<close>, and the gRPC status errors the servers return. A Go \<open>error\<close> value that is
  not nil is a \<open>go_error\<close>; a nil one is the \<open>Inr\<close> side of a result, or \<open>None\<close> where
  the code passes errors around as values.
\<close>

subsection \<open>Error codes\<close>

datatype err_code =
    CodeInternal | CodeInvalidArgument | CodeNotFound | CodeAlreadyExists
  | CodeUnauthenticated | CodePermissionDenied | CodeUnavailable
  | CodeIntegrityViolation | CodeConflict | CodeTimeout

fun code_string :: "err_code \<Rightarrow> string" where
  "code_string CodeInternal = ''internal''"
| "code_string CodeInvalidArgument = ''invalid_argument''"
| "code_string CodeNotFound = ''not_found''"
| "code_string CodeAlreadyExists = ''already_exists''"
| "code_string CodeUnauthenticated = ''unauthenticated''"
| "code_string CodePermissionDenied = ''permission_denied''"
| "code_string CodeUnavailable = ''unavailable''"
| "code_string CodeIntegrityViolation = ''integrity_violation''"
| "code_string CodeConflict = ''conflict''"
| "code_string CodeTimeout = ''timeout''"

text \<open>The gRPC status codes the servers use.\<close>

datatype grpc_code =
    GrpcInvalidArgument | GrpcNotFound | GrpcAlreadyExists | GrpcFailedPrecondition
  | GrpcUnauthenticated | GrpcUnavailable | GrpcInternal

fun grpc_code_string :: "grpc_code \<Rightarrow> string" where
  "grpc_code_string GrpcInvalidArgument = ''InvalidArgument''"
| "grpc_code_string GrpcNotFound = ''NotFound''"
| "grpc_code_string GrpcAlreadyExists = ''AlreadyExists''"
| "grpc_code_string GrpcFailedPrecondition = ''FailedPrecondition''"
| "grpc_code_string GrpcUnauthenticated = ''Unauthenticated''"
| "grpc_code_string GrpcUnavailable = ''Unavailable''"
| "grpc_code_string GrpcInternal = ''Internal''"

subsection \<open>Error values\<close>

text \<open>
  \<open>PlainErr m\<close> is an error with a fixed text (\<open>errors.New\<close>, \<open>fmt.Errorf\<close> without
  \<open>%w\<close>, an error of the driver or of the operating system); \<open>WrapErr m err\<close> is
  \<open>fmt.Errorf\<close> with \<open>%w\<close>, \<open>m\<close> the whole formatted text; \<open>AppErr\<close> is the
  repository's \<open>*Error\<close> with its code, message and cause; \<open>StatusErr\<close> is
  \<open>status.Error\<close>.
\<close>

datatype go_error =
    PlainErr string
  | WrapErr string go_error
  | AppErr err_code string "go_error option"
  | StatusErr grpc_code string

text \<open>\<open>(*Error).Error\<close>, and the text of the other error values.\<close>

fun error_text :: "go_error \<Rightarrow> string" where
  "error_text (PlainErr m) = m"
| "error_text (WrapErr m err) = m"
| "error_text (AppErr c m cause) =
     (case cause of None \<Rightarrow> m | Some err \<Rightarrow> m @ '': '' @ error_text err)"
| "error_text (StatusErr c m) = ''rpc error: code = '' @ grpc_code_string c @ '' desc = '' @ m"

text \<open>\<open>fmt.Errorf("prefix: %w", err)\<close>.\<close>

definition errorf_w :: "string \<Rightarrow> go_error \<Rightarrow> go_error" where
  "errorf_w prefix err = WrapErr (prefix @ '': '' @ error_text err) err"

text \<open>\<open>(*Error).Unwrap\<close>, and the unwrapping of \<open>%w\<close>.\<close>

fun Unwrap :: "go_error \<Rightarrow> go_error option" where
  "Unwrap (PlainErr m) = None"
| "Unwrap (WrapErr m err) = Some err"
| "Unwrap (AppErr c m cause) = cause"
| "Unwrap (StatusErr c m) = None"

fun Retryable :: "go_error \<Rightarrow> bool" where
  "Retryable (AppErr c m cause) = (c = CodeUnavailable \<or> c = CodeTimeout \<or> c = CodeConflict)"
| "Retryable err = False"

text \<open>\<open>(*Error).Is\<close>: the target must be an \<open>*Error\<close> with the same code.\<close>

fun Error_Is :: "go_error \<Rightarrow> go_error \<Rightarrow> bool" where
  "Error_Is (AppErr c m cause) (AppErr c' m' cause') = (c = c')"
| "Error_Is err target = False"

definition New_error :: "err_code \<Rightarrow> string \<Rightarrow> go_error" where
  "New_error c m = AppErr c m None"

definition Wrap_error :: "err_code \<Rightarrow> string \<Rightarrow> go_error \<Rightarrow> go_error" where
  "Wrap_error c m err = AppErr c m (Some err)"

text \<open>\<open>From\<close>: a nil error stays nil, an \<open>*Error\<close> is returned as it is, anything else becomes internal.\<close>

fun From_error :: "go_error option \<Rightarrow> go_error option" where
  "From_error None = None"
| "From_error (Some (AppErr c m cause)) = Some (AppErr c m cause)"
| "From_error (Some err) = Some (AppErr CodeInternal (error_text err) (Some err))"

definition ErrNotFound :: go_error where
  "ErrNotFound = AppErr CodeNotFound [] None"

definition ErrInvalidArgument :: go_error where
  "ErrInvalidArgument = AppErr CodeInvalidArgument [] None"

definition ErrAlreadyExists :: go_error where
  "ErrAlreadyExists = AppErr CodeAlreadyExists [] None"

text \<open>
  \<open>errors.Is\<close> of the standard library for a target that is one of the sentinels: it walks the
  chain of causes and asks each \<open>*Error\<close> for its \<open>Is\<close>.
\<close>

fun errors_Is :: "go_error \<Rightarrow> go_error \<Rightarrow> bool" where
  "errors_Is (PlainErr m) target = False"
| "errors_Is (WrapErr m err) target = errors_Is err target"
| "errors_Is (AppErr c m cause) target =
     (Error_Is (AppErr c m cause) target \<or>
      (case cause of None \<Rightarrow> False | Some err \<Rightarrow> errors_Is err target))"
| "errors_Is (StatusErr c m) target = False"

text \<open>The codes met along the chain of causes, outermost first.\<close>

fun chain_codes :: "go_error \<Rightarrow> err_code list" where
  "chain_codes (PlainErr m) = []"
| "chain_codes (WrapErr m err) = chain_codes err"
| "chain_codes (AppErr c m cause) =
     c # (case cause of None \<Rightarrow> [] | Some err \<Rightarrow> chain_codes err)"
| "chain_codes (StatusErr c m) = []"

lemma errors_Is_chain: "errors_Is err (AppErr c m cause) \<longleftrightarrow> c \<in> set (chain_codes err)"
  by (induction err) (auto split: option.splits)

subsection \<open>Structured logging fields\<close>

text \<open>\<open>logging.WithError\<close>: the fields, as pairs of a name and the value's text.\<close>

definition WithError :: "go_error option \<Rightarrow> (string \<times> string) list" where
  "WithError err =
     (case From_error err of
        Some (AppErr c m cause) \<Rightarrow>
          [(''error_code'', code_string c),
           (''retryable'', if Retryable (AppErr c m cause) then ''true'' else ''false''),
           (''error_message'', m)]
          @ (case cause of None \<Rightarrow> [] | Some d \<Rightarrow> [(''error_cause'', error_text d)])
      | _ \<Rightarrow> [])"

subsection \<open>Laws of the error type\<close>

lemma From_error_app: "\<exists>c m cause. From_error (Some err) = Some (AppErr c m cause)"
  by (cases err) auto

lemma From_error_idem: "From_error (From_error err) = From_error err"
proof (cases err)
  case (Some d)
  then show ?thesis
    by (cases d) auto
qed simp

lemma errorf_w_chain [simp]: "chain_codes (errorf_w p err) = chain_codes err"
  by (simp add: errorf_w_def)

lemma errorf_w_ne [simp]: "errorf_w p err \<noteq> PlainErr m" "PlainErr m \<noteq> errorf_w p err"
  by (simp_all add: errorf_w_def)

text \<open>
  \<open>From\<close> keeps the code of an error that already is an \<open>*Error\<close>, but it looks at the
  outermost value only: an \<open>*Error\<close> wrapped by \<open>fmt.Errorf("...: %w")\<close> is reported as
  internal, and not retryable, although its chain still holds the original code and
  \<open>errors.Is\<close> still finds it.
\<close>

lemma From_classifies:
  "From_error (Some (AppErr c m cause)) = Some (AppErr c m cause)
   \<and> From_error (Some (errorf_w p (AppErr c m cause)))
       = Some (AppErr CodeInternal (p @ '': '' @ error_text (AppErr c m cause))
                (Some (errorf_w p (AppErr c m cause))))
   \<and> errors_Is (errorf_w p (AppErr c m cause)) (AppErr c m' cause')
   \<and> map_option Retryable (From_error (Some (errorf_w p (AppErr c m cause)))) = Some False"
  by (simp add: errorf_w_def)

end
