(* ===== verification/Sqlite_Store.thy ===== *)
theory Sqlite_Store
  imports Metadata_Tables Go_Errors
begin

text \<open>
  \<open>internal/metadata/store/sqlite.go\<close>: the methods of \<open>SQLiteStore\<close>, each a state-passing
  operation on a connection. The database engine and its driver are not part of the repository.
  What they decide is the parameter \<open>engine\<close>: whether driver call number \<open>t\<close> (a statement, or
  the request for its number of affected rows) fails
  (\<open>drv_fault\<close>: an I/O error, a cancelled context, a busy database), in which order it visits
  its rows (\<open>drv_order\<close>), and whether the iteration over its rows breaks off early
  (\<open>drv_trunc\<close>). The last is what \<open>rows.Err\<close> reports after \<open>rows.Next\<close> returned false; the
  code never calls it, so such a result is returned as if it were complete. A row whose \<open>Scan\<close>
  fails counts as a failure of its query; the text of the error is then that of the query.
\<close>

record engine =
  drv_fault :: "nat \<Rightarrow> string option"
  drv_trunc :: "nat \<Rightarrow> nat option"
  drv_order :: "nat \<Rightarrow> nat list"

record conn =
  conn_tables :: tables
  conn_tick :: nat

text \<open>An engine that never fails, visits rows in insertion order and delivers all of them.\<close>

definition plain_engine :: engine where
  "plain_engine = \<lparr>drv_fault = (\<lambda>t. None), drv_trunc = (\<lambda>t. None), drv_order = (\<lambda>t. [])\<rparr>"

definition no_faults :: "engine \<Rightarrow> bool" where
  "no_faults e \<longleftrightarrow> (\<forall>t. drv_fault e t = None)"

definition complete_scans :: "engine \<Rightarrow> bool" where
  "complete_scans e \<longleftrightarrow> (\<forall>t. drv_trunc e t = None)"

lemma plain_engine_simps [simp]:
  "drv_fault plain_engine t = None" "drv_trunc plain_engine t = None"
  "drv_order plain_engine t = []" "no_faults plain_engine" "complete_scans plain_engine"
  by (simp_all add: plain_engine_def no_faults_def complete_scans_def)

subsection \<open>Running one statement\<close>

text \<open>\<open>ExecContext\<close>: the driver's error, the database's error, or the new tables.\<close>

definition ExecContext :: "engine \<Rightarrow> (tables \<Rightarrow> string + ('a \<times> tables)) \<Rightarrow> (conn, go_error, 'a) op" where
  "ExecContext e f s =
     (let t = conn_tick s; s1 = s\<lparr>conn_tick := Suc t\<rparr>
      in case drv_fault e t of
           Some d \<Rightarrow> (Inl (PlainErr d), s1)
         | None \<Rightarrow> (case f (conn_tables s) of
             Inl d \<Rightarrow> (Inl (PlainErr d), s1)
           | Inr (x, T) \<Rightarrow> (Inr x, s1\<lparr>conn_tables := T\<rparr>)))"

definition exec_insert :: "engine \<Rightarrow> (tables \<Rightarrow> string + tables) \<Rightarrow> (conn, go_error, unit) op" where
  "exec_insert e f =
     ExecContext e (\<lambda>T. case f T of Inl d \<Rightarrow> Inl d | Inr T1 \<Rightarrow> Inr ((), T1))"

definition exec_update :: "engine \<Rightarrow> (tables \<Rightarrow> tables) \<Rightarrow> (conn, go_error, unit) op" where
  "exec_update e f = ExecContext e (\<lambda>T. Inr ((), f T))"

text \<open>
  \<open>QueryContext\<close> and the loop \<open>for rows.Next() { rows.Scan(...) }\<close>: the rows delivered before
  the iteration ends, whether it ended because they were exhausted or because of an error.
\<close>

definition QueryContext :: "engine \<Rightarrow> (nat list \<Rightarrow> tables \<Rightarrow> 'a list) \<Rightarrow> (conn, go_error, 'a list) op" where
  "QueryContext e q s =
     (let t = conn_tick s; s1 = s\<lparr>conn_tick := Suc t\<rparr>
      in case drv_fault e t of
           Some d \<Rightarrow> (Inl (PlainErr d), s1)
         | None \<Rightarrow>
             (let rows = q (drv_order e t) (conn_tables s)
              in (Inr (case drv_trunc e t of None \<Rightarrow> rows | Some k \<Rightarrow> take k rows), s1)))"

text \<open>\<open>QueryRowContext\<close> and \<open>Scan\<close>: one value, or nothing for \<open>sql.ErrNoRows\<close>.\<close>

definition QueryRowContext :: "engine \<Rightarrow> (tables \<Rightarrow> 'a) \<Rightarrow> (conn, go_error, 'a) op" where
  "QueryRowContext e q s =
     (let t = conn_tick s; s1 = s\<lparr>conn_tick := Suc t\<rparr>
      in case drv_fault e t of
           Some d \<Rightarrow> (Inl (PlainErr d), s1)
         | None \<Rightarrow> (Inr (q (conn_tables s)), s1))"

text \<open>\<open>result.RowsAffected()\<close>, asked for after the statement took effect.\<close>

definition RowsAffected :: "engine \<Rightarrow> nat \<Rightarrow> (conn, go_error, nat) op" where
  "RowsAffected e k = ExecContext e (\<lambda>T. Inr (k, T))"

subsection \<open>Opening the database\<close>

text \<open>
  \<open>NewSQLite\<close>: \<open>disk\<close> is the database found at the path (\<open>None\<close>: none yet). Opening and
  pinging are statement 0, the three pragmas statements 1 to 3 (the second one turns foreign keys
  on), the schema statement 4.
\<close>

definition initPragmas :: "engine \<Rightarrow> (conn, go_error, unit) op" where
  "initPragmas e =
     bindR (mapErrR (errorf_w ''failed to execute pragma PRAGMA journal_mode = WAL;'')
              (exec_update e (\<lambda>T. T)))
       (\<lambda>_. bindR (mapErrR (errorf_w ''failed to execute pragma PRAGMA foreign_keys = ON;'')
              (exec_update e (\<lambda>T. T\<lparr>foreign_keys := True\<rparr>)))
       (\<lambda>_. mapErrR (errorf_w ''failed to execute pragma PRAGMA busy_timeout = 5000;'')
              (exec_update e (\<lambda>T. T))))"

definition bootstrapSchema :: "engine \<Rightarrow> tables option \<Rightarrow> (conn, go_error, unit) op" where
  "bootstrapSchema e disk =
     mapErrR (errorf_w ''failed to bootstrap schema'')
       (exec_update e (\<lambda>T. (run_schema disk)\<lparr>foreign_keys := foreign_keys T\<rparr>))"

definition NewSQLite :: "engine \<Rightarrow> string \<Rightarrow> tables option \<Rightarrow> (go_error + unit) \<times> conn" where
  "NewSQLite e path disk =
     (let s0 = \<lparr>conn_tables = (run_schema disk)\<lparr>foreign_keys := False\<rparr>, conn_tick = 0\<rparr>
      in if path = [] then (Inl (PlainErr ''sqlite path cannot be empty''), s0)
         else bindR (mapErrR (errorf_w ''failed to ping sqlite database'') (exec_update e (\<lambda>T. T)))
           (\<lambda>_. bindR (initPragmas e) (\<lambda>_. bootstrapSchema e disk)) s0)"

subsection \<open>Transactions\<close>

text \<open>
  \<open>WithTx\<close>: the function runs on the same connection and an error rolls its statements back. What
  holds after \<open>Rollback\<close> or \<open>Commit\<close> themselves reported an error is decided by \<open>database/sql\<close>, the
  driver (\<open>modernc.org/sqlite\<close>) and SQLite, not by this code, which only returns the error. The model
  takes the transaction to be over and undone then (\<open>abandon_tx\<close>). For a rollback this is what SQLite
  documents: \<open>ROLLBACK\<close> fails when an error has already undone the transaction. For a commit it leaves
  out a \<open>COMMIT\<close> refused with \<open>SQLITE_BUSY\<close>, after which SQLite keeps the transaction open on the
  one connection of the pool; in the journal mode that \<open>initPragmas\<close> sets, readers do not make a commit
  busy. Nothing that is proved of a transaction that commits or rolls back rests on this assumption.
\<close>

definition abandon_tx :: "conn \<Rightarrow> conn \<Rightarrow> conn" where
  "abandon_tx begun s = s\<lparr>conn_tables := conn_tables begun\<rparr>"

definition WithTx :: "engine \<Rightarrow> (conn, go_error, unit) op \<Rightarrow> (conn, go_error, unit) op" where
  "WithTx e fn s =
     (case exec_update e (\<lambda>T. T) s of
        (Inl d, s1) \<Rightarrow> (Inl (errorf_w ''failed to begin transaction'' d), s1)
      | (Inr _, s1) \<Rightarrow>
         (case fn s1 of
            (Inl err, s2) \<Rightarrow>
              (case exec_update e (\<lambda>T. conn_tables s) s2 of
                 (Inl rb, s3) \<Rightarrow>
                   (Inl (WrapErr (''rollback failed: '' @ error_text rb @ '' (original error: ''
                          @ error_text err @ '')'') err), abandon_tx s s3)
               | (Inr _, s3) \<Rightarrow> (Inl err, s3))
          | (Inr _, s2) \<Rightarrow>
              (case exec_update e (\<lambda>T. T) s2 of
                 (Inl d, s3) \<Rightarrow>
                   (Inl (errorf_w ''failed to commit transaction'' d), abandon_tx s s3)
               | (Inr _, s3) \<Rightarrow> (Inr (), s3))))"

subsection \<open>File operations\<close>

definition CreateFile :: "engine \<Rightarrow> file_row \<Rightarrow> (conn, go_error, unit) op" where
  "CreateFile e f = mapErrR (errorf_w ''failed to insert file'') (exec_insert e (query_insert_file f))"

definition GetFile :: "engine \<Rightarrow> string \<Rightarrow> (conn, go_error, file_row option) op" where
  "GetFile e fid =
     mapErrR (errorf_w ''failed to get file'') (QueryRowContext e (query_select_file_by_id fid))"

definition ListFiles :: "engine \<Rightarrow> (conn, go_error, file_row list) op" where
  "ListFiles e = mapErrR (errorf_w ''failed to list files'') (QueryContext e query_select_all_files)"

definition UpdateFileStatus :: "engine \<Rightarrow> string \<Rightarrow> string \<Rightarrow> (conn, go_error, unit) op" where
  "UpdateFileStatus e fid status =
     mapErrR (errorf_w ''failed to update file status'')
       (exec_update e (query_update_file_status status fid))"

subsection \<open>Chunk operations\<close>

text \<open>The loops over several rows stop at the first error; the rows before it stay inserted.\<close>

fun InsertChunks :: "engine \<Rightarrow> chunk_row list \<Rightarrow> (conn, go_error, unit) op" where
  "InsertChunks e [] = retR ()"
| "InsertChunks e (c # cs) =
     bindR (mapErrR (errorf_w ''failed to insert chunk'') (exec_insert e (query_insert_chunk c)))
       (\<lambda>_. InsertChunks e cs)"

definition GetChunksByFileID :: "engine \<Rightarrow> string \<Rightarrow> (conn, go_error, chunk_row list) op" where
  "GetChunksByFileID e fid =
     mapErrR (errorf_w ''failed to query chunks'')
       (QueryContext e (\<lambda>p. query_select_chunks_by_file_id p fid))"

definition ListAllChunks :: "engine \<Rightarrow> (conn, go_error, chunk_row list) op" where
  "ListAllChunks e =
     mapErrR (errorf_w ''failed to query all chunks'') (QueryContext e query_select_all_chunks)"

definition ListCommittedChunks :: "engine \<Rightarrow> (conn, go_error, chunk_row list) op" where
  "ListCommittedChunks e =
     mapErrR (errorf_w ''failed to query committed chunks'')
       (QueryContext e query_select_committed_chunks)"

subsection \<open>Replica operations\<close>

fun InsertChunkLocations :: "engine \<Rightarrow> location_row list \<Rightarrow> (conn, go_error, unit) op" where
  "InsertChunkLocations e [] = retR ()"
| "InsertChunkLocations e (l # ls) =
     bindR (mapErrR (errorf_w ''failed to insert chunk location'')
              (exec_insert e (query_insert_chunk_location l)))
       (\<lambda>_. InsertChunkLocations e ls)"

definition GetChunkLocations :: "engine \<Rightarrow> string \<Rightarrow> (conn, go_error, location_row list) op" where
  "GetChunkLocations e cid =
     mapErrR (errorf_w ''failed to query chunk locations'')
       (QueryContext e (\<lambda>p. query_select_chunk_locations p cid))"

definition AddChunkLocation :: "engine \<Rightarrow> string \<Rightarrow> string \<Rightarrow> (conn, go_error, unit) op" where
  "AddChunkLocation e cid nid =
     mapErrR (errorf_w ''failed to add chunk location'')
       (exec_insert e (query_insert_chunk_location \<lparr>loc_chunk = cid, loc_node = nid\<rparr>))"

subsection \<open>Node operations\<close>

definition RegisterNode :: "engine \<Rightarrow> node_row \<Rightarrow> (conn, go_error, unit) op" where
  "RegisterNode e n = mapErrR (errorf_w ''failed to register node'') (exec_insert e (query_insert_node n))"

definition UpdateNodeHeartbeat :: "engine \<Rightarrow> string \<Rightarrow> int64 \<Rightarrow> (conn, go_error, unit) op" where
  "UpdateNodeHeartbeat e nid ts =
     mapErrR (errorf_w ''failed to update node heartbeat'')
       (exec_update e (query_update_node_heartbeat ts nid))"

definition ListHealthyNodes :: "engine \<Rightarrow> (conn, go_error, node_row list) op" where
  "ListHealthyNodes e =
     mapErrR (errorf_w ''failed to list healthy nodes'') (QueryContext e query_select_healthy_nodes)"

definition ListAllNodes :: "engine \<Rightarrow> (conn, go_error, node_row list) op" where
  "ListAllNodes e = mapErrR (errorf_w ''failed to list nodes'') (QueryContext e query_select_all_nodes)"

definition CountTotalNodes :: "engine \<Rightarrow> (conn, go_error, nat) op" where
  "CountTotalNodes e =
     mapErrR (errorf_w ''failed to count total nodes'') (QueryRowContext e query_count_total_nodes)"

definition CountHealthyNodes :: "engine \<Rightarrow> (conn, go_error, nat) op" where
  "CountHealthyNodes e =
     mapErrR (errorf_w ''failed to count healthy nodes'') (QueryRowContext e query_count_healthy_nodes)"

definition CountTotalChunks :: "engine \<Rightarrow> (conn, go_error, nat) op" where
  "CountTotalChunks e =
     mapErrR (errorf_w ''failed to count total chunks'') (QueryRowContext e query_count_total_chunks)"

definition CountTotalReplicas :: "engine \<Rightarrow> (conn, go_error, nat) op" where
  "CountTotalReplicas e =
     mapErrR (errorf_w ''failed to count total replicas'') (QueryRowContext e query_count_total_replicas)"

definition UpdateNodeStatus :: "engine \<Rightarrow> string \<Rightarrow> string \<Rightarrow> (conn, go_error, unit) op" where
  "UpdateNodeStatus e nid status =
     mapErrR (errorf_w ''failed to update node status'')
       (exec_update e (query_update_node_status status nid))"

text \<open>
  \<open>UpsertNodeHeartbeat\<close>: an \<open>UPDATE\<close>, then an \<open>INSERT\<close> when it matched no row. The two are
  separate statements outside any transaction; a failure to learn the number of matched rows is
  reported after the update took effect.
\<close>

definition UpsertNodeHeartbeat ::
  "engine \<Rightarrow> int64 \<Rightarrow> string \<Rightarrow> string \<Rightarrow> int64 \<Rightarrow> int64 \<Rightarrow> (conn, go_error, unit) op" where
  "UpsertNodeHeartbeat e now nid addr cap avail =
     bindR (mapErrR (errorf_w ''failed to update node heartbeat'')
              (ExecContext e (\<lambda>T. Inr (query_upsert_node_heartbeat addr cap avail now nid T))))
       (\<lambda>result. bindR (mapErrR (errorf_w ''failed to get rows affected'') (RowsAffected e result))
       (\<lambda>rowsAffected.
          if rowsAffected = 0
          then mapErrR (errorf_w ''failed to insert node'')
                 (exec_insert e (query_insert_node
                    \<lparr>node_id = nid, node_address = addr, node_capacity = cap, node_available = avail,
                     node_status = NodeStatusHealthy, node_heartbeat = now\<rparr>))
          else retR ()))"

subsection \<open>Upload session operations\<close>

definition CreateUploadSession :: "engine \<Rightarrow> session_row \<Rightarrow> (conn, go_error, unit) op" where
  "CreateUploadSession e u =
     mapErrR (errorf_w ''failed to create upload session'') (exec_insert e (query_insert_upload_session u))"

definition GetUploadSession :: "engine \<Rightarrow> string \<Rightarrow> (conn, go_error, session_row option) op" where
  "GetUploadSession e sid =
     mapErrR (errorf_w ''failed to get upload session'')
       (QueryRowContext e (query_select_upload_session_by_id sid))"

definition UpdateUploadSessionStatus :: "engine \<Rightarrow> string \<Rightarrow> string \<Rightarrow> (conn, go_error, unit) op" where
  "UpdateUploadSessionStatus e sid status =
     mapErrR (errorf_w ''failed to update upload session status'')
       (exec_update e (query_update_upload_session_status status sid))"

lemmas store_op_defs = CreateFile_def GetFile_def ListFiles_def UpdateFileStatus_def
  GetChunksByFileID_def ListAllChunks_def ListCommittedChunks_def GetChunkLocations_def
  AddChunkLocation_def RegisterNode_def UpdateNodeHeartbeat_def ListHealthyNodes_def
  ListAllNodes_def CountTotalNodes_def CountHealthyNodes_def CountTotalChunks_def
  CountTotalReplicas_def UpdateNodeStatus_def UpsertNodeHeartbeat_def CreateUploadSession_def
  GetUploadSession_def UpdateUploadSessionStatus_def

end
