(* ===== verification/Store_Laws.thy ===== *)
theory Store_Laws
  imports Sqlite_Store
begin

text \<open>
  The laws of the store operations. First what one statement does to the tables when it
  succeeds, when it fails, and when the driver has no faults; then the same for the methods of
  \<open>SQLiteStore\<close> that the managers call; then the preservation of invariants on the tables, with
  the locales \<open>table_invariant\<close> and \<open>replica_invariant\<close>: the contract between an invariant of
  the metadata and the operations that write only node rows, or only node rows and replica rows.
\<close>

named_theorems store_dest "what a finished store operation says about the tables"

subsection \<open>One statement\<close>

lemma exec_insert_InrD: "exec_insert e f s = (Inr u, s1) \<Longrightarrow> f (conn_tables s) = Inr (conn_tables s1)"
  by (auto simp: exec_insert_def ExecContext_def Let_def split: option.splits sum.splits)

lemma exec_insert_InlD: "exec_insert e f s = (Inl d, s1) \<Longrightarrow> conn_tables s1 = conn_tables s"
  by (auto simp: exec_insert_def ExecContext_def Let_def split: option.splits sum.splits)

lemma exec_update_InrD: "exec_update e f s = (Inr u, s1) \<Longrightarrow> conn_tables s1 = f (conn_tables s)"
  by (auto simp: exec_update_def ExecContext_def Let_def split: option.splits sum.splits)

lemma exec_update_InlD: "exec_update e f s = (Inl d, s1) \<Longrightarrow> conn_tables s1 = conn_tables s"
  by (auto simp: exec_update_def ExecContext_def Let_def split: option.splits sum.splits)

lemma ExecContext_InrD: "ExecContext e f s = (Inr x, s1) \<Longrightarrow> f (conn_tables s) = Inr (x, conn_tables s1)"
  by (auto simp: ExecContext_def Let_def split: option.splits sum.splits prod.splits)

lemma ExecContext_InlD: "ExecContext e f s = (Inl d, s1) \<Longrightarrow> conn_tables s1 = conn_tables s"
  by (auto simp: ExecContext_def Let_def split: option.splits sum.splits prod.splits)

lemma QueryRow_InrD:
  "QueryRowContext e q s = (Inr x, s1) \<Longrightarrow> x = q (conn_tables s) \<and> conn_tables s1 = conn_tables s"
  by (auto simp: QueryRowContext_def Let_def split: option.splits)

lemma QueryRow_tables [simp]: "conn_tables (snd (QueryRowContext e q s)) = conn_tables s"
  by (auto simp: QueryRowContext_def Let_def split: option.splits)

lemma Query_InrD:
  assumes "QueryContext e q s = (Inr rows, s1)"
  shows "conn_tables s1 = conn_tables s"
    and "\<exists>p k. rows = take k (q p (conn_tables s))"
    and "complete_scans e \<Longrightarrow> \<exists>p. rows = q p (conn_tables s)"
proof -
  let ?p = "drv_order e (conn_tick s)"
  let ?rows = "q ?p (conn_tables s)"
  from assms have rows: "rows = (case drv_trunc e (conn_tick s) of None \<Rightarrow> ?rows | Some k \<Rightarrow> take k ?rows)"
    and s1: "conn_tables s1 = conn_tables s"
    by (auto simp: QueryContext_def Let_def split: option.splits)
  show "conn_tables s1 = conn_tables s"
    by (rule s1)
  from rows have "rows = take (case drv_trunc e (conn_tick s) of None \<Rightarrow> length ?rows | Some k \<Rightarrow> k) ?rows"
    by (simp split: option.splits)
  then show "\<exists>p k. rows = take k (q p (conn_tables s))"
    by blast
  show "complete_scans e \<Longrightarrow> \<exists>p. rows = q p (conn_tables s)"
    using rows by (auto simp: complete_scans_def)
qed

lemma Query_tables [simp]: "conn_tables (snd (QueryContext e q s)) = conn_tables s"
  by (auto simp: QueryContext_def Let_def split: option.splits)

lemma RowsAffected_tables [simp]: "conn_tables (snd (RowsAffected e k s)) = conn_tables s"
  by (auto simp: RowsAffected_def ExecContext_def Let_def split: option.splits)

lemma RowsAffected_InrD: "RowsAffected e k s = (Inr n, s1) \<Longrightarrow> n = k \<and> conn_tables s1 = conn_tables s"
  by (auto simp: RowsAffected_def dest: ExecContext_InrD)

lemma abandon_tx_tables [simp]: "conn_tables (abandon_tx begun s) = conn_tables begun"
  by (simp add: abandon_tx_def)

subsection \<open>A driver without faults\<close>

lemma exec_insert_ok:
  assumes "no_faults e" "f (conn_tables s) = Inr T1"
  shows "exec_insert e f s = (Inr (), s\<lparr>conn_tables := T1, conn_tick := Suc (conn_tick s)\<rparr>)"
  using assms by (simp add: exec_insert_def ExecContext_def no_faults_def)

lemma exec_insert_refused:
  assumes "no_faults e" "f (conn_tables s) = Inl d"
  shows "exec_insert e f s = (Inl (PlainErr d), s\<lparr>conn_tick := Suc (conn_tick s)\<rparr>)"
  using assms by (simp add: exec_insert_def ExecContext_def no_faults_def)

lemma exec_update_ok:
  assumes "no_faults e"
  shows "exec_update e f s =
    (Inr (), s\<lparr>conn_tables := f (conn_tables s), conn_tick := Suc (conn_tick s)\<rparr>)"
  using assms by (simp add: exec_update_def ExecContext_def no_faults_def)

lemma QueryRow_ok:
  assumes "no_faults e"
  shows "QueryRowContext e q s = (Inr (q (conn_tables s)), s\<lparr>conn_tick := Suc (conn_tick s)\<rparr>)"
  using assms by (simp add: QueryRowContext_def no_faults_def)

lemma Query_ok:
  assumes "no_faults e" "complete_scans e"
  shows "QueryContext e q s =
    (Inr (q (drv_order e (conn_tick s)) (conn_tables s)), s\<lparr>conn_tick := Suc (conn_tick s)\<rparr>)"
  using assms by (simp add: QueryContext_def Let_def no_faults_def complete_scans_def)

lemmas stmt_ok = exec_update_ok QueryRow_ok Query_ok

text \<open>With no faults left to happen, every closed run evaluates by these rules.\<close>

lemmas run_simps = bindR_def mapErrR_def store_op_defs WithTx_def RowsAffected_def exec_insert_def exec_update_def
  ExecContext_def QueryRowContext_def QueryContext_def Let_def

subsection \<open>Finished operations\<close>

lemma CreateFile_InrD [store_dest]:
  "CreateFile e f s = (Inr u, s1) \<Longrightarrow> query_insert_file f (conn_tables s) = Inr (conn_tables s1)"
  by (auto simp: CreateFile_def dest: exec_insert_InrD)

lemma CreateUploadSession_InrD [store_dest]:
  "CreateUploadSession e us s = (Inr u, s1) \<Longrightarrow>
     query_insert_upload_session us (conn_tables s) = Inr (conn_tables s1)"
  by (auto simp: CreateUploadSession_def dest: exec_insert_InrD)

lemma RegisterNode_InrD [store_dest]:
  "RegisterNode e n s = (Inr u, s1) \<Longrightarrow> query_insert_node n (conn_tables s) = Inr (conn_tables s1)"
  by (auto simp: RegisterNode_def dest: exec_insert_InrD)

lemma AddChunkLocation_InrD [store_dest]:
  "AddChunkLocation e cid nid s = (Inr u, s1) \<Longrightarrow>
     query_insert_chunk_location \<lparr>loc_chunk = cid, loc_node = nid\<rparr> (conn_tables s) = Inr (conn_tables s1)"
  by (auto simp: AddChunkLocation_def dest: exec_insert_InrD)

lemma AddChunkLocation_InlD [store_dest]:
  "AddChunkLocation e cid nid s = (Inl d, s1) \<Longrightarrow> conn_tables s1 = conn_tables s"
  by (auto simp: AddChunkLocation_def mapErrR_eq_Inl dest: exec_insert_InlD)

lemma UpdateFileStatus_InrD [store_dest]:
  "UpdateFileStatus e fid st s = (Inr u, s1) \<Longrightarrow>
     conn_tables s1 = query_update_file_status st fid (conn_tables s)"
  by (auto simp: UpdateFileStatus_def dest: exec_update_InrD)

lemma UpdateFileStatus_InlD [store_dest]:
  "UpdateFileStatus e fid st s = (Inl d, s1) \<Longrightarrow> conn_tables s1 = conn_tables s"
  by (auto simp: UpdateFileStatus_def mapErrR_eq_Inl dest: exec_update_InlD)

lemma UpdateUploadSessionStatus_InrD [store_dest]:
  "UpdateUploadSessionStatus e sid st s = (Inr u, s1) \<Longrightarrow>
     conn_tables s1 = query_update_upload_session_status st sid (conn_tables s)"
  by (auto simp: UpdateUploadSessionStatus_def dest: exec_update_InrD)

lemma UpdateNodeStatus_InrD [store_dest]:
  "UpdateNodeStatus e nid st s = (Inr u, s1) \<Longrightarrow>
     conn_tables s1 = query_update_node_status st nid (conn_tables s)"
  by (auto simp: UpdateNodeStatus_def dest: exec_update_InrD)

lemma GetFile_InrD [store_dest]:
  "GetFile e fid s = (Inr r, s1) \<Longrightarrow>
     r = query_select_file_by_id fid (conn_tables s) \<and> conn_tables s1 = conn_tables s"
  by (auto simp: GetFile_def dest: QueryRow_InrD)

lemma GetUploadSession_InrD [store_dest]:
  "GetUploadSession e sid s = (Inr r, s1) \<Longrightarrow>
     r = query_select_upload_session_by_id sid (conn_tables s) \<and> conn_tables s1 = conn_tables s"
  by (auto simp: GetUploadSession_def dest: QueryRow_InrD)

lemma GetChunksByFileID_InrD [store_dest]:
  "GetChunksByFileID e fid s = (Inr r, s1) \<Longrightarrow> conn_tables s1 = conn_tables s
     \<and> (\<exists>p k. r = take k (query_select_chunks_by_file_id p fid (conn_tables s)))
     \<and> (complete_scans e \<longrightarrow> (\<exists>p. r = query_select_chunks_by_file_id p fid (conn_tables s)))"
  unfolding GetChunksByFileID_def mapErrR_eq_Inr
  by (auto dest: Query_InrD)

lemma GetChunkLocations_InrD [store_dest]:
  "GetChunkLocations e cid s = (Inr r, s1) \<Longrightarrow> conn_tables s1 = conn_tables s
     \<and> (\<exists>p k. r = take k (query_select_chunk_locations p cid (conn_tables s)))
     \<and> (complete_scans e \<longrightarrow> (\<exists>p. r = query_select_chunk_locations p cid (conn_tables s)))"
  unfolding GetChunkLocations_def mapErrR_eq_Inr
  by (auto dest: Query_InrD)

lemma ListHealthyNodes_InrD [store_dest]:
  "ListHealthyNodes e s = (Inr r, s1) \<Longrightarrow> conn_tables s1 = conn_tables s
     \<and> (\<exists>p k. r = take k (query_select_healthy_nodes p (conn_tables s)))
     \<and> (complete_scans e \<longrightarrow> (\<exists>p. r = query_select_healthy_nodes p (conn_tables s)))"
  unfolding ListHealthyNodes_def mapErrR_eq_Inr
  by (auto dest: Query_InrD)

lemma ListFiles_InrD [store_dest]:
  "ListFiles e s = (Inr r, s1) \<Longrightarrow> conn_tables s1 = conn_tables s
     \<and> (\<exists>p k. r = take k (query_select_all_files p (conn_tables s)))
     \<and> (complete_scans e \<longrightarrow> (\<exists>p. r = query_select_all_files p (conn_tables s)))"
  unfolding ListFiles_def mapErrR_eq_Inr
  by (auto dest: Query_InrD)

text \<open>Reading never changes the tables, whatever the outcome.\<close>

lemma read_tables [simp]:
  "conn_tables (snd (GetFile e fid s)) = conn_tables s"
  "conn_tables (snd (ListFiles e s)) = conn_tables s"
  "conn_tables (snd (GetChunksByFileID e fid s)) = conn_tables s"
  "conn_tables (snd (ListAllChunks e s)) = conn_tables s"
  "conn_tables (snd (ListCommittedChunks e s)) = conn_tables s"
  "conn_tables (snd (GetChunkLocations e cid s)) = conn_tables s"
  "conn_tables (snd (ListHealthyNodes e s)) = conn_tables s"
  "conn_tables (snd (ListAllNodes e s)) = conn_tables s"
  "conn_tables (snd (CountTotalNodes e s)) = conn_tables s"
  "conn_tables (snd (CountHealthyNodes e s)) = conn_tables s"
  "conn_tables (snd (CountTotalChunks e s)) = conn_tables s"
  "conn_tables (snd (CountTotalReplicas e s)) = conn_tables s"
  "conn_tables (snd (GetUploadSession e sid s)) = conn_tables s"
  by (simp_all add: store_op_defs)

subsection \<open>Loops over rows\<close>

fun insert_all :: "('r \<Rightarrow> tables \<Rightarrow> string + tables) \<Rightarrow> 'r list \<Rightarrow> tables \<Rightarrow> string + tables" where
  "insert_all ins [] T = Inr T"
| "insert_all ins (r # rs) T = (case ins r T of Inl d \<Rightarrow> Inl d | Inr T1 \<Rightarrow> insert_all ins rs T1)"

lemma InsertChunks_InrD [store_dest]:
  "InsertChunks e cs s = (Inr u, s1) \<Longrightarrow>
     insert_all query_insert_chunk cs (conn_tables s) = Inr (conn_tables s1)"
proof (induction cs arbitrary: s)
  case (Cons c cs)
  then show ?case
    by (fastforce simp: bindR_eq_Inr dest!: exec_insert_InrD)
qed simp

lemma InsertChunkLocations_InrD [store_dest]:
  "InsertChunkLocations e ls s = (Inr u, s1) \<Longrightarrow>
     insert_all query_insert_chunk_location ls (conn_tables s) = Inr (conn_tables s1)"
proof (induction ls arbitrary: s)
  case (Cons l ls)
  then show ?case
    by (fastforce simp: bindR_eq_Inr dest!: exec_insert_InrD)
qed simp

text \<open>Inserting chunk rows: they were all new, they respect the keys, and they are appended.\<close>

lemma insert_all_chunks_Inr:
  "insert_all query_insert_chunk cs T = Inr T1 \<Longrightarrow>
     T1 = T\<lparr>t_chunks := t_chunks T @ cs\<rparr> \<and> distinct (map chunk_id cs)
     \<and> set (map chunk_id cs) \<inter> set (map chunk_id (t_chunks T)) = {}"
proof (induction cs arbitrary: T)
  case (Cons c cs)
  from Cons.prems obtain T2 where T2: "query_insert_chunk c T = Inr T2"
    and rest: "insert_all query_insert_chunk cs T2 = Inr T1"
    by (auto split: sum.splits)
  from T2 have "T2 = T\<lparr>t_chunks := t_chunks T @ [c]\<rparr>" "chunk_id c \<notin> set (map chunk_id (t_chunks T))"
    by (auto simp: query_insert_chunk_def split: if_splits)
  with Cons.IH [OF rest] show ?case
    by auto
qed simp

lemma insert_all_locations_Inr:
  "insert_all query_insert_chunk_location ls T = Inr T1 \<Longrightarrow>
     T1 = T\<lparr>t_locations := t_locations T @ ls\<rparr>
     \<and> distinct (map loc_key ls)
     \<and> set (map loc_key ls)
         \<inter> set (map loc_key (t_locations T)) = {}"
proof (induction ls arbitrary: T)
  case (Cons l ls)
  from Cons.prems obtain T2 where T2: "query_insert_chunk_location l T = Inr T2"
    and rest: "insert_all query_insert_chunk_location ls T2 = Inr T1"
    by (auto split: sum.splits)
  from T2 have "T2 = T\<lparr>t_locations := t_locations T @ [l]\<rparr>"
    "loc_key l \<notin> set (map loc_key (t_locations T))"
    by (auto simp: query_insert_chunk_location_def split: if_splits)
  with Cons.IH [OF rest] show ?case
    by auto
qed simp

subsection \<open>Loops that succeed\<close>

lemma InsertChunks_ok:
  assumes "no_faults e" "insert_all query_insert_chunk cs (conn_tables s) = Inr T1"
  shows "\<exists>s1. InsertChunks e cs s = (Inr (), s1) \<and> conn_tables s1 = T1"
  using assms(2)
proof (induction cs arbitrary: s)
  case (Cons c cs)
  then obtain T2 where "query_insert_chunk c (conn_tables s) = Inr T2"
    "insert_all query_insert_chunk cs T2 = Inr T1"
    by (auto split: sum.splits)
  with Cons.IH [of "s\<lparr>conn_tables := T2, conn_tick := Suc (conn_tick s)\<rparr>"] show ?case
    by (simp add: bindR_def mapErrR_def exec_insert_ok [OF assms(1)])
qed simp

lemma InsertChunkLocations_ok:
  assumes "no_faults e" "insert_all query_insert_chunk_location ls (conn_tables s) = Inr T1"
  shows "\<exists>s1. InsertChunkLocations e ls s = (Inr (), s1) \<and> conn_tables s1 = T1"
  using assms(2)
proof (induction ls arbitrary: s)
  case (Cons l ls)
  then obtain T2 where "query_insert_chunk_location l (conn_tables s) = Inr T2"
    "insert_all query_insert_chunk_location ls T2 = Inr T1"
    by (auto split: sum.splits)
  with Cons.IH [of "s\<lparr>conn_tables := T2, conn_tick := Suc (conn_tick s)\<rparr>"] show ?case
    by (simp add: bindR_def mapErrR_def exec_insert_ok [OF assms(1)])
qed simp

lemma InsertChunkLocations_refused:
  assumes "no_faults e" "insert_all query_insert_chunk_location ls (conn_tables s) = Inl d"
  shows "\<exists>err s1. InsertChunkLocations e ls s = (Inl err, s1)"
  using assms(2)
proof (induction ls arbitrary: s)
  case (Cons l ls)
  show ?case
  proof (cases "query_insert_chunk_location l (conn_tables s)")
    case Inl
    then show ?thesis
      by (simp add: bindR_def mapErrR_def exec_insert_refused [OF assms(1)])
  next
    case (Inr T2)
    with Cons.prems Cons.IH [of "s\<lparr>conn_tables := T2, conn_tick := Suc (conn_tick s)\<rparr>"] show ?thesis
      by (simp add: bindR_def mapErrR_def exec_insert_ok [OF assms(1)])
  qed
qed simp

lemma insert_all_chunks_ok:
  assumes "distinct (map chunk_id cs)" "chunk_id ` set cs \<inter> chunk_id ` set (t_chunks T) = {}"
    and "distinct (map (\<lambda>c. (chunk_file c, chunk_index c)) cs)"
    and "(\<lambda>c. (chunk_file c, chunk_index c)) ` set cs \<inter> (\<lambda>c. (chunk_file c, chunk_index c)) ` set (t_chunks T) = {}"
    and "chunk_file ` set cs \<subseteq> file_id ` set (t_files T)"
  shows "insert_all query_insert_chunk cs T = Inr (T\<lparr>t_chunks := t_chunks T @ cs\<rparr>)"
  using assms
proof (induction cs arbitrary: T)
  case (Cons c cs)
  let ?T = "T\<lparr>t_chunks := t_chunks T @ [c]\<rparr>"
  have "query_insert_chunk c T = Inr ?T"
    using Cons.prems by (auto simp: query_insert_chunk_def)
  moreover have "insert_all query_insert_chunk cs ?T = Inr (?T\<lparr>t_chunks := t_chunks ?T @ cs\<rparr>)"
    using Cons.prems by (intro Cons.IH) auto
  ultimately show ?case
    by simp
qed simp

lemma insert_all_locations_iff:
  assumes "foreign_keys T" "loc_chunk ` set ls \<subseteq> chunk_id ` set (t_chunks T)"
  shows "insert_all query_insert_chunk_location ls T = Inr (T\<lparr>t_locations := t_locations T @ ls\<rparr>) \<longleftrightarrow>
      distinct (map loc_key ls) \<and> loc_key ` set ls \<inter> loc_key ` set (t_locations T) = {}" (is ?A)
    and "insert_all query_insert_chunk_location ls T = Inr (T\<lparr>t_locations := t_locations T @ ls\<rparr>)
      \<or> (\<exists>d. insert_all query_insert_chunk_location ls T = Inl d)" (is ?B)
proof -
  show ?A
  proof
    assume "distinct (map loc_key ls) \<and> loc_key ` set ls \<inter> loc_key ` set (t_locations T) = {}"
    then show "insert_all query_insert_chunk_location ls T = Inr (T\<lparr>t_locations := t_locations T @ ls\<rparr>)"
      using assms
    proof (induction ls arbitrary: T)
      case (Cons l ls)
      let ?T = "T\<lparr>t_locations := t_locations T @ [l]\<rparr>"
      have "query_insert_chunk_location l T = Inr ?T"
        using Cons.prems by (auto simp: query_insert_chunk_location_def)
      moreover have "insert_all query_insert_chunk_location ls ?T = Inr (?T\<lparr>t_locations := t_locations ?T @ ls\<rparr>)"
        using Cons.prems by (intro Cons.IH) auto
      ultimately show ?case
        by simp
    qed simp
  next
    assume "insert_all query_insert_chunk_location ls T = Inr (T\<lparr>t_locations := t_locations T @ ls\<rparr>)"
    from insert_all_locations_Inr [OF this]
    show "distinct (map loc_key ls) \<and> loc_key ` set ls \<inter> loc_key ` set (t_locations T) = {}"
      by (simp only: set_map simp_thms)
  qed
  show ?B
    by (cases "insert_all query_insert_chunk_location ls T") (auto dest: insert_all_locations_Inr)
qed

end
