(* ===== verification/Store_Invariants.thy ===== *)
theory Store_Invariants
  imports Store_Laws
begin

text \<open>
  Invariants of the metadata tables and the store operations that keep them. \<open>on_tables I\<close> is an
  invariant \<open>I\<close> of the tables seen as an invariant of the connection. Two locales are the
  contracts: \<open>table_invariant\<close> (an invariant that only depends on the node table through the
  schema) and \<open>replica_invariant\<close> (one that adding a replica row keeps as well). Their lemmas are
  proved once and used for the schema invariant here and for the file life cycle in
  \<open>Lifecycle\<close>.
\<close>

definition on_tables :: "(tables \<Rightarrow> bool) \<Rightarrow> conn \<Rightarrow> bool" where
  "on_tables I s \<longleftrightarrow> I (conn_tables s)"

subsection \<open>Statements\<close>

lemma preserves_exec_insert:
  assumes "\<And>T T1. I T \<Longrightarrow> f T = Inr T1 \<Longrightarrow> I T1"
  shows "preserves (on_tables I) (exec_insert e f)"
proof (rule preservesI)
  fix s
  assume I: "on_tables I s"
  obtain r s1 where run: "exec_insert e f s = (r, s1)"
    by (cases "exec_insert e f s")
  then show "on_tables I (snd (exec_insert e f s))"
    using I assms by (cases r) (auto simp: on_tables_def dest: exec_insert_InlD exec_insert_InrD)
qed

lemma preserves_exec_update:
  assumes "\<And>T. I T \<Longrightarrow> I (f T)"
  shows "preserves (on_tables I) (exec_update e f)"
proof (rule preservesI)
  fix s
  assume I: "on_tables I s"
  obtain r s1 where run: "exec_update e f s = (r, s1)"
    by (cases "exec_update e f s")
  then show "on_tables I (snd (exec_update e f s))"
    using I assms by (cases r) (auto simp: on_tables_def dest: exec_update_InlD exec_update_InrD)
qed

lemma preserves_ExecContext:
  assumes "\<And>T x T1. I T \<Longrightarrow> f T = Inr (x, T1) \<Longrightarrow> I T1"
  shows "preserves (on_tables I) (ExecContext e f)"
proof (rule preservesI)
  fix s
  assume I: "on_tables I s"
  obtain r s1 where run: "ExecContext e f s = (r, s1)"
    by (cases "ExecContext e f s")
  then show "on_tables I (snd (ExecContext e f s))"
    using I assms by (cases r) (auto simp: on_tables_def dest: ExecContext_InlD ExecContext_InrD)
qed

lemma preserves_same_tables:
  "(\<And>s. conn_tables (snd (m s)) = conn_tables s) \<Longrightarrow> preserves (on_tables I) m"
  by (simp add: preserves_def on_tables_def)

lemmas preserves_reads [preserve_intros] =
  read_tables(1) [THEN preserves_same_tables] read_tables(2) [THEN preserves_same_tables]
  read_tables(3) [THEN preserves_same_tables] read_tables(4) [THEN preserves_same_tables]
  read_tables(5) [THEN preserves_same_tables] read_tables(6) [THEN preserves_same_tables]
  read_tables(7) [THEN preserves_same_tables] read_tables(8) [THEN preserves_same_tables]
  read_tables(9) [THEN preserves_same_tables] read_tables(10) [THEN preserves_same_tables]
  read_tables(11) [THEN preserves_same_tables] read_tables(12) [THEN preserves_same_tables]
  read_tables(13) [THEN preserves_same_tables] RowsAffected_tables [THEN preserves_same_tables]

subsection \<open>Transactions\<close>

lemma WithTx_InlD:
  assumes "WithTx e fn s = (Inl err, s1)"
  shows "conn_tables s1 = conn_tables s"
  using assms
  by (auto simp: WithTx_def split: prod.splits sum.splits
      dest: exec_update_InlD exec_update_InrD)

lemma WithTx_InrD:
  assumes "WithTx e fn s = (Inr u, s3)"
  shows "\<exists>s1 s2. conn_tables s1 = conn_tables s \<and> fn s1 = (Inr (), s2)
           \<and> conn_tables s3 = conn_tables s2"
proof -
  from assms obtain s1 s2 where begin_tx: "exec_update e (\<lambda>T. T) s = (Inr (), s1)"
    and fn: "fn s1 = (Inr (), s2)" and commit: "exec_update e (\<lambda>T. T) s2 = (Inr (), s3)"
    by (auto simp: WithTx_def split: prod.splits sum.splits)
  from begin_tx commit have "conn_tables s1 = conn_tables s" "conn_tables s3 = conn_tables s2"
    by (auto dest: exec_update_InrD)
  with fn show ?thesis
    by blast
qed

text \<open>
  An invariant survives a transaction when it holds whenever the transaction's function succeeds;
  inside the transaction it may be broken.
\<close>

lemma preserves_WithTx:
  assumes "\<And>s s1. on_tables I s \<Longrightarrow> fn s = (Inr (), s1) \<Longrightarrow> on_tables I s1"
  shows "preserves (on_tables I) (WithTx e fn)"
proof (rule preservesI)
  fix s
  assume I: "on_tables I s"
  obtain r s3 where run: "WithTx e fn s = (r, s3)"
    by (cases "WithTx e fn s")
  show "on_tables I (snd (WithTx e fn s))"
  proof (cases r)
    case (Inl err)
    with run I show ?thesis
      by (auto simp: on_tables_def dest: WithTx_InlD)
  next
    case (Inr u)
    with run obtain s1 s2 where "conn_tables s1 = conn_tables s" "fn s1 = (Inr (), s2)"
      "conn_tables s3 = conn_tables s2"
      by (auto dest: WithTx_InrD)
    with assms [of s1 s2] I run show ?thesis
      by (simp add: on_tables_def)
  qed
qed

text \<open>With a driver that never fails, a transaction is its function, or the rollback of it.\<close>

lemma WithTx_ok:
  assumes "no_faults e" "fn (s\<lparr>conn_tick := Suc (conn_tick s)\<rparr>) = (Inr (), s2)"
  shows "WithTx e fn s = (Inr (), s2\<lparr>conn_tick := Suc (conn_tick s2)\<rparr>)"
  using assms by (simp add: WithTx_def exec_update_ok)

lemma WithTx_refused:
  assumes "no_faults e" "fn (s\<lparr>conn_tick := Suc (conn_tick s)\<rparr>) = (Inl err, s2)"
  shows "fst (WithTx e fn s) = Inl err"
  using assms by (simp add: WithTx_def exec_update_ok)

subsection \<open>Invariants that leave the node table free\<close>

locale table_invariant =
  fixes I :: "tables \<Rightarrow> bool"
  assumes schema: "I T \<Longrightarrow> tables_wf T"
    and node_rows: "I T \<Longrightarrow> tables_wf (T\<lparr>t_nodes := ns\<rparr>) \<Longrightarrow> I (T\<lparr>t_nodes := ns\<rparr>)"
begin

lemma keeps_node_update:
  assumes "I T" "T1 = T\<lparr>t_nodes := ns\<rparr>" "tables_wf T1"
  shows "I T1"
  using assms node_rows by simp

lemma keeps_insert_node: "I T \<Longrightarrow> query_insert_node n T = Inr T1 \<Longrightarrow> I T1"
  by (rule keeps_node_update [OF _ _ tables_wf_insert_node [OF schema]])
    (auto simp: query_insert_node_def split: if_splits)

lemma keeps_RegisterNode: "preserves (on_tables I) (RegisterNode e n)"
  unfolding RegisterNode_def
  by (intro preserve_intros preserves_exec_insert) (rule keeps_insert_node)

lemma keeps_UpdateNodeHeartbeat: "preserves (on_tables I) (UpdateNodeHeartbeat e nid ts)"
  unfolding UpdateNodeHeartbeat_def
  by (intro preserve_intros preserves_exec_update)
    (rule keeps_node_update, assumption, simp add: query_update_node_heartbeat_def,
      erule schema [THEN tables_wf_update_heartbeat])

lemma keeps_UpdateNodeStatus: "preserves (on_tables I) (UpdateNodeStatus e nid st)"
  unfolding UpdateNodeStatus_def
  by (intro preserve_intros preserves_exec_update)
    (rule keeps_node_update, assumption, simp add: query_update_node_status_def,
      erule schema [THEN tables_wf_update_node_status])

lemma keeps_upsert:
  assumes "I T"
  shows "I (snd (query_upsert_node_heartbeat a c v now nid T))"
  by (rule keeps_node_update [OF assms _ tables_wf_upsert [OF schema [OF assms]]])
    (simp add: query_upsert_node_heartbeat_def)

lemma keeps_UpsertNodeHeartbeat:
  "preserves (on_tables I) (UpsertNodeHeartbeat e now nid addr cap avail)"
  unfolding UpsertNodeHeartbeat_def
proof (intro preserve_intros preserves_exec_insert preserves_ExecContext)
  fix T x T1
  assume "I T" "Inr (query_upsert_node_heartbeat addr cap avail now nid T) = (Inr (x, T1) :: string + _)"
  then show "I T1"
    using keeps_upsert [of T addr cap avail now nid] by simp
qed (rule keeps_insert_node)

lemmas keeps_node_writes = keeps_RegisterNode keeps_UpdateNodeHeartbeat keeps_UpdateNodeStatus
  keeps_UpsertNodeHeartbeat

end

text \<open>The invariants that one more replica of a chunk keeps as well.\<close>

locale replica_invariant = table_invariant +
  assumes replica_rows:
    "I T \<Longrightarrow> query_insert_chunk_location l T = Inr T1 \<Longrightarrow> I T1"
begin

lemma keeps_AddChunkLocation: "preserves (on_tables I) (AddChunkLocation e cid nid)"
  unfolding AddChunkLocation_def
  by (intro preserve_intros preserves_exec_insert) (rule replica_rows)

lemma keeps_insert_all:
  "insert_all query_insert_chunk_location ls T = Inr T1 \<Longrightarrow> I T \<Longrightarrow> I T1"
  by (induction ls arbitrary: T) (auto split: sum.splits intro: replica_rows)

end

interpretation wf: replica_invariant tables_wf
  by unfold_locales (auto intro: tables_wf_insert_location)

subsection \<open>Every store operation keeps the schema's constraints\<close>

lemma wf_CreateFile: "preserves (on_tables tables_wf) (CreateFile e f)"
  unfolding CreateFile_def by (intro preserve_intros preserves_exec_insert) (rule tables_wf_insert_file)

lemma wf_UpdateFileStatus: "preserves (on_tables tables_wf) (UpdateFileStatus e fid st)"
  unfolding UpdateFileStatus_def
  by (intro preserve_intros preserves_exec_update) (rule tables_wf_update_file)

lemma wf_InsertChunks: "preserves (on_tables tables_wf) (InsertChunks e cs)"
proof (induction cs)
  case (Cons c cs)
  then show ?case
    by (auto intro!: preserve_intros preserves_exec_insert elim: tables_wf_insert_chunk)
qed (simp add: preserve_intros)

lemma wf_InsertChunkLocations: "preserves (on_tables tables_wf) (InsertChunkLocations e ls)"
proof (induction ls)
  case (Cons l ls)
  then show ?case
    by (auto intro!: preserve_intros preserves_exec_insert elim: tables_wf_insert_location)
qed (simp add: preserve_intros)

lemma wf_CreateUploadSession: "preserves (on_tables tables_wf) (CreateUploadSession e u)"
  unfolding CreateUploadSession_def
  by (intro preserve_intros preserves_exec_insert) (rule tables_wf_insert_session)

lemma wf_UpdateUploadSessionStatus:
  "preserves (on_tables tables_wf) (UpdateUploadSessionStatus e sid st)"
  unfolding UpdateUploadSessionStatus_def
  by (intro preserve_intros preserves_exec_update) (rule tables_wf_update_session)

lemmas wf_writes = wf_CreateFile wf_UpdateFileStatus wf_InsertChunks wf_InsertChunkLocations
  wf_CreateUploadSession wf_UpdateUploadSessionStatus wf.keeps_node_writes wf.keeps_AddChunkLocation

subsection \<open>The store as a state machine\<close>

text \<open>
  One call of the \<open>Store\<close> interface that changes the tables. \<open>Tx\<close> is \<open>WithTx\<close> around a
  sequence of calls, which stops at the first error.
\<close>

datatype store_call =
    CallCreateFile file_row
  | CallUpdateFileStatus string string
  | CallInsertChunks "chunk_row list"
  | CallInsertChunkLocations "location_row list"
  | CallAddChunkLocation string string
  | CallRegisterNode node_row
  | CallUpdateNodeHeartbeat string int64
  | CallUpdateNodeStatus string string
  | CallUpsertNodeHeartbeat int64 string string int64 int64
  | CallCreateUploadSession session_row
  | CallUpdateUploadSessionStatus string string
  | Tx "store_call list"

fun run_call :: "engine \<Rightarrow> store_call \<Rightarrow> (conn, go_error, unit) op"
  and run_calls :: "engine \<Rightarrow> store_call list \<Rightarrow> (conn, go_error, unit) op" where
  "run_call e (CallCreateFile f) = CreateFile e f"
| "run_call e (CallUpdateFileStatus fid st) = UpdateFileStatus e fid st"
| "run_call e (CallInsertChunks cs) = InsertChunks e cs"
| "run_call e (CallInsertChunkLocations ls) = InsertChunkLocations e ls"
| "run_call e (CallAddChunkLocation cid nid) = AddChunkLocation e cid nid"
| "run_call e (CallRegisterNode n) = RegisterNode e n"
| "run_call e (CallUpdateNodeHeartbeat nid ts) = UpdateNodeHeartbeat e nid ts"
| "run_call e (CallUpdateNodeStatus nid st) = UpdateNodeStatus e nid st"
| "run_call e (CallUpsertNodeHeartbeat now nid a c v) = UpsertNodeHeartbeat e now nid a c v"
| "run_call e (CallCreateUploadSession u) = CreateUploadSession e u"
| "run_call e (CallUpdateUploadSessionStatus sid st) = UpdateUploadSessionStatus e sid st"
| "run_call e (Tx calls) = WithTx e (run_calls e calls)"
| "run_calls e [] = retR ()"
| "run_calls e (c # cs) = bindR (run_call e c) (\<lambda>_. run_calls e cs)"

lemma run_call_wf:
  "preserves (on_tables tables_wf) (run_call e c)"
  "preserves (on_tables tables_wf) (run_calls e cs)"
proof (induction e c and e cs rule: run_call_run_calls.induct)
  case (12 e calls)
  then show ?case
    by (auto intro!: preserves_WithTx dest: preservesD)
qed (auto intro: wf_writes preserve_intros)

text \<open>Opening a database again gives its tables back, with foreign keys on.\<close>

lemma NewSQLite_tables:
  assumes "NewSQLite e path disk = (Inr u, s)"
  shows "conn_tables s = (run_schema disk)\<lparr>foreign_keys := True\<rparr>"
  using assms
  by (auto simp: NewSQLite_def initPragmas_def bootstrapSchema_def bindR_eq_Inr Let_def dest!: exec_update_InrD split: if_splits)

lemma NewSQLite_wf:
  assumes "NewSQLite e path disk = (Inr u, s)" and "\<And>T. disk = Some T \<Longrightarrow> tables_wf (T\<lparr>foreign_keys := True\<rparr>)"
  shows "on_tables tables_wf s"
  using assms tables_wf_empty NewSQLite_tables [OF assms(1)] by (cases disk) (simp_all add: run_schema_def on_tables_def)

end
