(* ===== verification/Store_Properties.thy ===== *)
theory Store_Properties
  imports Store_Invariants
begin

text \<open>
  The properties of the metadata store: the schema's constraints hold after every sequence of
  calls, transactions are all or nothing, the heartbeat upsert is a map update, and what adding
  a replica twice does.
\<close>

subsection \<open>The constraints of the schema\<close>

text \<open>
  C30. Whatever calls are made on a store opened on a fresh database, in whatever order, with
  whatever driver failures, and whether or not they are grouped in transactions, the tables
  satisfy the schema: unique primary keys, one chunk per file and index, one row per replica, no
  dangling foreign key.
\<close>

theorem store_calls_keep_schema:
  assumes "NewSQLite e path None = (Inr u, s)"
  shows "tables_wf (conn_tables (snd (run_calls e cs s)))"
proof -
  have "on_tables tables_wf s"
    by (rule NewSQLite_wf [OF assms]) simp
  then have "on_tables tables_wf (snd (run_calls e cs s))"
    by (rule preservesD [OF run_call_wf(2)])
  then show ?thesis
    by (simp add: on_tables_def)
qed

lemma NewSQLite_plain:
  "NewSQLite plain_engine ''metad.db'' None =
     (Inr (), \<lparr>conn_tables = empty_tables\<lparr>foreign_keys := True\<rparr>, conn_tick = 5\<rparr>)"
  by (simp add: NewSQLite_def initPragmas_def bootstrapSchema_def run_schema_def run_simps
      empty_tables_def)

theorem store_calls_keep_schema_witness:
  "tables_wf (conn_tables (snd (run_calls plain_engine
     [CallRegisterNode \<lparr>node_id = ''n1'', node_address = ''h:1'', node_capacity = 10,
        node_available = 10, node_status = NodeStatusHealthy, node_heartbeat = 0\<rparr>]
     \<lparr>conn_tables = empty_tables\<lparr>foreign_keys := True\<rparr>, conn_tick = 5\<rparr>)))"
  by (rule store_calls_keep_schema [OF NewSQLite_plain])

subsection \<open>Transactions are all or nothing\<close>

text \<open>
  A transaction that reports an error, for whatever reason (the transaction could not begin,
  its function failed, the rollback or the commit failed), leaves the tables exactly as they were;
  one that reports success leaves exactly what its function wrote, and the function ran on the
  tables that were there when the transaction began. Of a rollback or a commit that failed this
  repeats what \<open>abandon_tx\<close> takes the database to do.
\<close>

lemma WithTx_all_or_nothing:
  "(case WithTx e fn s of
      (Inl err, s1) \<Rightarrow> conn_tables s1 = conn_tables s
    | (Inr u, s1) \<Rightarrow> (\<exists>t t1. conn_tables t = conn_tables s \<and> fn t = (Inr (), t1)
                          \<and> conn_tables s1 = conn_tables t1))"
proof (cases "WithTx e fn s")
  case (Pair r s1)
  then show ?thesis
    by (cases r) (use WithTx_InlD WithTx_InrD in fastforce)+
qed

subsection \<open>Heartbeats as updates of a map\<close>

definition node_map :: "tables \<Rightarrow> string \<Rightarrow> node_row option" where
  "node_map T nid = find (\<lambda>n. node_id n = nid) (t_nodes T)"

lemma find_append: "find P (xs @ ys) = (case find P xs of None \<Rightarrow> find P ys | Some x \<Rightarrow> Some x)"
  by (induction xs) auto

lemma find_map_update:
  assumes "\<And>n. node_id (g n) = node_id n"
  shows "find (\<lambda>n. node_id n = nid) (map (\<lambda>n. if node_id n = k then g n else n) ns) =
     map_option (\<lambda>n. if k = nid then g n else n) (find (\<lambda>n. node_id n = nid) ns)"
  by (induction ns) (auto simp: assms)

lemma find_key: "find (\<lambda>n. node_id n = nid) ns = Some n \<Longrightarrow> node_id n = nid"
  by (induction ns) (auto split: if_splits)

lemma upsert_update_map:
  assumes "query_upsert_node_heartbeat addr cap avail now nid T = (k, T1)"
  shows "k = 0 \<Longrightarrow> T1 = T \<and> node_map T nid = None"
    and "k \<noteq> 0 \<Longrightarrow> node_map T1 = (node_map T)(nid \<mapsto>
      \<lparr>node_id = nid, node_address = addr, node_capacity = cap, node_available = avail,
       node_status = NodeStatusHealthy, node_heartbeat = now\<rparr>)"
    and "T1 = T\<lparr>t_nodes := t_nodes T1\<rparr>"
    and "k \<noteq> 0 \<Longrightarrow> node_map T nid \<noteq> None"
proof -
  let ?g = "\<lambda>n. n\<lparr>node_address := addr, node_capacity := cap, node_available := avail,
              node_heartbeat := now, node_status := NodeStatusHealthy\<rparr>"
  from assms have k: "k = length (filter (\<lambda>n. node_id n = nid) (t_nodes T))"
    and T1: "T1 = T\<lparr>t_nodes := map (\<lambda>n. if node_id n = nid then ?g n else n) (t_nodes T)\<rparr>"
    by (auto simp: query_upsert_node_heartbeat_def)
  then show "T1 = T\<lparr>t_nodes := t_nodes T1\<rparr>"
    by simp
  show "node_map T nid \<noteq> None" if "k \<noteq> 0"
    using that k by (auto simp: node_map_def find_None_iff filter_empty_conv)
  show "T1 = T \<and> node_map T nid = None" if "k = 0"
  proof
    from that k have none: "\<And>n. n \<in> set (t_nodes T) \<Longrightarrow> node_id n \<noteq> nid"
      by (simp add: filter_empty_conv)
    then have "map (\<lambda>n. if node_id n = nid then ?g n else n) (t_nodes T) = t_nodes T"
      by (intro map_idI) simp
    then show "T1 = T"
      by (simp add: T1)
    show "node_map T nid = None"
      using none by (auto simp: node_map_def find_None_iff)
  qed
  show "node_map T1 = (node_map T)(nid \<mapsto>
      \<lparr>node_id = nid, node_address = addr, node_capacity = cap, node_available = avail,
       node_status = NodeStatusHealthy, node_heartbeat = now\<rparr>)" if "k \<noteq> 0"
  proof
    fix m
    from that k have "find (\<lambda>n. node_id n = nid) (t_nodes T) \<noteq> None"
      by (auto simp: find_None_iff filter_empty_conv)
    then obtain n where n: "find (\<lambda>n. node_id n = nid) (t_nodes T) = Some n"
      by blast
    then show "node_map T1 m = ((node_map T)(nid \<mapsto>
      \<lparr>node_id = nid, node_address = addr, node_capacity = cap, node_available = avail,
       node_status = NodeStatusHealthy, node_heartbeat = now\<rparr>)) m"
      using find_key [OF n]
      by (cases n; cases "node_map T m") (auto simp: node_map_def T1 find_map_update)
  qed
qed

lemma insert_node_map:
  assumes "query_insert_node n T = Inr T1"
  shows "node_map T1 = (node_map T)(node_id n \<mapsto> n) \<and> T1 = T\<lparr>t_nodes := t_nodes T1\<rparr>"
proof -
  from assms have "T1 = T\<lparr>t_nodes := t_nodes T @ [n]\<rparr>" "node_id n \<notin> set (map node_id (t_nodes T))"
    by (auto simp: query_insert_node_def split: if_splits)
  moreover from this have "node_map T (node_id n) = None"
    by (simp add: node_map_def find_key_eq_None)
  ultimately show ?thesis
    by (auto simp: node_map_def find_append fun_eq_iff split: option.splits)
qed

definition heartbeat_written :: "node_row \<Rightarrow> tables \<Rightarrow> tables \<Rightarrow> bool" where
  "heartbeat_written n T T1 \<longleftrightarrow> node_map T1 = (node_map T)(node_id n \<mapsto> n) \<and> T1 = T\<lparr>t_nodes := t_nodes T1\<rparr>"

text \<open>
  An error leaves the tables alone, except one: when the number of updated rows could not be learnt
  and the node was known, its row has been updated.
\<close>

lemma UpsertNodeHeartbeat_map:
  "case UpsertNodeHeartbeat e now nid addr cap avail s of
     (Inl err, s1) \<Rightarrow> conn_tables s1 = conn_tables s
       \<or> (\<exists>d. err = errorf_w ''failed to get rows affected'' d) \<and> node_map (conn_tables s) nid \<noteq> None
         \<and> heartbeat_written \<lparr>node_id = nid, node_address = addr, node_capacity = cap, node_available = avail,
              node_status = NodeStatusHealthy, node_heartbeat = now\<rparr> (conn_tables s) (conn_tables s1)
   | (Inr u, s1) \<Rightarrow>
       heartbeat_written \<lparr>node_id = nid, node_address = addr, node_capacity = cap, node_available = avail,
          node_status = NodeStatusHealthy, node_heartbeat = now\<rparr> (conn_tables s) (conn_tables s1)"
proof (cases "UpsertNodeHeartbeat e now nid addr cap avail s")
  case (Pair r s3)
  let ?row = "\<lparr>node_id = nid, node_address = addr, node_capacity = cap, node_available = avail,
     node_status = NodeStatusHealthy, node_heartbeat = now\<rparr>"
  obtain q s1 where upd: "ExecContext e (\<lambda>T. Inr (query_upsert_node_heartbeat addr cap avail now nid T)) s
     = (q, s1)"
    by (cases "ExecContext e (\<lambda>T. Inr (query_upsert_node_heartbeat addr cap avail now nid T)) s")
  show ?thesis
  proof (cases q)
    case (Inl d)
    with upd Pair show ?thesis
      by (auto simp: UpsertNodeHeartbeat_def bindR_def mapErrR_def dest: ExecContext_InlD)
  next
    case (Inr k)
    then have q: "query_upsert_node_heartbeat addr cap avail now nid (conn_tables s)
        = (k, conn_tables s1)"
      using upd ExecContext_InrD by fastforce
    have written: "k \<noteq> 0 \<Longrightarrow> heartbeat_written ?row (conn_tables s) (conn_tables s1)"
      and known: "k \<noteq> 0 \<Longrightarrow> node_map (conn_tables s) nid \<noteq> None" and same: "k = 0 \<Longrightarrow> conn_tables s1 = conn_tables s"
      using upsert_update_map [OF q] by (simp_all add: heartbeat_written_def)
    obtain p s2 where rows: "RowsAffected e k s1 = (p, s2)"
      by (cases "RowsAffected e k s1")
    then have s2: "conn_tables s2 = conn_tables s1"
      by (metis RowsAffected_tables snd_conv)
    show ?thesis
    proof (cases p)
      case (Inl d)
      then have "r = Inl (errorf_w ''failed to get rows affected'' d)" "s3 = s2"
        using Inr upd rows Pair by (auto simp: UpsertNodeHeartbeat_def bindR_def mapErrR_def)
      with Pair s2 written known same show ?thesis
        by (cases "k = 0") auto
    next
      case p: (Inr n)
      then have n: "n = k"
        using rows by (auto dest: RowsAffected_InrD)
      show ?thesis
      proof (cases "k = 0")
        case False
        with Inr upd rows p n Pair have "r = Inr ()" "s3 = s2"
          by (auto simp: UpsertNodeHeartbeat_def bindR_def mapErrR_def)
        with Pair s2 written False show ?thesis
          by simp
      next
        case True
        with Inr upd rows p n Pair
        have ins: "mapErrR (errorf_w ''failed to insert node'') (exec_insert e (query_insert_node ?row)) s2 = (r, s3)"
          by (simp add: UpsertNodeHeartbeat_def bindR_def mapErrR_def)
        show ?thesis
        proof (cases r)
          case Inl
          with ins have "conn_tables s3 = conn_tables s2"
            by (auto simp: mapErrR_eq_Inl dest: exec_insert_InlD)
          with Inl Pair s2 same True show ?thesis
            by simp
        next
          case (Inr u)
          with ins have "query_insert_node ?row (conn_tables s2) = Inr (conn_tables s3)"
            by (auto dest: exec_insert_InrD)
          from insert_node_map [OF this] Inr Pair s2 same True show ?thesis
            by (simp add: heartbeat_written_def)
        qed
      qed
    qed
  qed
qed

text \<open>
  C31. \<open>UpsertNodeHeartbeat\<close> refines a map update: when it succeeds, the node it names has
  exactly the reported address, capacity and free space, the current time as its last heartbeat
  and the status healthy, whether it was known before or not and whatever its status was, and
  every other node and every other table is unchanged. When it fails, no table has changed, or the
  node was known, its update has been written in full and only the number of updated rows could
  not be learnt; the error then says so.
\<close>

theorem UpsertNodeHeartbeat_refines:
  "case UpsertNodeHeartbeat e now nid addr cap avail s of
     (Inl err, s1) \<Rightarrow> conn_tables s1 = conn_tables s
       \<or> (\<exists>d. err = errorf_w ''failed to get rows affected'' d) \<and> node_map (conn_tables s) nid \<noteq> None
         \<and> heartbeat_written \<lparr>node_id = nid, node_address = addr, node_capacity = cap, node_available = avail,
              node_status = NodeStatusHealthy, node_heartbeat = now\<rparr> (conn_tables s) (conn_tables s1)
   | (Inr u, s1) \<Rightarrow>
       heartbeat_written \<lparr>node_id = nid, node_address = addr, node_capacity = cap, node_available = avail,
          node_status = NodeStatusHealthy, node_heartbeat = now\<rparr> (conn_tables s) (conn_tables s1)"
  by (rule UpsertNodeHeartbeat_map)

text \<open>
  Only the database can make a heartbeat fail: with a driver that reports no failure every heartbeat
  is written.
\<close>

lemma UpsertNodeHeartbeat_ok:
  assumes "no_faults e"
  shows "\<exists>s1. UpsertNodeHeartbeat e now nid addr cap avail s = (Inr (), s1)"
proof -
  let ?row = "\<lparr>node_id = nid, node_address = addr, node_capacity = cap, node_available = avail,
     node_status = NodeStatusHealthy, node_heartbeat = now\<rparr>"
  obtain k T1 where q: "query_upsert_node_heartbeat addr cap avail now nid (conn_tables s) = (k, T1)"
    by (cases "query_upsert_node_heartbeat addr cap avail now nid (conn_tables s)")
  have ins: "\<exists>T2. query_insert_node ?row T1 = Inr T2" if "k = 0"
  proof -
    have "find (\<lambda>n. node_id n = nid) (t_nodes T1) = None"
      using upsert_update_map(1) [OF q that] by (simp add: node_map_def)
    then show ?thesis
      by (auto simp: query_insert_node_def find_None_iff)
  qed
  show ?thesis
  proof (cases "k = 0")
    case True
    with ins obtain T2 where "query_insert_node ?row T1 = Inr T2"
      by blast
    with True assms q show ?thesis
      by (simp add: UpsertNodeHeartbeat_def bindR_def mapErrR_def RowsAffected_def ExecContext_def no_faults_def
          exec_insert_def Let_def)
  next
    case False
    with assms q show ?thesis
      by (simp add: UpsertNodeHeartbeat_def bindR_def mapErrR_def RowsAffected_def ExecContext_def no_faults_def Let_def)
  qed
qed

subsection \<open>Adding a replica twice\<close>

text \<open>
  \<open>AddChunkLocation\<close> is announced as an idempotent insert that ignores a row that already
  exists. It is a plain \<open>INSERT\<close>: once a replica is recorded, adding it again is refused with the
  error of the primary key, and the tables do not change.
\<close>

lemma AddChunkLocation_twice:
  assumes "no_faults e" "AddChunkLocation e cid nid s = (Inr (), s1)"
  shows "AddChunkLocation e cid nid s1 =
    (Inl (errorf_w ''failed to add chunk location''
       (PlainErr ''UNIQUE constraint failed: chunk_locations.chunk_id, chunk_locations.node_id'')),
     s1\<lparr>conn_tick := Suc (conn_tick s1)\<rparr>)"
proof -
  let ?l = "\<lparr>loc_chunk = cid, loc_node = nid\<rparr>"
  have "query_insert_chunk_location ?l (conn_tables s) = Inr (conn_tables s1)"
    using assms(2) by (rule AddChunkLocation_InrD)
  then have "conn_tables s1 = (conn_tables s)\<lparr>t_locations := t_locations (conn_tables s) @ [?l]\<rparr>"
    by (auto simp: query_insert_chunk_location_def split: if_splits)
  then have "?l \<in> set (t_locations (conn_tables s1))"
    by simp
  then have "query_insert_chunk_location ?l (conn_tables s1) =
      Inl ''UNIQUE constraint failed: chunk_locations.chunk_id, chunk_locations.node_id''"
    by (simp add: query_insert_chunk_location_def)
  with assms(1) show ?thesis
    by (simp add: AddChunkLocation_def mapErrR_def exec_insert_refused)
qed

definition replica_example :: conn where
  "replica_example = \<lparr>conn_tables = \<lparr>foreign_keys = True,
     t_files = [\<lparr>file_id = ''f'', file_name = ''a'', file_size = 5,
                 file_status = FileStatusCommitted, file_created = 1\<rparr>],
     t_chunks = [\<lparr>chunk_id = ''c'', chunk_file = ''f'', chunk_index = 0, chunk_size = 5\<rparr>],
     t_locations = [], t_nodes = [], t_sessions = []\<rparr>, conn_tick = 0\<rparr>"

end
