(* ===== verification/Metad_State.thy ===== *)
theory Metad_State
  imports Store_Invariants
begin

text \<open>
  The state of the metadata daemon: its connection to the database and its Prometheus metrics
  (\<open>internal/metadata/metrics/metrics.go\<close>, and the cluster gauges of
  \<open>internal/metrics/server_metrics.go\<close> that \<open>internal/metadata/metrics_updater.go\<close> refreshes). A
  counter is a natural number; a gauge holds the integer the code converts to a float.
\<close>

record metad_metrics =
  heartbeatsTotal :: nat
  repairAttemptsTotal :: nat
  repairFailuresTotal :: nat
  repairSuccessTotal :: nat
  healthyNodes :: nat
  ClusterTotalNodes :: nat
  ClusterHealthyNodes :: nat
  ClusterTotalChunks :: nat
  ClusterTotalReplicas :: nat

record metad =
  md_conn :: conn
  md_metrics :: metad_metrics

definition zero_metrics :: metad_metrics where
  "zero_metrics = \<lparr>heartbeatsTotal = 0, repairAttemptsTotal = 0, repairFailuresTotal = 0,
     repairSuccessTotal = 0, healthyNodes = 0, ClusterTotalNodes = 0, ClusterHealthyNodes = 0,
     ClusterTotalChunks = 0, ClusterTotalReplicas = 0\<rparr>"

definition IncHeartbeats :: "metad_metrics \<Rightarrow> metad_metrics" where
  "IncHeartbeats m = m\<lparr>heartbeatsTotal := Suc (heartbeatsTotal m)\<rparr>"

definition IncRepairAttempts :: "metad_metrics \<Rightarrow> metad_metrics" where
  "IncRepairAttempts m = m\<lparr>repairAttemptsTotal := Suc (repairAttemptsTotal m)\<rparr>"

definition IncRepairFailures :: "metad_metrics \<Rightarrow> metad_metrics" where
  "IncRepairFailures m = m\<lparr>repairFailuresTotal := Suc (repairFailuresTotal m)\<rparr>"

definition IncRepairSuccess :: "metad_metrics \<Rightarrow> metad_metrics" where
  "IncRepairSuccess m = m\<lparr>repairSuccessTotal := Suc (repairSuccessTotal m)\<rparr>"

definition SetHealthyNodes :: "nat \<Rightarrow> metad_metrics \<Rightarrow> metad_metrics" where
  "SetHealthyNodes n m = m\<lparr>healthyNodes := n\<rparr>"

lemmas metrics_defs = IncHeartbeats_def IncRepairAttempts_def IncRepairFailures_def
  IncRepairSuccess_def SetHealthyNodes_def

abbreviation md_tables :: "metad \<Rightarrow> tables" where
  "md_tables s \<equiv> conn_tables (md_conn s)"

text \<open>A store operation run by the daemon.\<close>

definition on_conn :: "(conn, go_error, 'a) op \<Rightarrow> (metad, go_error, 'a) op" where
  "on_conn m s = (let (r, c) = m (md_conn s) in (r, s\<lparr>md_conn := c\<rparr>))"

definition with_metrics :: "(metad_metrics \<Rightarrow> metad_metrics) \<Rightarrow> metad \<Rightarrow> metad" where
  "with_metrics g s = s\<lparr>md_metrics := g (md_metrics s)\<rparr>"

definition on_metad :: "(tables \<Rightarrow> bool) \<Rightarrow> metad \<Rightarrow> bool" where
  "on_metad I s \<longleftrightarrow> I (md_tables s)"

lemma fst_on_conn [simp]: "fst (on_conn m s) = fst (m (md_conn s))"
  by (simp add: on_conn_def split: prod.splits)

lemma snd_on_conn [simp]: "snd (on_conn m s) = s\<lparr>md_conn := snd (m (md_conn s))\<rparr>"
  by (simp add: on_conn_def split: prod.splits)

lemma on_conn_eq: "on_conn m s = (r, s1) \<longleftrightarrow> (\<exists>c. m (md_conn s) = (r, c) \<and> s1 = s\<lparr>md_conn := c\<rparr>)"
  by (auto simp: on_conn_def split: prod.splits)

lemma md_conn_with_metrics [simp]: "md_conn (with_metrics g s) = md_conn s"
  by (simp add: with_metrics_def)

lemma preserves_on_conn [preserve_intros]:
  "preserves (on_tables I) m \<Longrightarrow> preserves (on_metad I) (on_conn m)"
  by (simp add: preserves_def on_metad_def on_tables_def)

subsection \<open>The metrics updater\<close>

text \<open>
  \<open>MetricsUpdater.Start\<close> runs \<open>update\<close> once and then on every tick: four counts, each of which
  sets its gauge only when the count did not fail.
\<close>

definition set_gauge ::
  "(conn, go_error, nat) op \<Rightarrow> (nat \<Rightarrow> metad_metrics \<Rightarrow> metad_metrics) \<Rightarrow> metad \<Rightarrow> metad" where
  "set_gauge m g s =
     (case on_conn m s of (Inl err, s1) \<Rightarrow> s1 | (Inr n, s1) \<Rightarrow> with_metrics (g n) s1)"

definition update_metrics :: "engine \<Rightarrow> metad \<Rightarrow> metad" where
  "update_metrics e s =
     (let s1 = set_gauge (CountTotalNodes e) (\<lambda>n m. m\<lparr>ClusterTotalNodes := n\<rparr>) s;
          s2 = set_gauge (CountHealthyNodes e) (\<lambda>n m. m\<lparr>ClusterHealthyNodes := n\<rparr>) s1;
          s3 = set_gauge (CountTotalChunks e) (\<lambda>n m. m\<lparr>ClusterTotalChunks := n\<rparr>) s2
      in set_gauge (CountTotalReplicas e) (\<lambda>n m. m\<lparr>ClusterTotalReplicas := n\<rparr>) s3)"

lemma set_gauge_tables:
  "(\<And>c. conn_tables (snd (m c)) = conn_tables c) \<Longrightarrow> md_tables (set_gauge m g s) = md_tables s"
  by (auto simp: set_gauge_def on_conn_def split: prod.splits sum.splits) (metis snd_conv)+

lemma update_metrics_tables [simp]: "md_tables (update_metrics e s) = md_tables s"
  by (simp add: update_metrics_def Let_def set_gauge_tables)

lemma update_metrics_gauges:
  assumes "no_faults e"
  shows "ClusterTotalNodes (md_metrics (update_metrics e s)) = length (t_nodes (md_tables s))"
    "ClusterHealthyNodes (md_metrics (update_metrics e s)) =
       length (filter (\<lambda>n. node_status n = NodeStatusHealthy) (t_nodes (md_tables s)))"
    "ClusterTotalChunks (md_metrics (update_metrics e s)) = length (t_chunks (md_tables s))"
    "ClusterTotalReplicas (md_metrics (update_metrics e s)) = length (t_locations (md_tables s))"
  using assms
  by (simp_all add: update_metrics_def set_gauge_def on_conn_def with_metrics_def store_op_defs
      mapErrR_def QueryRow_ok query_count_total_nodes_def query_count_healthy_nodes_def
      query_count_total_chunks_def query_count_total_replicas_def)

end
