(* ===== verification/Registry.thy ===== *)
theory Registry
  imports Metad_State
begin

text \<open>
  \<open>internal/metadata/registry/registry.go\<close>: registration, heartbeats, health checks and the
  monitor that marks nodes down and up. The clock is a parameter: \<open>now\<close> is the reading of
  \<open>time.Now()\<close> in nanoseconds since the Unix epoch. \<open>failureTimeout\<close> is the manager's
  \<open>time.Duration\<close>, in nanoseconds.
\<close>

definition unix_seconds :: "int \<Rightarrow> int64" where
  "unix_seconds now = word_of_int (now div second)"

subsection \<open>Operations\<close>

definition registry_RegisterNode ::
  "engine \<Rightarrow> int \<Rightarrow> string \<Rightarrow> string \<Rightarrow> int64 \<Rightarrow> (conn, go_error, unit) op" where
  "registry_RegisterNode e now nodeID address capacityBytes =
     (if nodeID = [] then failR (PlainErr ''nodeID cannot be empty'')
      else RegisterNode e
        \<lparr>node_id = nodeID, node_address = address, node_capacity = capacityBytes,
         node_available = capacityBytes, node_status = NodeStatusHealthy,
         node_heartbeat = unix_seconds now\<rparr>)"

definition registry_Heartbeat ::
  "engine \<Rightarrow> int \<Rightarrow> string \<Rightarrow> string \<Rightarrow> int64 \<Rightarrow> int64 \<Rightarrow> (conn, go_error, unit) op" where
  "registry_Heartbeat e now nodeID address capacityBytes availableBytes =
     (if nodeID = [] then failR (PlainErr ''nodeID cannot be empty'')
      else UpsertNodeHeartbeat e (unix_seconds now) nodeID address capacityBytes availableBytes)"

definition registry_ListHealthyNodes :: "engine \<Rightarrow> (conn, go_error, node_row list) op" where
  "registry_ListHealthyNodes e = ListHealthyNodes e"

definition IsNodeHealthy :: "engine \<Rightarrow> string \<Rightarrow> (conn, go_error, bool) op" where
  "IsNodeHealthy e nodeID =
     (if nodeID = [] then failR (PlainErr ''nodeID cannot be empty'')
      else bindR (ListHealthyNodes e) (\<lambda>nodes. retR (list_ex (\<lambda>n. node_id n = nodeID) nodes)))"

text \<open>
  \<open>now.Sub(last) > m.failureTimeout\<close>: the difference of two times saturates at the ends of the
  64-bit duration range.
\<close>

definition Sub_duration :: "int \<Rightarrow> int \<Rightarrow> int" where
  "Sub_duration t u = max (- (2 ^ 63)) (min (2 ^ 63 - 1) (t - u))"

definition stale :: "int64 \<Rightarrow> int \<Rightarrow> node_row \<Rightarrow> bool" where
  "stale failureTimeout now n \<longleftrightarrow>
     Sub_duration now (sint (node_heartbeat n) * second) > sint failureTimeout"

text \<open>The loop of \<open>monitorOnce\<close>; the errors of the two updates are dropped.\<close>

fun monitor_loop :: "engine \<Rightarrow> int64 \<Rightarrow> int \<Rightarrow> node_row list \<Rightarrow> conn \<Rightarrow> conn" where
  "monitor_loop e failureTimeout now [] s = s"
| "monitor_loop e failureTimeout now (n # ns) s =
     (let st = stale failureTimeout now n;
          s1 = (if st \<and> node_status n = NodeStatusHealthy
                then snd (UpdateNodeStatus e (node_id n) NodeStatusDown s) else s);
          s2 = (if \<not> st \<and> node_status n = NodeStatusDown
                then snd (UpdateNodeStatus e (node_id n) NodeStatusHealthy s1) else s1)
      in monitor_loop e failureTimeout now ns s2)"

definition monitorOnce :: "engine \<Rightarrow> int64 \<Rightarrow> int \<Rightarrow> metad \<Rightarrow> metad" where
  "monitorOnce e failureTimeout now s =
     (case on_conn (ListAllNodes e) s of
        (Inl err, s1) \<Rightarrow> s1
      | (Inr nodes, s1) \<Rightarrow>
          (let s2 = s1\<lparr>md_conn := monitor_loop e failureTimeout now nodes (md_conn s1)\<rparr>
           in case on_conn (ListHealthyNodes e) s2 of
                (Inl err, s3) \<Rightarrow> s3
              | (Inr healthy, s3) \<Rightarrow> with_metrics (SetHealthyNodes (length healthy)) s3))"

subsection \<open>The registry keeps every invariant that leaves the node table free\<close>

text \<open>A monitor cycle writes nothing but node statuses.\<close>

lemma monitor_loop_keeps:
  assumes "\<And>nid st. preserves (on_tables I) (UpdateNodeStatus e nid st)"
  shows "on_tables I s \<Longrightarrow> on_tables I (monitor_loop e t now ns s)"
proof (induction ns arbitrary: s)
  case (Cons n ns)
  then show ?case
    using assms [THEN preservesD] by (simp add: Let_def)
qed simp

lemma monitorOnce_keeps:
  assumes "\<And>nid st. preserves (on_tables I) (UpdateNodeStatus e nid st)" "on_metad I s"
  shows "on_metad I (monitorOnce e t now s)"
  using monitor_loop_keeps [OF assms(1)] assms(2)
  by (auto simp: monitorOnce_def on_conn_def on_metad_def on_tables_def Let_def
      split: prod.splits sum.splits) (metis read_tables(7,8) snd_conv)+

context table_invariant
begin

lemma keeps_registry_RegisterNode:
  "preserves (on_tables I) (registry_RegisterNode e now nid addr cap)"
  unfolding registry_RegisterNode_def by (intro preserve_intros keeps_RegisterNode)

lemma keeps_registry_Heartbeat:
  "preserves (on_tables I) (registry_Heartbeat e now nid addr cap avail)"
  unfolding registry_Heartbeat_def by (intro preserve_intros keeps_UpsertNodeHeartbeat)

lemma keeps_IsNodeHealthy: "preserves (on_tables I) (IsNodeHealthy e nid)"
  unfolding IsNodeHealthy_def by (intro preserve_intros)

lemma keeps_monitorOnce: "on_metad I s \<Longrightarrow> on_metad I (monitorOnce e t now s)"
  by (rule monitorOnce_keeps [OF keeps_UpdateNodeStatus])

end

end
