(* ===== verification/Registry_Properties.thy ===== *)
theory Registry_Properties
  imports Registry Store_Properties
begin

text \<open>
  The properties of the registry: what one monitor cycle does to the node table, with and without
  driver failures, and when a node counts as healthy.
\<close>

subsection \<open>One monitor cycle\<close>

text \<open>The status a monitor cycle gives a node.\<close>

definition monitored_status :: "int64 \<Rightarrow> int \<Rightarrow> node_row \<Rightarrow> string" where
  "monitored_status failureTimeout now n =
     (if stale failureTimeout now n \<and> node_status n = NodeStatusHealthy then NodeStatusDown
      else if \<not> stale failureTimeout now n \<and> node_status n = NodeStatusDown then NodeStatusHealthy
      else node_status n)"

abbreviation monitored :: "int64 \<Rightarrow> int \<Rightarrow> node_row \<Rightarrow> node_row" where
  "monitored t now n \<equiv> n\<lparr>node_status := monitored_status t now n\<rparr>"

lemma stale_status [simp]: "stale t now (n\<lparr>node_status := st\<rparr>) = stale t now n"
  by (simp add: stale_def)

lemma monitored_idem [simp]: "monitored t now (monitored t now n) = monitored t now n"
  by (simp add: monitored_status_def)

lemma monitored_same: "monitored_status t now n = node_status n \<Longrightarrow> monitored t now n = n"
  by simp

text \<open>The two guarded updates of the loop are at most one update, to the monitored status.\<close>

lemma monitor_loop_Cons:
  "monitor_loop e t now (n # ns) s =
     monitor_loop e t now ns
       (if monitored_status t now n = node_status n then s
        else snd (UpdateNodeStatus e (node_id n) (monitored_status t now n) s))"
  by (simp add: monitored_status_def)

lemma UpdateNodeStatus_tables:
  "conn_tables (snd (UpdateNodeStatus e nid st s)) = conn_tables s
   \<or> conn_tables (snd (UpdateNodeStatus e nid st s)) = query_update_node_status st nid (conn_tables s)"
proof (cases "UpdateNodeStatus e nid st s")
  case (Pair r s1)
  then show ?thesis
    by (cases r) (auto simp: UpdateNodeStatus_def mapErrR_eq_Inl dest: exec_update_InlD exec_update_InrD)
qed

lemma UpdateNodeStatus_ok:
  "no_faults e \<Longrightarrow>
     conn_tables (snd (UpdateNodeStatus e nid st s)) = query_update_node_status st nid (conn_tables s)"
  by (simp add: UpdateNodeStatus_def exec_update_ok)

text \<open>Without faults, processing the rows \<open>ns\<close> gives exactly those rows their new status.\<close>

lemma monitor_loop_exact:
  assumes "no_faults e" "distinct (map node_id (t_nodes T0))" "set ns \<subseteq> set (t_nodes T0)"
    and "conn_tables s = T0\<lparr>t_nodes := map (\<lambda>m. if m \<in> A then monitored t now m else m) (t_nodes T0)\<rparr>"
  shows "conn_tables (monitor_loop e t now ns s) =
    T0\<lparr>t_nodes := map (\<lambda>m. if m \<in> A \<union> set ns then monitored t now m else m) (t_nodes T0)\<rparr>"
  using assms(3,4)
proof (induction ns arbitrary: s A)
  case (Cons n ns)
  have n: "n \<in> set (t_nodes T0)"
    using Cons.prems(1) by simp
  have id_eq: "\<And>m. m \<in> set (t_nodes T0) \<Longrightarrow> node_id m = node_id n \<longleftrightarrow> m = n"
    using distinct_map_inj_on_set [OF assms(2) _ n] by blast
  let ?s1 = "if monitored_status t now n = node_status n then s
             else snd (UpdateNodeStatus e (node_id n) (monitored_status t now n) s)"
  have "conn_tables ?s1 =
      T0\<lparr>t_nodes := map (\<lambda>m. if m \<in> insert n A then monitored t now m else m) (t_nodes T0)\<rparr>"
    using Cons.prems(2) id_eq
    by (auto simp: UpdateNodeStatus_ok [OF assms(1)] query_update_node_status_def)
  from Cons.IH [OF _ this] Cons.prems(1) show ?case
    by (simp only: monitor_loop_Cons) simp
qed simp

text \<open>
  Whatever fails, and however many rows were read, every row is left as it is or given its
  monitored status.
\<close>

lemma monitor_loop_partial:
  assumes "distinct (map node_id ns0)" "set ns \<subseteq> set ns0"
    and "list_all2 (\<lambda>n n'. n' = n \<or> n' = monitored t now n) ns0 (t_nodes (conn_tables s))"
  shows "list_all2 (\<lambda>n n'. n' = n \<or> n' = monitored t now n) ns0
           (t_nodes (conn_tables (monitor_loop e t now ns s)))"
  using assms(2,3)
proof (induction ns arbitrary: s)
  case (Cons n ns)
  let ?P = "\<lambda>n n'. n' = n \<or> n' = monitored t now n"
  let ?s1 = "if monitored_status t now n = node_status n then s
             else snd (UpdateNodeStatus e (node_id n) (monitored_status t now n) s)"
  let ?st = "monitored_status t now n"
  have n: "n \<in> set ns0"
    using Cons.prems(1) by simp
  have step: "?P m0 (if node_id m = node_id n then m\<lparr>node_status := ?st\<rparr> else m)"
    if "?P m0 m" "m0 \<in> set ns0" for m0 m
  proof (cases "node_id m = node_id n")
    case True
    with that have "m0 = n"
      using distinct_map_inj_on_set [OF assms(1) _ n] by auto
    with that True show ?thesis
      by auto
  qed (use that in auto)
  have "list_all2 (\<lambda>m0 m. ?P m0 (if node_id m = node_id n then m\<lparr>node_status := ?st\<rparr> else m))
      ns0 (t_nodes (conn_tables s))"
    by (rule list.rel_mono_strong [OF Cons.prems(2)]) (rule step)
  then have "list_all2 ?P ns0 (t_nodes (query_update_node_status ?st (node_id n) (conn_tables s)))"
    by (simp add: query_update_node_status_def list.rel_map)
  then have "list_all2 ?P ns0 (t_nodes (conn_tables ?s1))"
    using Cons.prems(2) UpdateNodeStatus_tables [of e "node_id n" ?st s] by auto
  with Cons.IH Cons.prems(1) show ?case
    by (simp only: monitor_loop_Cons) simp
qed simp

lemma monitorOnce_conn:
  "md_tables (monitorOnce e t now s) =
     (case ListAllNodes e (md_conn s) of
        (Inl err, c) \<Rightarrow> md_tables s
      | (Inr nodes, c) \<Rightarrow> conn_tables (monitor_loop e t now nodes c))"
proof (cases "ListAllNodes e (md_conn s)")
  case (Pair r c)
  then have c: "conn_tables c = md_tables s"
    by (metis read_tables(8) snd_conv)
  show ?thesis
  proof (cases r)
    case (Inl err)
    with Pair c show ?thesis
      by (simp add: monitorOnce_def on_conn_def)
  next
    case (Inr nodes)
    let ?c2 = "monitor_loop e t now nodes c"
    obtain r3 c3 where "ListHealthyNodes e ?c2 = (r3, c3)"
      by (cases "ListHealthyNodes e ?c2")
    moreover from this have "conn_tables c3 = conn_tables ?c2"
      by (metis read_tables(7) snd_conv)
    ultimately show ?thesis
      using Pair Inr by (cases r3) (simp_all add: monitorOnce_def on_conn_def)
  qed
qed

lemma monitorOnce_tables:
  assumes "no_faults e" "complete_scans e" "tables_wf (md_tables s)"
  shows "md_tables (monitorOnce e failureTimeout now s) = (md_tables s)
    \<lparr>t_nodes := map (\<lambda>n. n\<lparr>node_status := monitored_status failureTimeout now n\<rparr>) (t_nodes (md_tables s))\<rparr>"
proof -
  let ?T = "md_tables s"
  obtain p c where list: "ListAllNodes e (md_conn s) = (Inr (reorder p (t_nodes ?T)), c)"
    and c: "conn_tables c = ?T"
    using assms(1,2) by (simp add: ListAllNodes_def mapErrR_def Query_ok query_select_all_nodes_def)
  have "conn_tables (monitor_loop e failureTimeout now (reorder p (t_nodes ?T)) c) =
     ?T\<lparr>t_nodes := map (\<lambda>m. if m \<in> {} \<union> set (reorder p (t_nodes ?T)) then monitored failureTimeout now m else m)
          (t_nodes ?T)\<rparr>"
    using assms(3) by (intro monitor_loop_exact [OF assms(1)]) (auto simp: tables_wf_def c)
  then show ?thesis
    by (simp add: monitorOnce_conn list cong: map_cong)
qed

definition monitor_example :: metad where
  "monitor_example = \<lparr>md_conn = \<lparr>conn_tables = empty_tables\<lparr>foreign_keys := True, t_nodes :=
     [\<lparr>node_id = ''n1'', node_address = ''h:1'', node_capacity = 10, node_available = 10,
       node_status = NodeStatusHealthy, node_heartbeat = 100\<rparr>,
      \<lparr>node_id = ''n2'', node_address = ''h:2'', node_capacity = 10, node_available = 10,
       node_status = NodeStatusDown, node_heartbeat = 115\<rparr>]\<rparr>, conn_tick = 0\<rparr>,
     md_metrics = zero_metrics\<rparr>"

lemma monitor_example_wf: "tables_wf (md_tables monitor_example)"
  by (simp add: monitor_example_def tables_wf_def empty_tables_def)

text \<open>
  C28. Whatever fails during a monitor cycle, and even when the driver delivers only some of the
  rows, no node is marked down while its heartbeat is fresh and none is marked healthy while it is
  stale: every row is unchanged or has exactly its monitored status.
\<close>

theorem monitorOnce_safe:
  assumes "tables_wf (md_tables s)"
  shows "list_all2 (\<lambda>n n'. n' = n \<or> n' = n\<lparr>node_status := monitored_status failureTimeout now n\<rparr>)
    (t_nodes (md_tables s)) (t_nodes (md_tables (monitorOnce e failureTimeout now s)))"
proof -
  let ?P = "\<lambda>n n'. n' = n \<or> n' = n\<lparr>node_status := monitored_status failureTimeout now n\<rparr>"
  have refl: "list_all2 ?P ns ns" for ns
    by (rule list_all2_refl) simp
  show ?thesis
  proof (cases "ListAllNodes e (md_conn s)")
    case (Pair r c)
    then have c: "conn_tables c = md_tables s"
      by (metis read_tables(8) snd_conv)
    show ?thesis
    proof (cases r)
      case (Inl err)
      with Pair refl show ?thesis
        by (simp add: monitorOnce_conn)
    next
      case (Inr nodes)
      with Pair have "set nodes \<subseteq> set (t_nodes (md_tables s))"
        by (auto simp: ListAllNodes_def query_select_all_nodes_def dest!: Query_InrD(2) in_set_takeD)
      then have "list_all2 ?P (t_nodes (md_tables s))
          (t_nodes (conn_tables (monitor_loop e failureTimeout now nodes c)))"
        using assms refl by (intro monitor_loop_partial) (auto simp: tables_wf_def c)
      with Pair Inr show ?thesis
        by (simp add: monitorOnce_conn)
    qed
  qed
qed

theorem monitorOnce_safe_witness:
  "list_all2 (\<lambda>n n'. n' = n \<or> n' = n\<lparr>node_status := monitored_status 10000000000 120000000000 n\<rparr>)
    (t_nodes (md_tables monitor_example))
    (t_nodes (md_tables (monitorOnce plain_engine 10000000000 120000000000 monitor_example)))"
  by (rule monitorOnce_safe [OF monitor_example_wf])

subsection \<open>Liveness of a node\<close>

definition healthy_node :: "tables \<Rightarrow> string \<Rightarrow> bool" where
  "healthy_node T nid \<longleftrightarrow> (\<exists>n \<in> set (t_nodes T). node_id n = nid \<and> node_status n = NodeStatusHealthy)"

lemma ListHealthyNodes_ok:
  assumes "no_faults e" "complete_scans e"
  shows "\<exists>p c. ListHealthyNodes e s = (Inr (query_select_healthy_nodes p (conn_tables s)), c)
           \<and> conn_tables c = conn_tables s"
  using assms by (auto simp: ListHealthyNodes_def mapErrR_def Query_ok)

lemma IsNodeHealthy_ok:
  assumes "no_faults e" "complete_scans e" "nid \<noteq> []"
  shows "\<exists>c. IsNodeHealthy e nid s = (Inr (healthy_node (conn_tables s) nid), c)
           \<and> conn_tables c = conn_tables s"
proof -
  obtain p c where "ListHealthyNodes e s = (Inr (query_select_healthy_nodes p (conn_tables s)), c)"
    "conn_tables c = conn_tables s"
    using ListHealthyNodes_ok [OF assms(1,2), of s] by blast
  with assms(3) show ?thesis
    by (auto simp: IsNodeHealthy_def bindR_def list_ex_iff healthy_node_def)
qed

text \<open>A node reported healthy is healthy, even when rows are missing from the answer.\<close>

lemma IsNodeHealthy_sound:
  assumes "IsNodeHealthy e nid s = (Inr True, s1)"
  shows "healthy_node (conn_tables s) nid"
  using assms
  by (auto simp: IsNodeHealthy_def bindR_eq_Inr list_ex_iff healthy_node_def split: if_splits
      dest!: ListHealthyNodes_InrD in_set_takeD)

lemma IsNodeHealthy_tables: "conn_tables (snd (IsNodeHealthy e nid s)) = conn_tables s"
proof (cases "ListHealthyNodes e s")
  case (Pair r c)
  then have "conn_tables c = conn_tables s"
    by (metis read_tables(7) snd_conv)
  with Pair show ?thesis
    by (cases r) (simp_all add: IsNodeHealthy_def bindR_def)
qed

text \<open>
  The heartbeat is stored in whole seconds, so at a later time \<open>now1\<close> the monitor sees an age that
  is the real one plus the fraction of a second that was cut off.
\<close>

lemma stale_iff:
  assumes "node_heartbeat n = unix_seconds now" "0 \<le> now" "now \<le> now1" "now1 < 2 ^ 63"
  shows "stale failureTimeout now1 n \<longleftrightarrow> now1 - now + now mod second > sint failureTimeout"
proof -
  let ?sec = "now div second"
  have sec: "0 \<le> ?sec" "?sec \<le> now" "now = ?sec * second + now mod second"
    using assms(2) by (auto simp: second_def)
  then have "?sec < 2 ^ 63"
    using assms(3,4) by linarith
  then have hb: "sint (unix_seconds now) = ?sec"
    unfolding unix_seconds_def using sec(1) by (intro sint64_of_int) auto
  have age: "now1 - ?sec * second = now1 - now + now mod second"
    using sec(3) by linarith
  have "now1 - ?sec * second < 2 ^ 63" "0 \<le> now1 - ?sec * second"
    using assms(3,4) sec by (auto simp: second_def)
  then have "Sub_duration now1 (sint (node_heartbeat n) * second) = now1 - ?sec * second"
    by (simp add: Sub_duration_def assms(1) hb)
  then show ?thesis
    unfolding stale_def age by simp
qed

text \<open>
  C29. A heartbeat brings a node up and keeps it up: after a heartbeat accepted at time \<open>now\<close>, with
  a database that answers, the node is listed as healthy, and a monitor cycle at any later time
  within the failure timeout, less the fraction of a second that storing whole seconds cuts off,
  leaves it healthy. Past that point the same cycle marks it down.
\<close>

theorem heartbeat_keeps_node_up:
  assumes "no_faults e" "complete_scans e" "tables_wf (md_tables s)"
    and "on_conn (registry_Heartbeat e now nid addr cap avail) s = (Inr u, s1)"
    and "0 \<le> now" "now \<le> now1" "now1 < 2 ^ 63"
  shows "healthy_node (md_tables s1) nid
    \<and> (healthy_node (md_tables (monitorOnce e failureTimeout now1 s1)) nid \<longleftrightarrow>
         now1 - now + now mod second \<le> sint failureTimeout)"
proof -
  let ?n = "\<lparr>node_id = nid, node_address = addr, node_capacity = cap, node_available = avail,
     node_status = NodeStatusHealthy, node_heartbeat = unix_seconds now\<rparr>"
  obtain c where hb: "registry_Heartbeat e now nid addr cap avail (md_conn s) = (Inr u, c)"
    and s1: "s1 = s\<lparr>md_conn := c\<rparr>"
    using assms(4) by (auto simp: on_conn_eq)
  then have up: "UpsertNodeHeartbeat e (unix_seconds now) nid addr cap avail (md_conn s) = (Inr u, c)"
    by (simp add: registry_Heartbeat_def split: if_splits)
  have "node_map (conn_tables c) nid = Some ?n"
    using UpsertNodeHeartbeat_map [where e = e and now = "unix_seconds now" and nid = nid
        and addr = addr and cap = cap and avail = avail and s = "md_conn s"]
    by (simp add: up heartbeat_written_def)
  then have mem: "?n \<in> set (t_nodes (md_tables s1))"
    by (auto simp: node_map_def s1 find_Some_iff)
  have wf1: "tables_wf (md_tables s1)"
    using preservesD [OF wf.keeps_registry_Heartbeat, of "md_conn s"] assms(3)
    by (auto simp: on_tables_def s1 hb dest: spec) (metis hb snd_conv)
  from mem have up1: "healthy_node (md_tables s1) nid"
    by (force simp: healthy_node_def)
  have only: "\<And>m. m \<in> set (t_nodes (md_tables s1)) \<Longrightarrow> node_id m = nid \<Longrightarrow> m = ?n"
    using distinct_map_inj_on_set [OF _ _ mem, of node_id] wf1 by (auto simp: tables_wf_def)
  have "healthy_node (md_tables (monitorOnce e failureTimeout now1 s1)) nid \<longleftrightarrow>
      (\<exists>m \<in> set (t_nodes (md_tables s1)). node_id m = nid
         \<and> monitored_status failureTimeout now1 m = NodeStatusHealthy)"
    by (simp add: monitorOnce_tables [OF assms(1,2) wf1] healthy_node_def)
  also have "\<dots> \<longleftrightarrow> monitored_status failureTimeout now1 ?n = NodeStatusHealthy"
    using mem only by (metis node_row.select_convs(1))
  also have "\<dots> \<longleftrightarrow> \<not> stale failureTimeout now1 ?n"
    by (simp add: monitored_status_def)
  finally have "healthy_node (md_tables (monitorOnce e failureTimeout now1 s1)) nid \<longleftrightarrow>
      \<not> stale failureTimeout now1 ?n" .
  with up1 show ?thesis
    using stale_iff [of ?n now now1 failureTimeout] assms(5-7) by auto
qed

lemma heartbeat_example:
  "on_conn (registry_Heartbeat plain_engine 120500000000 ''n2'' ''h:2'' 10 9) monitor_example
    = (Inr (), snd (on_conn (registry_Heartbeat plain_engine 120500000000 ''n2'' ''h:2'' 10 9) monitor_example))"
  by (simp add: on_conn_def registry_Heartbeat_def run_simps monitor_example_def
      query_upsert_node_heartbeat_def)

theorem heartbeat_keeps_node_up_witness:
  "healthy_node (md_tables (monitorOnce plain_engine 10000000000 130000000000
     (snd (on_conn (registry_Heartbeat plain_engine 120500000000 ''n2'' ''h:2'' 10 9) monitor_example)))) ''n2''"
  using heartbeat_keeps_node_up [OF plain_engine_simps(4,5) monitor_example_wf heartbeat_example,
      of 130000000000 10000000000]
  by (simp add: second_def)

end
