(* ===== verification/Placement.thy ===== *)
theory Placement
  imports Metadata_Tables Go_Errors
begin

text \<open>
  \<open>internal/metadata/placement/placement.go\<close>: the choice of the nodes that hold the replicas of a
  chunk. \<open>rand.Shuffle\<close> of the standard library is the Fisher-Yates loop from the last position
  down; the random source is a parameter: \<open>rnd k i\<close> is the raw draw for position \<open>i\<close> while the
  nodes for chunk number \<open>k\<close> are shuffled, reduced to the range \<open>0..i\<close> as \<open>Int63n(i + 1)\<close> does.
  A Go map is an association list with distinct keys (\<open>AList.update\<close> is the assignment).
\<close>

record engine_cfg =
  replicationFactor :: int

definition NewEngine :: "int \<Rightarrow> engine_cfg" where
  "NewEngine rf = \<lparr>replicationFactor = rf\<rparr>"

definition ReplicationFactor :: "engine_cfg \<Rightarrow> int" where
  "ReplicationFactor p = replicationFactor p"

definition swap :: "'a list \<Rightarrow> nat \<Rightarrow> nat \<Rightarrow> 'a list" where
  "swap xs i j = xs[i := xs ! j, j := xs ! i]"

fun shuffle_loop :: "(nat \<Rightarrow> nat) \<Rightarrow> nat \<Rightarrow> 'a list \<Rightarrow> 'a list" where
  "shuffle_loop draw 0 xs = xs"
| "shuffle_loop draw (Suc i) xs =
     shuffle_loop draw i (swap xs (Suc i) (draw (Suc i) mod Suc (Suc i)))"

definition Shuffle :: "(nat \<Rightarrow> nat) \<Rightarrow> 'a list \<Rightarrow> 'a list" where
  "Shuffle draw xs = shuffle_loop draw (length xs - 1) xs"

fun select_loop ::
  "int \<Rightarrow> (nat \<Rightarrow> nat \<Rightarrow> nat) \<Rightarrow> node_row list \<Rightarrow> nat \<Rightarrow> chunk_row list
     \<Rightarrow> (string \<times> string list) list \<Rightarrow> (string \<times> string list) list" where
  "select_loop rf rnd healthy k [] result = result"
| "select_loop rf rnd healthy k (c # cs) result =
     (let nodes = Shuffle (rnd k) healthy;
          selected = map (\<lambda>i. node_id (nodes ! i)) [0..<nat rf]
      in select_loop rf rnd healthy (Suc k) cs (AList.update (chunk_id c) selected result))"

definition SelectReplicas ::
  "engine_cfg \<Rightarrow> (nat \<Rightarrow> nat \<Rightarrow> nat) \<Rightarrow> chunk_row list \<Rightarrow> node_row list
     \<Rightarrow> go_error + (string \<times> string list) list" where
  "SelectReplicas p rnd chunks healthy =
     (if replicationFactor p \<le> 0 then Inl (PlainErr ''invalid replication factor'')
      else if int (length healthy) < replicationFactor p
      then Inl (PlainErr ''not enough healthy nodes for replication'')
      else Inr (select_loop (replicationFactor p) rnd healthy 0 chunks []))"

subsection \<open>The shuffle is a permutation, and any permutation\<close>

lemma length_swap [simp]: "length (swap xs i j) = length xs"
  by (simp add: swap_def)

lemma mset_swap: "i < length xs \<Longrightarrow> j < length xs \<Longrightarrow> mset (swap xs i j) = mset xs"
  by (cases "i = j") (simp_all add: swap_def mset_update nth_list_update)

lemma mset_shuffle_loop: "i < length xs \<Longrightarrow> mset (shuffle_loop draw i xs) = mset xs"
proof (induction i arbitrary: xs)
  case (Suc i)
  let ?j = "draw (Suc i) mod Suc (Suc i)"
  have "?j < length xs"
    using Suc.prems mod_less_divisor [of "Suc (Suc i)" "draw (Suc i)"] by linarith
  with Suc show ?case
    by (simp add: mset_swap)
qed simp

lemma mset_Shuffle [simp]: "mset (Shuffle draw xs) = mset xs"
proof (cases xs)
  case (Cons x ys)
  then show ?thesis
    unfolding Shuffle_def by (intro mset_shuffle_loop) simp
qed (simp add: Shuffle_def)

lemma set_Shuffle [simp]: "set (Shuffle draw xs) = set xs"
  by (metis mset_Shuffle mset_eq_setD)

lemma length_Shuffle [simp]: "length (Shuffle draw xs) = length xs"
  by (metis mset_Shuffle mset_eq_length)

lemma distinct_map_Shuffle [simp]: "distinct (map f (Shuffle draw xs)) = distinct (map f xs)"
  by (rule mset_eq_imp_distinct_iff) simp

text \<open>Draws for positions above \<open>i\<close> do not matter to the loop from \<open>i\<close>.\<close>

lemma shuffle_loop_cong:
  "(\<And>k. k \<le> i \<Longrightarrow> draw k = draw' k) \<Longrightarrow> shuffle_loop draw i xs = shuffle_loop draw' i xs"
  by (induction i arbitrary: xs) auto

lemma shuffle_loop_onto:
  assumes "i < length xs" "length ys = length xs" "drop (Suc i) ys = drop (Suc i) xs"
    and "mset (take (Suc i) ys) = mset (take (Suc i) xs)"
  shows "\<exists>draw. shuffle_loop draw i xs = ys"
  using assms
proof (induction i arbitrary: xs)
  case 0
  then have "take (Suc 0) ys = take (Suc 0) xs"
    by (cases xs; cases ys) auto
  with 0 have "ys = xs"
    by (metis append_take_drop_id)
  then show ?case
    by simp
next
  case (Suc i)
  have "ys ! Suc i \<in> set (take (Suc (Suc i)) ys)"
    using Suc.prems by (auto simp: in_set_conv_nth)
  then have "ys ! Suc i \<in> set (take (Suc (Suc i)) xs)"
    using Suc.prems(4) by (metis mset_eq_setD)
  then obtain j where j: "j < Suc (Suc i)" "xs ! j = ys ! Suc i"
    using Suc.prems(1) by (auto simp: in_set_conv_nth)
  let ?xs = "swap xs (Suc i) j"
  have jlen: "j < length xs"
    using j Suc.prems(1) by linarith
  have last: "?xs ! Suc i = ys ! Suc i"
    using j Suc.prems(1) jlen by (cases "j = Suc i") (auto simp: swap_def)
  have "take (Suc (Suc i)) ?xs = swap (take (Suc (Suc i)) xs) (Suc i) j"
    using j Suc.prems(1) by (simp add: swap_def take_update_swap)
  then have "mset (take (Suc (Suc i)) ?xs) = mset (take (Suc (Suc i)) xs)"
    using j Suc.prems(1) by (simp add: mset_swap)
  then have "mset (take (Suc i) ?xs @ [?xs ! Suc i]) = mset (take (Suc i) ys @ [ys ! Suc i])"
    using Suc.prems by (simp add: take_Suc_conv_app_nth)
  then have "mset (take (Suc i) ys) = mset (take (Suc i) ?xs)"
    using last by simp
  moreover have "drop (Suc i) ys = drop (Suc i) ?xs"
  proof -
    have "drop (Suc (Suc i)) ?xs = drop (Suc (Suc i)) xs"
      using j by (simp add: swap_def)
    with Suc.prems last show ?thesis
      by (metis Cons_nth_drop_Suc length_swap)
  qed
  ultimately obtain draw where draw: "shuffle_loop draw i ?xs = ys"
    using Suc.IH [of ?xs] Suc.prems by auto
  let ?draw = "draw(Suc i := j)"
  have "shuffle_loop ?draw i ?xs = shuffle_loop draw i ?xs"
    by (rule shuffle_loop_cong) simp
  with draw j(1) have "shuffle_loop ?draw (Suc i) xs = ys"
    by simp
  then show ?case
    by blast
qed

lemma Shuffle_onto:
  assumes "mset ys = mset xs"
  shows "\<exists>draw. Shuffle draw xs = ys"
proof (cases xs)
  case Nil
  with assms show ?thesis
    by (simp add: Shuffle_def)
next
  case (Cons x zs)
  have len: "length ys = length xs"
    using assms by (rule mset_eq_length)
  have "\<exists>draw. shuffle_loop draw (length xs - 1) xs = ys"
    by (rule shuffle_loop_onto) (use assms len Cons in simp_all)
  then show ?thesis
    by (simp add: Shuffle_def)
qed

subsection \<open>What is selected for each chunk\<close>

lemma selected_take:
  "nat rf \<le> length nodes \<Longrightarrow> map (\<lambda>i. node_id (nodes ! i)) [0..<nat rf] = map node_id (take (nat rf) nodes)"
  by (rule nth_equalityI) auto

definition good_selection :: "int \<Rightarrow> node_row list \<Rightarrow> string list \<Rightarrow> bool" where
  "good_selection rf healthy ns \<longleftrightarrow>
     int (length ns) = rf \<and> distinct ns \<and> set ns \<subseteq> node_id ` set healthy"

lemma select_loop_good:
  assumes "0 < rf" "rf \<le> int (length healthy)" "distinct (map node_id healthy)"
    and "distinct (map fst result)" "\<forall>(c, ns) \<in> set result. good_selection rf healthy ns"
  shows "distinct (map fst (select_loop rf rnd healthy k cs result))
    \<and> fst ` set (select_loop rf rnd healthy k cs result) = fst ` set result \<union> chunk_id ` set cs
    \<and> (\<forall>(c, ns) \<in> set (select_loop rf rnd healthy k cs result). good_selection rf healthy ns)"
  using assms(4,5)
proof (induction cs arbitrary: k result)
  case (Cons c cs)
  let ?nodes = "Shuffle (rnd k) healthy"
  let ?sel = "map (\<lambda>i. node_id (?nodes ! i)) [0..<nat rf]"
  have sel: "?sel = map node_id (take (nat rf) ?nodes)"
    using assms(2) by (intro selected_take) (simp add: nat_le_iff)
  have "distinct (map node_id (take (nat rf) ?nodes))"
    using assms(3) by (simp add: take_map [symmetric] del: take_map)
  moreover have "set (take (nat rf) ?nodes) \<subseteq> set healthy"
    by (metis set_Shuffle set_take_subset)
  ultimately have good: "good_selection rf healthy ?sel"
    using assms(1,2) unfolding good_selection_def sel by auto
  let ?r = "AList.update (chunk_id c) ?sel result"
  have "distinct (map fst ?r)"
    using Cons.prems(1) by (rule distinct_update)
  moreover have "\<forall>(c, ns) \<in> set ?r. good_selection rf healthy ns"
    using Cons.prems(2) good set_update_subset [of "chunk_id c" ?sel result] by fastforce
  ultimately show ?case
    using Cons.IH [of ?r "Suc k"] by (simp add: Let_def dom_update)
qed auto

end
