(* ===== verification/Placement_Properties.thy ===== *)
theory Placement_Properties
  imports Placement
begin

text \<open>
  The properties of the placement engine: every chunk gets the right number of distinct healthy
  nodes or the call is refused, and the random choice excludes no admissible placement.
\<close>

text \<open>
  C18. \<open>SelectReplicas\<close> on healthy nodes with distinct names: it is refused exactly when the
  replication factor is not positive or there are fewer healthy nodes than replicas; otherwise
  the result has one entry for each chunk, of exactly as many pairwise distinct node names as the
  replication factor, all of them healthy. The random draws do not matter.
\<close>

theorem SelectReplicas_spec:
  assumes "distinct (map node_id healthy)"
  shows "case SelectReplicas p rnd chunks healthy of
      Inl err \<Rightarrow> ReplicationFactor p \<le> 0 \<or> int (length healthy) < ReplicationFactor p
    | Inr m \<Rightarrow> 0 < ReplicationFactor p \<and> distinct (map fst m)
        \<and> fst ` set m = chunk_id ` set chunks
        \<and> (\<forall>(c, ns) \<in> set m. int (length ns) = ReplicationFactor p \<and> distinct ns
             \<and> set ns \<subseteq> node_id ` set healthy)"
  using select_loop_good [OF _ _ assms, of "replicationFactor p" "[]" rnd 0 chunks]
  by (auto simp: SelectReplicas_def ReplicationFactor_def good_selection_def)

definition three_nodes :: "node_row list" where
  "three_nodes = map (\<lambda>i. \<lparr>node_id = i, node_address = i, node_capacity = 10, node_available = 10,
     node_status = NodeStatusHealthy, node_heartbeat = 0\<rparr>) [''n1'', ''n2'', ''n3'']"

lemma length_three_nodes: "length three_nodes = 3"
  by (simp add: three_nodes_def)

lemma three_nodes_distinct: "distinct (map node_id three_nodes)"
  by (simp add: three_nodes_def)

theorem SelectReplicas_spec_witness:
  "case SelectReplicas (NewEngine 2) (\<lambda>k i. k)
      [\<lparr>chunk_id = ''c1'', chunk_file = ''f'', chunk_index = 0, chunk_size = 4\<rparr>] three_nodes of
      Inl err \<Rightarrow> False
    | Inr m \<Rightarrow> fst ` set m = {''c1''}
        \<and> (\<forall>(c, ns) \<in> set m. int (length ns) = 2 \<and> distinct ns)"
proof -
  let ?cs = "[\<lparr>chunk_id = ''c1'', chunk_file = ''f'', chunk_index = 0, chunk_size = 4\<rparr>]"
  have rf: "ReplicationFactor (NewEngine 2) = 2"
    by (simp add: NewEngine_def ReplicationFactor_def)
  show ?thesis
    using SelectReplicas_spec [OF three_nodes_distinct, where p = "NewEngine 2" and rnd = "\<lambda>k i. k"
        and chunks = ?cs]
    by (cases "SelectReplicas (NewEngine 2) (\<lambda>k i. k) ?cs three_nodes")
      (simp_all add: rf length_three_nodes case_prod_beta)
qed

subsection \<open>No admissible placement is excluded\<close>

lemma selection_by_shuffle:
  assumes "good_selection rf healthy ns" "distinct (map node_id healthy)"
  shows "\<exists>draw. map (\<lambda>i. node_id (Shuffle draw healthy ! i)) [0..<nat rf] = ns"
proof -
  let ?row = "\<lambda>i. the (find (\<lambda>n. node_id n = i) healthy)"
  have row: "?row i \<in> set healthy \<and> node_id (?row i) = i" if "i \<in> set ns" for i
  proof -
    from that assms(1) obtain n where "n \<in> set healthy" "node_id n = i"
      by (auto simp: good_selection_def)
    then have "find (\<lambda>n. node_id n = i) healthy = Some n"
      using assms(2) by (simp add: find_key_eq_Some)
    with \<open>n \<in> set healthy\<close> \<open>node_id n = i\<close> show ?thesis
      by simp
  qed
  let ?ys = "map ?row ns @ filter (\<lambda>n. node_id n \<notin> set ns) healthy"
  have ids: "map node_id (map ?row ns) = ns"
    using row by (simp add: map_idI)
  have dist: "distinct healthy"
    using assms(2) by (simp add: distinct_map)
  have "distinct (map node_id (map ?row ns))"
    unfolding ids using assms(1) by (simp add: good_selection_def)
  then have "distinct (map ?row ns)"
    by (simp only: distinct_map)
  moreover have "set (map ?row ns) \<inter> set (filter (\<lambda>n. node_id n \<notin> set ns) healthy) = {}"
    using row by fastforce
  ultimately have "distinct ?ys"
    using dist by (simp only: distinct_append distinct_filter)
  moreover have "set ?ys = set healthy"
  proof
    show "set ?ys \<subseteq> set healthy"
      using row by auto
    show "set healthy \<subseteq> set ?ys"
    proof
      fix n
      assume n: "n \<in> set healthy"
      show "n \<in> set ?ys"
      proof (cases "node_id n \<in> set ns")
        case True
        then have "?row (node_id n) = n"
          using row distinct_map_inj_on_set [OF assms(2) _ n] by blast
        with True show ?thesis
          by (auto intro!: image_eqI [of _ _ "node_id n"])
      qed (use n in simp)
    qed
  qed
  ultimately have "mset ?ys = mset healthy"
    using dist set_eq_iff_mset_eq_distinct [of ?ys healthy] by (simp only:)
  from Shuffle_onto [OF this] obtain draw where draw: "Shuffle draw healthy = ?ys"
    by blast
  have len: "nat rf = length ns"
    using assms(1) by (auto simp: good_selection_def)
  have "nat rf \<le> length ?ys"
    by (simp add: len)
  then have "map (\<lambda>i. node_id (Shuffle draw healthy ! i)) [0..<nat rf] = map node_id (take (nat rf) ?ys)"
    unfolding draw by (rule selected_take)
  also have "\<dots> = ns"
    using ids by (simp add: len)
  finally show ?thesis
    by blast
qed

lemma select_loop_zip:
  assumes "\<And>j. j < length cs \<Longrightarrow>
      map (\<lambda>i. node_id (Shuffle (rnd (k + j)) healthy ! i)) [0..<nat rf] = sel (k + j)"
    and "distinct (map chunk_id cs)" "chunk_id ` set cs \<inter> fst ` set result = {}"
  shows "select_loop rf rnd healthy k cs result =
    result @ zip (map chunk_id cs) (map sel [k..<k + length cs])"
  using assms
proof (induction cs arbitrary: k result)
  case (Cons c cs)
  have new: "AList.update (chunk_id c) (sel k) result = result @ [(chunk_id c, sel k)]"
    using Cons.prems(3) by (induction result) auto
  have "select_loop rf rnd healthy (Suc k) cs (result @ [(chunk_id c, sel k)]) =
      (result @ [(chunk_id c, sel k)]) @ zip (map chunk_id cs) (map sel [Suc k..<Suc k + length cs])"
  proof (rule Cons.IH)
    show "map (\<lambda>i. node_id (Shuffle (rnd (Suc k + j)) healthy ! i)) [0..<nat rf] = sel (Suc k + j)"
      if "j < length cs" for j
      using Cons.prems(1) [of "Suc j"] that by simp
  qed (use Cons.prems in auto)
  moreover have "[k..<k + length (c # cs)] = k # [Suc k..<Suc k + length cs]"
    using upt_rec [of k "k + length (c # cs)"] by simp
  ultimately show ?case
    using Cons.prems(1) [of 0] new by (simp add: Let_def)
qed simp

text \<open>
  C35. The shuffle can produce every placement: whatever selection of the right number of distinct
  healthy nodes one names for each chunk, there are random draws for which \<open>SelectReplicas\<close>
  returns exactly those. No healthy node and no combination of nodes is systematically left out.
\<close>

theorem SelectReplicas_reaches_all:
  assumes "0 < ReplicationFactor p" "distinct (map node_id healthy)" "distinct (map chunk_id chunks)"
    and "\<And>k. k < length chunks \<Longrightarrow> good_selection (ReplicationFactor p) healthy (sel k)"
    and "ReplicationFactor p \<le> int (length healthy)"
  shows "\<exists>rnd. SelectReplicas p rnd chunks healthy =
    Inr (zip (map chunk_id chunks) (map sel [0..<length chunks]))"
proof -
  let ?rf = "replicationFactor p"
  have "\<exists>draw. k < length chunks \<longrightarrow>
      map (\<lambda>i. node_id (Shuffle draw healthy ! i)) [0..<nat ?rf] = sel k" for k
    using selection_by_shuffle [OF _ assms(2)] assms(4) by (metis ReplicationFactor_def)
  then obtain rnd where rnd: "\<And>k. k < length chunks \<Longrightarrow>
      map (\<lambda>i. node_id (Shuffle (rnd k) healthy ! i)) [0..<nat ?rf] = sel k"
    by metis
  have "select_loop ?rf rnd healthy 0 chunks [] =
      [] @ zip (map chunk_id chunks) (map sel [0..<0 + length chunks])"
    using rnd assms(3) by (intro select_loop_zip) auto
  then show ?thesis
    using assms(1,5) by (auto simp: SelectReplicas_def ReplicationFactor_def)
qed

theorem SelectReplicas_reaches_all_witness:
  "\<exists>rnd. SelectReplicas (NewEngine 2) rnd
      [\<lparr>chunk_id = ''c1'', chunk_file = ''f'', chunk_index = 0, chunk_size = 4\<rparr>] three_nodes
    = Inr [(''c1'', [''n3'', ''n1''])]"
  using SelectReplicas_reaches_all [of "NewEngine 2" three_nodes
      "[\<lparr>chunk_id = ''c1'', chunk_file = ''f'', chunk_index = 0, chunk_size = 4\<rparr>]"
      "\<lambda>k. [''n3'', ''n1'']"]
  by (simp add: NewEngine_def ReplicationFactor_def three_nodes_def good_selection_def)

end
