(* ===== verification/Decimal.thy ===== *)
theory Decimal
  imports Dfs_Prelude
begin

text \<open>
  Decimal numerals: what the verb \<open>%d\<close> of \<open>fmt\<close> prints, and what \<open>strconv.Atoi\<close> and
  \<open>strconv.ParseInt\<close> in base 10 read. Printing and then reading gives the number back.
\<close>

definition digit_char :: "nat \<Rightarrow> char" where
  "digit_char d = char_of (48 + d)"

definition digit_value :: "char \<Rightarrow> nat option" where
  "digit_value c = (let k = of_char c in if 48 \<le> k \<and> k \<le> 57 then Some (k - 48) else None)"

fun dec_nat :: "nat \<Rightarrow> string" where
  "dec_nat n = (if n < 10 then [digit_char n] else dec_nat (n div 10) @ [digit_char (n mod 10)])"

declare dec_nat.simps [simp del]

definition dec_int :: "int \<Rightarrow> string" where
  "dec_int i = (if i < 0 then CHR ''-'' # dec_nat (nat (- i)) else dec_nat (nat i))"

text \<open>The loop over the digits, with the value read so far.\<close>

fun read_digits :: "string \<Rightarrow> nat \<Rightarrow> nat option" where
  "read_digits [] acc = Some acc"
| "read_digits (c # cs) acc =
     (case digit_value c of None \<Rightarrow> None | Some d \<Rightarrow> read_digits cs (10 * acc + d))"

text \<open>
  \<open>strconv.ParseInt(s, 10, 64)\<close>: an optional sign, at least one digit, only digits, and a value
  in the range of the type. \<open>strconv.Atoi\<close> reads the same strings on a 64-bit platform.
\<close>

definition ParseInt :: "string \<Rightarrow> int64 option" where
  "ParseInt s =
     (let neg = (s \<noteq> [] \<and> hd s = CHR ''-'');
          ds = (if s \<noteq> [] \<and> (hd s = CHR ''-'' \<or> hd s = CHR ''+'') then tl s else s)
      in if ds = [] then None
         else case read_digits ds 0 of
             None \<Rightarrow> None
           | Some n \<Rightarrow> (let v = (if neg then - int n else int n)
               in if - (2 ^ 63) \<le> v \<and> v < 2 ^ 63 then Some (word_of_int v) else None))"

lemma digit_value_char: "d < 10 \<Longrightarrow> digit_value (digit_char d) = Some d"
  by (simp add: digit_value_def digit_char_def Let_def)

lemma digit_char_ne_sign: "d < 10 \<Longrightarrow> digit_char d \<noteq> CHR ''-'' \<and> digit_char d \<noteq> CHR ''+''"
  using digit_value_char [of d] by (auto simp: digit_value_def)

lemma read_digits_append:
  "read_digits (xs @ ys) acc = (case read_digits xs acc of None \<Rightarrow> None | Some v \<Rightarrow> read_digits ys v)"
  by (induction xs acc rule: read_digits.induct) (auto split: option.splits)

lemma dec_nat_ne [simp]: "dec_nat n \<noteq> []"
  by (subst dec_nat.simps) simp

lemma hd_dec_nat: "\<exists>d < 10. hd (dec_nat n) = digit_char d"
proof (induction n rule: dec_nat.induct)
  case (1 n)
  then show ?case
    by (subst dec_nat.simps) auto
qed

lemma read_dec_nat: "read_digits (dec_nat n) 0 = Some n"
proof (induction n rule: dec_nat.induct)
  case (1 n)
  show ?case
  proof (cases "n < 10")
    case True
    then show ?thesis
      by (subst dec_nat.simps) (simp add: digit_value_char)
  next
    case False
    with 1 have "read_digits (dec_nat (n div 10)) 0 = Some (n div 10)"
      by simp
    with False show ?thesis
      by (subst dec_nat.simps) (simp add: read_digits_append digit_value_char)
  qed
qed

lemma ParseInt_dec_int:
  assumes "- (2 ^ 63) \<le> i" "i < 2 ^ 63"
  shows "ParseInt (dec_int i) = Some (word_of_int i)"
proof (cases "i < 0")
  case True
  with assms show ?thesis
    by (simp add: ParseInt_def dec_int_def Let_def read_dec_nat)
next
  case False
  then have "hd (dec_nat (nat i)) \<noteq> CHR ''-'' \<and> hd (dec_nat (nat i)) \<noteq> CHR ''+''"
    using hd_dec_nat [of "nat i"] digit_char_ne_sign by metis
  with False assms show ?thesis
    by (simp add: ParseInt_def dec_int_def Let_def read_dec_nat)
qed

end
