(* ===== verification/Policy.thy ===== *)
theory Policy
  imports Decimal Go_Errors
begin

text \<open>
  \<open>internal/metadata/policy/policy.go\<close>: the named chunk sizes and the choice of one for an
  upload. The metadata daemon asks once, at start-up, with size 0.
\<close>

record ChunkSizeSlot =
  slot_label :: string
  slot_bytes :: int64

record chunk_policy =
  policy_slots :: "ChunkSizeSlot list"
  policy_defaultSize :: int64

definition NewPolicy :: chunk_policy where
  "NewPolicy = \<lparr>policy_slots =
       [\<lparr>slot_label = ''small'', slot_bytes = 1 * 1024 * 1024\<rparr>,
        \<lparr>slot_label = ''medium'', slot_bytes = 4 * 1024 * 1024\<rparr>,
        \<lparr>slot_label = ''large'', slot_bytes = 8 * 1024 * 1024\<rparr>,
        \<lparr>slot_label = ''xlarge'', slot_bytes = 16 * 1024 * 1024\<rparr>],
     policy_defaultSize = 4 * 1024 * 1024\<rparr>"

definition DetermineChunkSize :: "chunk_policy \<Rightarrow> string \<Rightarrow> int64 \<Rightarrow> go_error + int64" where
  "DetermineChunkSize p fileName fileSize =
     (if fileSize <s 0 then Inl (PlainErr (''invalid file size: '' @ dec_int (sint fileSize)))
      else Inr (policy_defaultSize p))"

definition GetSlots :: "chunk_policy \<Rightarrow> ChunkSizeSlot list" where
  "GetSlots p = policy_slots p"

definition GetDefaultSize :: "chunk_policy \<Rightarrow> int64" where
  "GetDefaultSize p = policy_defaultSize p"

text \<open>The chunk size the daemon runs with, and the fact that it is one of the named ones.\<close>

lemma daemon_chunk_size: "DetermineChunkSize NewPolicy [] 0 = Inr 4194304"
  by (simp add: DetermineChunkSize_def NewPolicy_def)

lemma default_size_is_a_slot: "GetDefaultSize NewPolicy \<in> slot_bytes ` set (GetSlots NewPolicy)"
  by (simp add: GetDefaultSize_def GetSlots_def NewPolicy_def)

end
