(* ===== verification/Manifest.thy ===== *)
theory Manifest
  imports Registry_Properties Placement_Properties Policy
begin

text \<open>
  \<open>internal/metadata/manifest/manifest.go\<close>: the life cycle of a file. What the manager takes from
  outside is in \<open>ambient\<close>: the identifiers \<open>ids.NewRequestID\<close> returns (a ULID, made by a
  library), the readings of the clock, and the random draws of the placement, each numbered in
  the order the call asks for them. A call either returns or panics.
\<close>

record manager =
  mgr_placement :: engine_cfg
  mgr_chunkSize :: int64

record ambient =
  new_id :: "nat \<Rightarrow> string"
  clock :: "nat \<Rightarrow> int"
  draws :: "nat \<Rightarrow> nat \<Rightarrow> nat"

datatype 'a outcome = Ret 'a | Panic string

text \<open>A Go map from chunk IDs to node IDs: an association list with distinct keys.\<close>

type_synonym replica_map = "(string \<times> string list) list"

definition NewManager :: "engine_cfg \<Rightarrow> int64 \<Rightarrow> manager" where
  "NewManager p chunkSize = \<lparr>mgr_placement = p, mgr_chunkSize = chunkSize\<rparr>"

subsection \<open>Planning the chunks of an upload\<close>

definition chunk_count :: "int64 \<Rightarrow> int64 \<Rightarrow> int64" where
  "chunk_count fileSize chunkSize = go_div (fileSize + chunkSize - 1) chunkSize"

text \<open>
  \<open>make([]store.Chunk, 0, chunkCount)\<close> panics when the capacity is negative or the array (48 bytes
  for each \<open>store.Chunk\<close>) is larger than the 48-bit address space of the heap.
\<close>

definition makeslice_panics :: "int64 \<Rightarrow> bool" where
  "makeslice_panics cap \<longleftrightarrow> sint cap < 0 \<or> 48 * sint cap > 2 ^ 48"

definition plan_chunk :: "ambient \<Rightarrow> string \<Rightarrow> int64 \<Rightarrow> int64 \<Rightarrow> int64 \<Rightarrow> nat \<Rightarrow> chunk_row" where
  "plan_chunk a fileID fileSize chunkSize chunkCount i =
     (let remaining = fileSize - word_of_nat i * chunkSize;
          size = (if word_of_nat i = chunkCount - 1 \<and> 0 <s remaining then remaining else chunkSize)
      in \<lparr>chunk_id = new_id a (2 + i), chunk_file = fileID, chunk_index = word_of_nat i,
          chunk_size = size\<rparr>)"

definition plan_chunks :: "ambient \<Rightarrow> string \<Rightarrow> int64 \<Rightarrow> int64 \<Rightarrow> chunk_row list outcome" where
  "plan_chunks a fileID fileSize chunkSize =
     (let chunkCount = chunk_count fileSize chunkSize
      in if makeslice_panics chunkCount then Panic ''runtime error: makeslice: cap out of range''
         else Ret (map (plan_chunk a fileID fileSize chunkSize chunkCount) [0..<nat (sint chunkCount)]))"

subsection \<open>PrepareUpload\<close>

text \<open>The rows of the transaction, and the transaction.\<close>

definition prepared_file :: "ambient \<Rightarrow> string \<Rightarrow> int64 \<Rightarrow> file_row" where
  "prepared_file a fileName fileSize =
     \<lparr>file_id = new_id a 0, file_name = fileName, file_size = fileSize,
      file_status = FileStatusPending, file_created = unix_seconds (clock a 0)\<rparr>"

definition prepared_session :: "ambient \<Rightarrow> session_row" where
  "prepared_session a =
     \<lparr>sess_id = new_id a 1, sess_file = new_id a 0, sess_status = UploadStatusPreparing,
      sess_created = unix_seconds (clock a 1)\<rparr>"

definition prepare_tx :: "engine \<Rightarrow> ambient \<Rightarrow> string \<Rightarrow> int64 \<Rightarrow> chunk_row list \<Rightarrow> (conn, go_error, unit) op" where
  "prepare_tx e a fileName fileSize chunks =
     bindR (CreateFile e (prepared_file a fileName fileSize))
       (\<lambda>_. bindR (CreateUploadSession e (prepared_session a)) (\<lambda>_. InsertChunks e chunks))"

text \<open>From the list of healthy nodes on, with the chunks planned.\<close>

definition prepare_store ::
  "engine \<Rightarrow> manager \<Rightarrow> ambient \<Rightarrow> string \<Rightarrow> int64 \<Rightarrow> chunk_row list
     \<Rightarrow> (conn, go_error, string \<times> replica_map) op" where
  "prepare_store e m a fileName fileSize chunks =
     bindR (registry_ListHealthyNodes e) (\<lambda>nodes.
       case SelectReplicas (mgr_placement m) (draws a) chunks nodes of
         Inl err \<Rightarrow> failR err
       | Inr replicaMap \<Rightarrow>
           bindR (WithTx e (prepare_tx e a fileName fileSize chunks)) (\<lambda>_. retR (new_id a 1, replicaMap)))"

definition PrepareUpload ::
  "engine \<Rightarrow> manager \<Rightarrow> ambient \<Rightarrow> string \<Rightarrow> int64 \<Rightarrow> conn
     \<Rightarrow> (go_error + string \<times> replica_map) outcome \<times> conn" where
  "PrepareUpload e m a fileName fileSize s =
     (if mgr_chunkSize m \<le>s 0 then (Ret (Inl (PlainErr ''invalid configured chunk size'')), s)
      else case plan_chunks a (new_id a 0) fileSize (mgr_chunkSize m) of
          Panic d \<Rightarrow> (Panic d, s)
        | Ret chunks \<Rightarrow>
            (let (r, s1) = prepare_store e m a fileName fileSize chunks s in (Ret r, s1)))"

subsection \<open>Reading, deleting and listing\<close>

definition manifest_GetFile :: "engine \<Rightarrow> string \<Rightarrow> (conn, go_error, file_row option) op" where
  "manifest_GetFile e fileID = GetFile e fileID"

definition manifest_GetChunks :: "engine \<Rightarrow> string \<Rightarrow> (conn, go_error, chunk_row list) op" where
  "manifest_GetChunks e fileID = GetChunksByFileID e fileID"

definition manifest_GetChunkLocations :: "engine \<Rightarrow> string \<Rightarrow> (conn, go_error, location_row list) op" where
  "manifest_GetChunkLocations e chunkID = GetChunkLocations e chunkID"

definition manifest_DeleteFile :: "engine \<Rightarrow> string \<Rightarrow> (conn, go_error, unit) op" where
  "manifest_DeleteFile e fileID =
     bindR (GetFile e fileID) (\<lambda>f.
       case f of
         None \<Rightarrow> failR (PlainErr ''file not found'')
       | Some row \<Rightarrow> UpdateFileStatus e fileID FileStatusDeleted)"

definition manifest_ListFiles :: "engine \<Rightarrow> (conn, go_error, file_row list) op" where
  "manifest_ListFiles e =
     bindR (ListFiles e) (\<lambda>files. retR (filter (\<lambda>f. file_status f = FileStatusCommitted) files))"

subsection \<open>CommitUpload\<close>

text \<open>The inner loop, over the nodes of one chunk.\<close>

fun check_nodes :: "string \<Rightarrow> string list \<Rightarrow> location_row list \<Rightarrow> go_error + location_row list" where
  "check_nodes chunkID [] locations = Inr locations"
| "check_nodes chunkID (nodeID # nodeIDs) locations =
     (if nodeID = [] then Inl (PlainErr (''empty nodeID for chunk '' @ chunkID))
      else check_nodes chunkID nodeIDs (locations @ [\<lparr>loc_chunk = chunkID, loc_node = nodeID\<rparr>]))"

text \<open>The loop over the replica map, in the order the map is ranged over.\<close>

fun check_replicas ::
  "int \<Rightarrow> string list \<Rightarrow> replica_map \<Rightarrow> location_row list \<Rightarrow> go_error + location_row list" where
  "check_replicas rf validChunkIDs [] locations = Inr locations"
| "check_replicas rf validChunkIDs ((chunkID, nodeIDs) # rest) locations =
     (if chunkID \<notin> set validChunkIDs
      then Inl (PlainErr (''invalid chunkID in replica map: '' @ chunkID))
      else if int (length nodeIDs) < rf
      then Inl (PlainErr (''chunk '' @ chunkID @ '' has insufficient replicas: ''
             @ dec_nat (length nodeIDs) @ '' < '' @ dec_int rf))
      else case check_nodes chunkID nodeIDs locations of
             Inl err \<Rightarrow> Inl err
           | Inr locations1 \<Rightarrow> check_replicas rf validChunkIDs rest locations1)"

text \<open>What the transaction does once session and file are known to be open.\<close>

definition commit_file ::
  "engine \<Rightarrow> manager \<Rightarrow> nat list \<Rightarrow> string \<Rightarrow> replica_map \<Rightarrow> file_row \<Rightarrow> (conn, go_error, unit) op" where
  "commit_file e m order sessionID replicaMap f =
     bindR (GetChunksByFileID e (file_id f)) (\<lambda>chunks.
       if chunks = [] then failR (PlainErr ''no chunks found for file'')
       else if length replicaMap \<noteq> length chunks
       then failR (PlainErr (''replica map incomplete: expected '' @ dec_nat (length chunks)
              @ '' chunks, got '' @ dec_nat (length replicaMap)))
       else case check_replicas (ReplicationFactor (mgr_placement m)) (map chunk_id chunks)
                   (reorder order replicaMap) [] of
              Inl err \<Rightarrow> failR err
            | Inr locations \<Rightarrow>
                bindR (InsertChunkLocations e locations) (\<lambda>_.
                bindR (UpdateFileStatus e (file_id f) FileStatusCommitted) (\<lambda>_.
                  UpdateUploadSessionStatus e sessionID UploadStatusCommitted)))"

definition commit_row ::
  "engine \<Rightarrow> manager \<Rightarrow> nat list \<Rightarrow> string \<Rightarrow> replica_map \<Rightarrow> file_row \<Rightarrow> (conn, go_error, unit) op" where
  "commit_row e m order sessionID replicaMap row =
     (if file_status row = FileStatusCommitted then retR ()
      else if file_status row \<noteq> FileStatusPending
      then failR (PlainErr ''file is not in pending state'')
      else commit_file e m order sessionID replicaMap row)"

definition commit_session ::
  "engine \<Rightarrow> manager \<Rightarrow> nat list \<Rightarrow> string \<Rightarrow> replica_map \<Rightarrow> session_row \<Rightarrow> (conn, go_error, unit) op" where
  "commit_session e m order sessionID replicaMap u =
     (if sess_status u = UploadStatusCommitted then retR ()
      else if sess_status u \<noteq> UploadStatusPreparing
      then failR (PlainErr (''invalid session state: '' @ sess_status u))
      else bindR (GetFile e (sess_file u)) (\<lambda>f.
        case f of
          None \<Rightarrow> failR (PlainErr ''file not found for session'')
        | Some row \<Rightarrow> commit_row e m order sessionID replicaMap row))"

definition commit_tx ::
  "engine \<Rightarrow> manager \<Rightarrow> nat list \<Rightarrow> string \<Rightarrow> replica_map \<Rightarrow> (conn, go_error, unit) op" where
  "commit_tx e m order sessionID replicaMap =
     bindR (GetUploadSession e sessionID) (\<lambda>session.
       case session of
         None \<Rightarrow> failR (PlainErr ''upload session not found'')
       | Some u \<Rightarrow> commit_session e m order sessionID replicaMap u)"

definition CommitUpload ::
  "engine \<Rightarrow> manager \<Rightarrow> nat list \<Rightarrow> string \<Rightarrow> replica_map \<Rightarrow> (conn, go_error, unit) op" where
  "CommitUpload e m order sessionID replicaMap = WithTx e (commit_tx e m order sessionID replicaMap)"

end
