(* ===== verification/Upload_Plan.thy ===== *)
theory Upload_Plan
  imports Manifest
begin

text \<open>
  The chunk plan of an upload: its arithmetic in 64-bit integers, the partition of the file it
  makes, and what \<open>PrepareUpload\<close> stores.
\<close>

subsection \<open>The number of chunks\<close>

lemma zdiv_le_self:
  fixes a b :: int
  assumes "0 \<le> a" "0 < b"
  shows "a div b \<le> a"
  using assms zdiv_mono2 [of a 1 b] by simp

lemma sint_ceil_numerator:
  assumes "0 < sint fs" "0 < sint cs" "sint fs + sint cs \<le> 2 ^ 63"
  shows "sint (fs + cs - 1 :: int64) = sint fs + sint cs - 1"
proof -
  have "(fs + cs - 1 :: int64) = word_of_int (sint fs + sint cs - 1)"
    by simp
  also have "sint \<dots> = sint fs + sint cs - 1"
    using assms by (intro sint64_of_int) auto
  finally show ?thesis .
qed

lemma sint_chunk_count:
  assumes "0 < sint fs" "0 < sint cs" "sint fs + sint cs \<le> 2 ^ 63"
  shows "sint (chunk_count fs cs) = (sint fs + sint cs - 1) div sint cs"
proof -
  let ?a = "sint fs + sint cs - 1"
  have "?a div sint cs \<le> ?a"
    using assms by (intro zdiv_le_self) auto
  moreover have "0 \<le> ?a div sint cs"
    using assms by (simp add: pos_imp_zdiv_nonneg_iff)
  ultimately have "sint (word_of_int (?a div sint cs) :: int64) = ?a div sint cs"
    using assms by (intro sint64_of_int) auto
  then show ?thesis
    using assms sint_ceil_numerator [OF assms] by (simp add: chunk_count_def go_div_def)
qed

text \<open>
  When the sum wraps around, the quotient is negative, and \<open>make\<close> panics.
\<close>

lemma sint_chunk_count_overflow:
  assumes "sint cs \<le> 2 ^ 62" "0 < sint cs" "2 ^ 63 < sint fs + sint cs"
  shows "sint (chunk_count fs cs) < 0"
proof -
  let ?v = "sint fs + sint cs - 1 - 2 ^ 64"
  have lt: "sint fs < 2 ^ 63"
    by (rule sint64_bounds)
  have "(fs + cs - 1 :: int64) = word_of_int (sint fs + sint cs - 1)"
    by simp
  also have "sint \<dots> = ?v"
    using assms lt by (intro sint64_wrap_high) auto
  finally have v: "sint (fs + cs - 1) = ?v" .
  have neg: "?v < 0" and big: "sint cs \<le> - ?v" "- ?v \<le> 2 ^ 63"
    using assms lt by auto
  let ?q = "- ?v div sint cs"
  have "0 < ?q"
    using assms(2) big(1) by (simp add: pos_imp_zdiv_pos_iff)
  moreover have "?q \<le> - ?v"
    using assms(2) neg by (intro zdiv_le_self) auto
  ultimately have "sint (word_of_int (- ?q) :: int64) = - ?q"
    using big(2) by (intro sint64_of_int) auto
  with \<open>0 < ?q\<close> show ?thesis
    using assms(2) neg by (simp add: chunk_count_def go_div_def v abs_if)
qed

subsection \<open>The partition\<close>

definition splits_file :: "string \<Rightarrow> int64 \<Rightarrow> int64 \<Rightarrow> chunk_row list \<Rightarrow> bool" where
  "splits_file fid fileSize chunkSize cs \<longleftrightarrow>
     (\<forall>i < length cs. chunk_file (cs ! i) = fid \<and> chunk_index (cs ! i) = word_of_nat i
        \<and> 0 < sint (chunk_size (cs ! i)) \<and> sint (chunk_size (cs ! i)) \<le> sint chunkSize
        \<and> (Suc i < length cs \<longrightarrow> chunk_size (cs ! i) = chunkSize))
     \<and> (\<Sum>c \<leftarrow> cs. sint (chunk_size c)) = sint fileSize"

lemma ceil_div_bounds:
  fixes f c :: int
  assumes "0 < f" "0 < c"
  shows "((f + c - 1) div c - 1) * c < f" "f \<le> (f + c - 1) div c * c" "0 < (f + c - 1) div c"
proof -
  let ?n = "(f + c - 1) div c"
  have eq: "?n * c = f + c - 1 - (f + c - 1) mod c"
    by (simp add: minus_mod_eq_div_mult)
  have m: "0 \<le> (f + c - 1) mod c" "(f + c - 1) mod c < c"
    using assms(2) by simp_all
  show "(?n - 1) * c < f"
    using eq m by (simp add: left_diff_distrib)
  show "f \<le> ?n * c"
    using eq m by simp
  show "0 < ?n"
    using assms by (simp add: pos_imp_zdiv_pos_iff)
qed

lemma plan_chunk_size:
  assumes "0 < sint fs" "0 < sint cs" "sint fs + sint cs \<le> 2 ^ 63"
    and n: "n = nat (sint (chunk_count fs cs))" and i: "i < n"
  shows "sint (chunk_size (plan_chunk a fid fs cs (chunk_count fs cs) i)) =
    (if Suc i = n then sint fs - int i * sint cs else sint cs)"
proof -
  let ?k = "sint (chunk_count fs cs)"
  note ceil = ceil_div_bounds [OF assms(1,2)] and cnt = sint_chunk_count [OF assms(1-3)]
  have k: "0 < ?k" "(?k - 1) * sint cs < sint fs" and kn: "int n = ?k"
    using ceil cnt n by auto
  have "int i * sint cs \<le> (?k - 1) * sint cs"
    using i kn assms(2) by (intro mult_right_mono) auto
  then have lo: "int i * sint cs < sint fs"
    using k(2) by linarith
  have nb: "n < 2 ^ 63"
    using kn sint64_bounds(2) [of "chunk_count fs cs"] by (simp add: n)
  then have si: "sint (word_of_nat i :: int64) = int i"
    using i by (intro sint64_of_nat) simp
  have nonneg: "0 \<le> int i * sint cs"
    using assms(2) by simp
  have lt63: "sint fs < 2 ^ 63"
    by (rule sint64_bounds)
  have mul: "sint (word_of_nat i * cs :: int64) = int i * sint cs"
    using sint64_mult [of "word_of_nat i" cs] lo nonneg lt63 by (simp add: si)
  have rem: "sint (fs - word_of_nat i * cs) = sint fs - int i * sint cs"
    using sint64_diff [of fs "word_of_nat i * cs"] lo nonneg lt63 by (simp add: mul)
  have last: "word_of_nat i = chunk_count fs cs - 1 \<longleftrightarrow> Suc i = n"
  proof -
    have "sint (chunk_count fs cs - 1) = ?k - 1"
      using sint64_diff [of "chunk_count fs cs" 1] k(1) sint64_bounds(2) [of "chunk_count fs cs"] by simp
    then have "word_of_nat i = chunk_count fs cs - 1 \<longleftrightarrow> int i = ?k - 1"
      by (metis si sint64_inject)
    also have "\<dots> \<longleftrightarrow> Suc i = n"
      using kn by linarith
    finally show ?thesis .
  qed
  show ?thesis
    using lo by (simp add: plan_chunk_def Let_def last rem word_sless_alt)
qed

lemma sum_list_upt_last:
  fixes f :: "nat \<Rightarrow> int"
  assumes "0 < n" "\<And>i. Suc i < n \<Longrightarrow> f i = c"
  shows "(\<Sum>i \<leftarrow> [0..<n]. f i) = int (n - 1) * c + f (n - 1)"
proof -
  obtain m where m: "n = Suc m"
    using assms(1) by (cases n) auto
  have "(\<Sum>i \<leftarrow> [0..<k]. f i) = int k * c" if "k \<le> m" for k
    using that
  proof (induction k)
    case (Suc k)
    then show ?case
      using assms(2) [of k] by (simp add: m algebra_simps)
  qed simp
  then show ?thesis
    by (simp add: m)
qed

lemma plan_chunks_split:
  assumes "0 < sint fs" "0 < sint cs" "sint fs + sint cs \<le> 2 ^ 63"
    and "plan_chunks a fid fs cs = Ret chunks"
  shows "splits_file fid fs cs chunks" "map chunk_id chunks = map (\<lambda>i. new_id a (2 + i)) [0..<length chunks]"
    "int (length chunks) = (sint fs + sint cs - 1) div sint cs"
proof -
  let ?k = "chunk_count fs cs"
  let ?n = "nat (sint ?k)"
  let ?p = "plan_chunk a fid fs cs ?k"
  from assms(4) have chunks: "chunks = map ?p [0..<?n]"
    by (auto simp: plan_chunks_def Let_def split: if_splits)
  note ceil = ceil_div_bounds [OF assms(1,2)] and cnt = sint_chunk_count [OF assms(1-3)]
  have n0: "0 < ?n"
    using ceil cnt by simp
  note size = plan_chunk_size [OF assms(1-3) refl]
  have last: "int (?n - 1) * sint cs < sint fs" "sint fs \<le> int (?n - 1) * sint cs + sint cs"
    using ceil(1,2) cnt n0 by (simp_all add: of_nat_diff algebra_simps)
  show "int (length chunks) = (sint fs + sint cs - 1) div sint cs"
    using cnt ceil(3) by (simp add: chunks)
  show "map chunk_id chunks = map (\<lambda>i. new_id a (2 + i)) [0..<length chunks]"
    by (simp add: chunks plan_chunk_def Let_def)
  have "(\<Sum>c \<leftarrow> chunks. sint (chunk_size c)) = (\<Sum>i \<leftarrow> [0..<?n]. sint (chunk_size (?p i)))"
    by (simp add: chunks comp_def)
  also have "\<dots> = int (?n - 1) * sint cs + sint (chunk_size (?p (?n - 1)))"
    using n0 by (rule sum_list_upt_last) (simp add: size)
  also have "\<dots> = sint fs"
    using size [of "?n - 1"] n0 by simp
  finally have sum: "(\<Sum>c \<leftarrow> chunks. sint (chunk_size c)) = sint fs" .
  have each: "0 < sint (chunk_size (?p i)) \<and> sint (chunk_size (?p i)) \<le> sint cs
      \<and> (Suc i < ?n \<longrightarrow> chunk_size (?p i) = cs)" if "i < ?n" for i
  proof (cases "Suc i = ?n")
    case True
    then have "i = ?n - 1"
      by simp
    then show ?thesis
      using size [OF that] True last by simp
  next
    case False
    then show ?thesis
      using size [OF that] assms(2) by (simp add: sint64_inject)
  qed
  have "chunk_file (?p i) = fid \<and> chunk_index (?p i) = word_of_nat i" for i
    by (simp add: plan_chunk_def Let_def)
  with each sum show "splits_file fid fs cs chunks"
    by (simp add: splits_file_def chunks)
qed

end
