(* ===== verification/Upload_Properties.thy ===== *)
theory Upload_Properties
  imports Upload_Plan
begin

text \<open>
  The properties of \<open>PrepareUpload\<close>: what a successful call stores and returns, that a failed or
  panicking one stores nothing, when it succeeds, and for which sizes it panics.
\<close>

lemma PrepareUpload_Ret:
  "PrepareUpload e m a fileName fileSize s = (Ret r, s1) \<longleftrightarrow>
     (if 0 < sint (mgr_chunkSize m)
      then \<exists>chunks. plan_chunks a (new_id a 0) fileSize (mgr_chunkSize m) = Ret chunks
             \<and> prepare_store e m a fileName fileSize chunks s = (r, s1)
      else r = Inl (PlainErr ''invalid configured chunk size'') \<and> s1 = s)"
  by (auto simp: PrepareUpload_def Let_def word_sle_eq split: outcome.splits prod.splits)

lemma prepare_store_Inr:
  "prepare_store e m a fileName fileSize chunks s = (Inr (sid, rmap), s1) \<longleftrightarrow>
     sid = new_id a 1 \<and> (\<exists>healthy t. registry_ListHealthyNodes e s = (Inr healthy, t)
       \<and> SelectReplicas (mgr_placement m) (draws a) chunks healthy = Inr rmap
       \<and> WithTx e (prepare_tx e a fileName fileSize chunks) t = (Inr (), s1))"
  (is "?lhs = ?rhs")
proof
  assume ?lhs
  then obtain healthy t where run: "registry_ListHealthyNodes e s = (Inr healthy, t)"
    "(case SelectReplicas (mgr_placement m) (draws a) chunks healthy of
       Inl err \<Rightarrow> failR err
     | Inr replicaMap \<Rightarrow> bindR (WithTx e (prepare_tx e a fileName fileSize chunks))
         (\<lambda>_. retR (new_id a 1, replicaMap))) t = (Inr (sid, rmap), s1)"
    unfolding prepare_store_def bindR_eq_Inr by blast
  then show ?rhs
    by (cases "SelectReplicas (mgr_placement m) (draws a) chunks healthy") (auto simp: bindR_eq_Inr)
next
  assume ?rhs
  then show ?lhs
    by (auto simp: prepare_store_def bindR_eq_Inr)
qed

lemma prepare_tx_InrD:
  assumes "prepare_tx e a fileName fileSize chunks s = (Inr u, s1)"
  shows "conn_tables s1 = (conn_tables s)
    \<lparr>t_files := t_files (conn_tables s) @ [prepared_file a fileName fileSize],
     t_sessions := t_sessions (conn_tables s) @ [prepared_session a],
     t_chunks := t_chunks (conn_tables s) @ chunks\<rparr>"
proof -
  obtain s2 s3 where cf: "CreateFile e (prepared_file a fileName fileSize) s = (Inr (), s2)"
    and cs: "CreateUploadSession e (prepared_session a) s2 = (Inr (), s3)"
    and ic: "InsertChunks e chunks s3 = (Inr (), s1)"
    using assms by (auto simp: prepare_tx_def bindR_eq_Inr)
  from CreateFile_InrD [OF cf]
  have T2: "conn_tables s2 = (conn_tables s)\<lparr>t_files := t_files (conn_tables s) @ [prepared_file a fileName fileSize]\<rparr>"
    by (auto simp: query_insert_file_def split: if_splits)
  from CreateUploadSession_InrD [OF cs]
  have T3: "conn_tables s3 = (conn_tables s2)\<lparr>t_sessions := t_sessions (conn_tables s2) @ [prepared_session a]\<rparr>"
    by (auto simp: query_insert_upload_session_def split: if_splits)
  from insert_all_chunks_Inr [OF InsertChunks_InrD [OF ic]]
  show ?thesis
    by (simp add: T2 T3)
qed

lemma healthy_ids:
  assumes "registry_ListHealthyNodes e s = (Inr healthy, t)" "tables_wf (conn_tables s)"
  shows "conn_tables t = conn_tables s" "distinct (map node_id healthy)"
    "node_id ` set healthy \<subseteq> {nid. healthy_node (conn_tables s) nid}"
proof -
  from assms(1) obtain p k where rows: "healthy = take k (query_select_healthy_nodes p (conn_tables s))"
    and t: "conn_tables t = conn_tables s"
    unfolding registry_ListHealthyNodes_def using ListHealthyNodes_InrD by blast
  show "conn_tables t = conn_tables s"
    by (rule t)
  show "distinct (map node_id healthy)"
    using distinct_select_healthy [OF assms(2), of p] by (simp add: rows take_map [symmetric] del: take_map)
  show "node_id ` set healthy \<subseteq> {nid. healthy_node (conn_tables s) nid}"
    by (auto simp: rows healthy_node_def dest!: in_set_takeD)
qed

lemma PrepareUpload_tables:
  assumes "tables_wf (conn_tables s)"
    and "PrepareUpload e m a fileName fileSize s = (Ret (Inr (sid, rmap)), s1)"
  shows "\<exists>chunks. plan_chunks a (new_id a 0) fileSize (mgr_chunkSize m) = Ret chunks
    \<and> 0 < sint (mgr_chunkSize m) \<and> sid = new_id a 1
    \<and> conn_tables s1 = (conn_tables s)
        \<lparr>t_files := t_files (conn_tables s) @ [prepared_file a fileName fileSize],
         t_sessions := t_sessions (conn_tables s) @ [prepared_session a],
         t_chunks := t_chunks (conn_tables s) @ chunks\<rparr>
    \<and> distinct (map fst rmap) \<and> fst ` set rmap = chunk_id ` set chunks
    \<and> 0 < ReplicationFactor (mgr_placement m)
    \<and> (\<forall>(c, ns) \<in> set rmap. int (length ns) = ReplicationFactor (mgr_placement m) \<and> distinct ns
         \<and> (\<forall>n \<in> set ns. healthy_node (conn_tables s) n))"
proof -
  obtain chunks healthy t where plan: "plan_chunks a (new_id a 0) fileSize (mgr_chunkSize m) = Ret chunks"
    and pos: "0 < sint (mgr_chunkSize m)" "sid = new_id a 1"
    and list: "registry_ListHealthyNodes e s = (Inr healthy, t)"
    and sel: "SelectReplicas (mgr_placement m) (draws a) chunks healthy = Inr rmap"
    and tx: "WithTx e (prepare_tx e a fileName fileSize chunks) t = (Inr (), s1)"
    using assms(2) by (auto simp: PrepareUpload_Ret prepare_store_Inr split: if_splits)
  note nodes = healthy_ids [OF list assms(1)]
  obtain s2 s3 where "conn_tables s2 = conn_tables t" "conn_tables s1 = conn_tables s3"
    "prepare_tx e a fileName fileSize chunks s2 = (Inr (), s3)"
    using WithTx_InrD [OF tx] by auto
  with prepare_tx_InrD [of e a fileName fileSize chunks s2] nodes(1)
  have "conn_tables s1 = (conn_tables s)
        \<lparr>t_files := t_files (conn_tables s) @ [prepared_file a fileName fileSize],
         t_sessions := t_sessions (conn_tables s) @ [prepared_session a],
         t_chunks := t_chunks (conn_tables s) @ chunks\<rparr>"
    by simp
  moreover have map: "0 < ReplicationFactor (mgr_placement m) \<and> distinct (map fst rmap)
     \<and> fst ` set rmap = chunk_id ` set chunks
     \<and> (\<forall>(c, ns) \<in> set rmap. good_selection (ReplicationFactor (mgr_placement m)) healthy ns)"
    using sel select_loop_good [OF _ _ nodes(2), of "replicationFactor (mgr_placement m)" "[]" "draws a" 0 chunks]
    by (auto simp: SelectReplicas_def ReplicationFactor_def split: if_splits)
  moreover have "\<forall>(c, ns) \<in> set rmap. int (length ns) = ReplicationFactor (mgr_placement m)
      \<and> distinct ns \<and> (\<forall>n \<in> set ns. healthy_node (conn_tables s) n)"
  proof (rule ballI, clarify)
    fix c ns
    assume "(c, ns) \<in> set rmap"
    with map have "good_selection (ReplicationFactor (mgr_placement m)) healthy ns"
      by blast
    with nodes(3) show "int (length ns) = ReplicationFactor (mgr_placement m) \<and> distinct ns
        \<and> (\<forall>n \<in> set ns. healthy_node (conn_tables s) n)"
      unfolding good_selection_def by blast
  qed
  ultimately show ?thesis
    using plan pos map by blast
qed

text \<open>
  C9. A successful \<open>PrepareUpload\<close> of a positive size whose sum with the chunk size does not
  leave the 64-bit range adds exactly one pending file, one preparing session for it, and chunks
  that partition the file: indices \<open>0, 1, ...\<close>, every size positive and at most the chunk size,
  all but the last exactly the chunk size, and the sizes add up to the file size. The returned
  map gives each of these chunks as many distinct nodes as the replication factor, all of them
  healthy at that moment. Nothing else changes.
\<close>

theorem PrepareUpload_partitions:
  assumes "tables_wf (conn_tables s)" "0 < sint fileSize"
    and "sint fileSize + sint (mgr_chunkSize m) \<le> 2 ^ 63"
    and "PrepareUpload e m a fileName fileSize s = (Ret (Inr (sid, rmap)), s1)"
  shows "\<exists>chunks. splits_file (new_id a 0) fileSize (mgr_chunkSize m) chunks
    \<and> conn_tables s1 = (conn_tables s)
        \<lparr>t_files := t_files (conn_tables s) @ [prepared_file a fileName fileSize],
         t_sessions := t_sessions (conn_tables s) @ [prepared_session a],
         t_chunks := t_chunks (conn_tables s) @ chunks\<rparr>
    \<and> sid = sess_id (prepared_session a)
    \<and> distinct (map fst rmap) \<and> fst ` set rmap = chunk_id ` set chunks
    \<and> (\<forall>(c, ns) \<in> set rmap. int (length ns) = ReplicationFactor (mgr_placement m) \<and> distinct ns
         \<and> (\<forall>n \<in> set ns. healthy_node (conn_tables s) n))"
proof -
  from PrepareUpload_tables [OF assms(1,4)] obtain chunks where
    "plan_chunks a (new_id a 0) fileSize (mgr_chunkSize m) = Ret chunks" "0 < sint (mgr_chunkSize m)"
    and rest: "sid = new_id a 1" "conn_tables s1 = (conn_tables s)
        \<lparr>t_files := t_files (conn_tables s) @ [prepared_file a fileName fileSize],
         t_sessions := t_sessions (conn_tables s) @ [prepared_session a],
         t_chunks := t_chunks (conn_tables s) @ chunks\<rparr>"
      "distinct (map fst rmap) \<and> fst ` set rmap = chunk_id ` set chunks"
      "\<forall>(c, ns) \<in> set rmap. int (length ns) = ReplicationFactor (mgr_placement m) \<and> distinct ns
         \<and> (\<forall>n \<in> set ns. healthy_node (conn_tables s) n)"
    by blast
  then have "splits_file (new_id a 0) fileSize (mgr_chunkSize m) chunks"
    using assms(2,3) by (intro plan_chunks_split(1))
  with rest show ?thesis
    by (auto simp: prepared_session_def)
qed

subsection \<open>A call that fails or panics stores nothing\<close>

lemma prepare_store_InlD:
  assumes "prepare_store e m a fileName fileSize chunks s = (Inl err, s1)"
  shows "conn_tables s1 = conn_tables s"
proof (cases "registry_ListHealthyNodes e s")
  case (Pair r t)
  then have t: "conn_tables t = conn_tables s"
    unfolding registry_ListHealthyNodes_def by (metis read_tables(7) snd_conv)
  show ?thesis
  proof (cases r)
    case Inl
    with Pair t assms show ?thesis
      by (simp add: prepare_store_def bindR_def)
  next
    case (Inr nodes)
    let ?tx = "WithTx e (prepare_tx e a fileName fileSize chunks) t"
    show ?thesis
    proof (cases "SelectReplicas (mgr_placement m) (draws a) chunks nodes")
      case Inl
      with Inr Pair t assms show ?thesis
        by (simp add: prepare_store_def bindR_def)
    next
      case (Inr rmap)
      then have "?tx = (Inl err, s1)"
        using \<open>r = Inr nodes\<close> Pair assms
        by (auto simp: prepare_store_def bindR_def split: prod.splits sum.splits)
      with t show ?thesis
        by (simp add: WithTx_InlD)
    qed
  qed
qed

text \<open>
  A \<open>PrepareUpload\<close> that reports an error leaves the tables as they were, whatever failed and
  wherever, and one that panics has not touched the database at all.
\<close>

lemma PrepareUpload_atomic:
  "case PrepareUpload e m a fileName fileSize s of
     (Panic d, s1) \<Rightarrow> s1 = s
   | (Ret (Inl err), s1) \<Rightarrow> conn_tables s1 = conn_tables s
   | (Ret (Inr x), s1) \<Rightarrow> conn_tables s1 \<noteq> conn_tables s"
proof (cases "PrepareUpload e m a fileName fileSize s")
  case (Pair r s1)
  show ?thesis
  proof (cases r)
    case (Panic d)
    with Pair show ?thesis
      by (auto simp: PrepareUpload_def Let_def split: if_splits outcome.splits prod.splits)
  next
    case (Ret q)
    show ?thesis
    proof (cases q)
      case (Inr x)
      with Pair Ret obtain chunks t where "WithTx e (prepare_tx e a fileName fileSize chunks) t = (Inr (), s1)"
        "conn_tables t = conn_tables s"
        by (cases x) (auto simp: PrepareUpload_Ret prepare_store_Inr registry_ListHealthyNodes_def
            split: if_splits dest: ListHealthyNodes_InrD)
      then obtain s2 s3 where "conn_tables s2 = conn_tables s" "conn_tables s1 = conn_tables s3"
        "prepare_tx e a fileName fileSize chunks s2 = (Inr (), s3)"
        using WithTx_InrD by metis
      with prepare_tx_InrD [of e a fileName fileSize chunks s2] have
        "length (t_files (conn_tables s1)) = Suc (length (t_files (conn_tables s)))"
        by simp
      with Pair Ret Inr show ?thesis
        by (auto dest: arg_cong)
    next
      case (Inl err)
      with Pair Ret consider "s1 = s"
        | chunks where "prepare_store e m a fileName fileSize chunks s = (Inl err, s1)"
        by (auto simp: PrepareUpload_Ret split: if_splits)
      then have "conn_tables s1 = conn_tables s"
      proof cases
        case 2
        then show ?thesis
          by (rule prepare_store_InlD)
      qed simp
      with Pair Ret Inl show ?thesis
        by simp
    qed
  qed
qed

subsection \<open>Sizes for which the call panics\<close>

text \<open>
  C32. A file size so large that adding the chunk size wraps around makes the chunk count negative
  and \<open>PrepareUpload\<close> panics in \<open>make\<close>, for every state of the system. The guards before it only
  require a positive size.
\<close>

theorem PrepareUpload_overflow_panics:
  assumes "0 < sint (mgr_chunkSize m)" "sint (mgr_chunkSize m) \<le> 2 ^ 62"
    and "2 ^ 63 < sint fileSize + sint (mgr_chunkSize m)"
  shows "\<exists>d. PrepareUpload e m a fileName fileSize s = (Panic d, s)"
  using assms sint_chunk_count_overflow [OF assms(2,1,3)]
  by (simp add: PrepareUpload_def plan_chunks_def makeslice_panics_def word_sle_eq)

theorem PrepareUpload_overflow_panics_witness:
  "\<exists>d. PrepareUpload plain_engine (NewManager (NewEngine 2) 4194304)
     \<lparr>new_id = (\<lambda>i. dec_nat i), clock = (\<lambda>i. 0), draws = (\<lambda>k i. 0)\<rparr> ''huge'' 9223372036854775807 replica_example
   = (Panic d, replica_example)"
  by (rule PrepareUpload_overflow_panics) (simp_all add: NewManager_def)

subsection \<open>When the call succeeds\<close>

text \<open>What the identifiers of a library that never repeats itself satisfy.\<close>

definition fresh_ids :: "ambient \<Rightarrow> tables \<Rightarrow> bool" where
  "fresh_ids a T \<longleftrightarrow> inj (new_id a) \<and> (\<forall>i. new_id a i \<notin> file_id ` set (t_files T)
     \<and> new_id a i \<notin> sess_id ` set (t_sessions T) \<and> new_id a i \<notin> chunk_id ` set (t_chunks T))"

lemma distinct_pair_snd: "distinct (map g xs) \<Longrightarrow> distinct (map (\<lambda>x. (f x, g x)) xs)"
  by (induction xs) auto

lemma plan_keys:
  assumes "0 < sint fs" "0 < sint cs" "sint fs + sint cs \<le> 2 ^ 63"
    and plan: "plan_chunks a fid fs cs = Ret chunks" and inj: "inj (new_id a)"
  shows "distinct (map chunk_id chunks)"
    and "distinct (map (\<lambda>c. (chunk_file c, chunk_index c)) chunks)"
    and "chunk_id ` set chunks \<subseteq> range (new_id a)"
    and "chunk_file ` set chunks = {fid}"
proof -
  note split = plan_chunks_split [OF assms(1-3) plan]
  let ?n = "length chunks"
  have inj2: "inj_on (\<lambda>i. new_id a (Suc (Suc i))) A" for A
    using inj by (auto simp: inj_on_def)
  show "distinct (map chunk_id chunks)"
    unfolding split(2) by (simp add: distinct_map inj2)
  show "chunk_id ` set chunks \<subseteq> range (new_id a)"
    using split(2) by (metis (no_types, lifting) image_subset_iff list.set_map rangeI)
  have "?n < 2 ^ 63"
  proof -
    have "int ?n \<le> sint fs + sint cs - 1"
      unfolding split(3) using assms by (intro zdiv_le_self) auto
    with assms(3) have "int ?n < int (2 ^ 63)"
      by simp
    then show ?thesis
      by (simp only: of_nat_less_iff)
  qed
  then have "inj_on (\<lambda>i. word_of_nat i :: int64) (set [0..<?n])"
    using sint64_of_nat by (intro inj_onI) (metis atLeastLessThan_iff nat_int order.strict_trans set_upt)
  moreover have "map chunk_index chunks = map (\<lambda>i. word_of_nat i) [0..<?n]"
    using split(1) by (intro nth_equalityI) (auto simp: splits_file_def)
  ultimately have "distinct (map chunk_index chunks)"
    by (simp add: distinct_map)
  then show "distinct (map (\<lambda>c. (chunk_file c, chunk_index c)) chunks)"
    by (rule distinct_pair_snd)
  have "0 < int ?n"
    unfolding split(3) by (rule ceil_div_bounds(3) [OF assms(1,2)])
  then obtain c where "c \<in> set chunks"
    by (cases chunks) auto
  moreover have "\<forall>c \<in> set chunks. chunk_file c = fid"
    using split(1) by (simp add: splits_file_def all_set_conv_all_nth)
  ultimately show "chunk_file ` set chunks = {fid}"
    by (metis image_cong image_constant)
qed

lemma prepare_tx_ok:
  assumes "no_faults e" "tables_wf (conn_tables s)" "fresh_ids a (conn_tables s)"
    and "distinct (map chunk_id chunks)" "distinct (map (\<lambda>c. (chunk_file c, chunk_index c)) chunks)"
    and "chunk_id ` set chunks \<subseteq> range (new_id a)" "chunk_file ` set chunks = {new_id a 0}"
  shows "\<exists>s1. prepare_tx e a fileName fileSize chunks s = (Inr (), s1)"
proof -
  let ?T = "conn_tables s"
  let ?T1 = "?T\<lparr>t_files := t_files ?T @ [prepared_file a fileName fileSize]\<rparr>"
  let ?T2 = "?T1\<lparr>t_sessions := t_sessions ?T1 @ [prepared_session a]\<rparr>"
  have "query_insert_file (prepared_file a fileName fileSize) ?T = Inr ?T1"
    using assms(3) by (simp add: query_insert_file_def prepared_file_def fresh_ids_def)
  moreover have "query_insert_upload_session (prepared_session a) ?T1 = Inr ?T2"
    using assms(3) by (simp add: query_insert_upload_session_def prepared_session_def prepared_file_def fresh_ids_def)
  moreover have "insert_all query_insert_chunk chunks ?T2 = Inr (?T2\<lparr>t_chunks := t_chunks ?T2 @ chunks\<rparr>)"
  proof (rule insert_all_chunks_ok)
    show "chunk_id ` set chunks \<inter> chunk_id ` set (t_chunks ?T2) = {}"
      using assms(3,6) by (force simp: fresh_ids_def)
    have "new_id a 0 \<notin> chunk_file ` set (t_chunks ?T)"
      using assms(2,3) by (force simp: tables_wf_def fresh_ids_def)
    moreover have "\<And>c. c \<in> set chunks \<Longrightarrow> chunk_file c = new_id a 0"
      using assms(7) by blast
    ultimately show "(\<lambda>c. (chunk_file c, chunk_index c)) ` set chunks
        \<inter> (\<lambda>c. (chunk_file c, chunk_index c)) ` set (t_chunks ?T2) = {}"
      by (fastforce simp: image_iff)
    show "chunk_file ` set chunks \<subseteq> file_id ` set (t_files ?T2)"
      using assms(7) by (simp add: prepared_file_def)
  qed (use assms in simp_all)
  ultimately show ?thesis
    using InsertChunks_ok [OF assms(1), of chunks "s\<lparr>conn_tables := ?T2, conn_tick := Suc (Suc (conn_tick s))\<rparr>"]
    by (auto simp: prepare_tx_def CreateFile_def CreateUploadSession_def bindR_def mapErrR_def
        exec_insert_ok [OF assms(1)])
qed

lemma PrepareUpload_ok:
  assumes "no_faults e" "complete_scans e" "tables_wf (conn_tables s)" "fresh_ids a (conn_tables s)"
    and "0 < sint fileSize" "0 < sint (mgr_chunkSize m)" "sint fileSize + sint (mgr_chunkSize m) \<le> 2 ^ 63"
    and "48 * ((sint fileSize + sint (mgr_chunkSize m) - 1) div sint (mgr_chunkSize m)) \<le> 2 ^ 48"
    and "0 < ReplicationFactor (mgr_placement m)"
    and "ReplicationFactor (mgr_placement m) \<le>
           int (length (filter (\<lambda>n. node_status n = NodeStatusHealthy) (t_nodes (conn_tables s))))"
  shows "\<exists>rmap s1. PrepareUpload e m a fileName fileSize s = (Ret (Inr (new_id a 1, rmap)), s1)"
proof -
  let ?cs = "mgr_chunkSize m"
  note count = sint_chunk_count [OF assms(5-7)] and ceil = ceil_div_bounds(3) [OF assms(5,6)]
  obtain chunks where plan: "plan_chunks a (new_id a 0) fileSize ?cs = Ret chunks"
    using count ceil assms(8) by (simp add: plan_chunks_def makeslice_panics_def Let_def)
  obtain p t where list: "registry_ListHealthyNodes e s = (Inr (query_select_healthy_nodes p (conn_tables s)), t)"
    and t: "conn_tables t = conn_tables s"
    using ListHealthyNodes_ok [OF assms(1,2), of s] by (auto simp: registry_ListHealthyNodes_def)
  obtain rmap where sel: "SelectReplicas (mgr_placement m) (draws a) chunks
      (query_select_healthy_nodes p (conn_tables s)) = Inr rmap"
    using assms(9,10) by (simp add: SelectReplicas_def ReplicationFactor_def query_select_healthy_nodes_def)
  note keys = plan_keys [OF assms(5-7) plan]
  obtain s2 where "prepare_tx e a fileName fileSize chunks (t\<lparr>conn_tick := Suc (conn_tick t)\<rparr>) = (Inr (), s2)"
    using prepare_tx_ok [OF assms(1), of "t\<lparr>conn_tick := Suc (conn_tick t)\<rparr>" a chunks fileName fileSize]
      keys assms(3,4) by (auto simp: t fresh_ids_def)
  from WithTx_ok [where fn = "prepare_tx e a fileName fileSize chunks" and s = t, OF assms(1) this] have
    "prepare_store e m a fileName fileSize chunks s = (Inr (new_id a 1, rmap), s2\<lparr>conn_tick := Suc (conn_tick s2)\<rparr>)"
    using list sel by (simp add: prepare_store_Inr)
  with plan assms(6) show ?thesis
    by (auto simp: PrepareUpload_Ret)
qed

text \<open>
  \<open>PrepareUpload\<close> does succeed: with a database that answers, fresh identifiers, at least as
  many healthy nodes as the (positive) replication factor, and a positive size that neither
  overflows nor needs an array beyond the address space, it returns the new session and a map.
\<close>

lemma PrepareUpload_succeeds:
  assumes "no_faults e" "complete_scans e" "tables_wf (conn_tables s)" "fresh_ids a (conn_tables s)"
    and "0 < sint fileSize" "0 < sint (mgr_chunkSize m)" "sint fileSize + sint (mgr_chunkSize m) \<le> 2 ^ 63"
    and "48 * ((sint fileSize + sint (mgr_chunkSize m) - 1) div sint (mgr_chunkSize m)) \<le> 2 ^ 48"
    and "0 < ReplicationFactor (mgr_placement m)"
    and "ReplicationFactor (mgr_placement m) \<le>
           int (length (filter (\<lambda>n. node_status n = NodeStatusHealthy) (t_nodes (conn_tables s))))"
  shows "\<exists>rmap s1. PrepareUpload e m a fileName fileSize s = (Ret (Inr (new_id a 1, rmap)), s1)"
  using assms by (rule PrepareUpload_ok)

subsection \<open>An example\<close>

definition upload_conn :: conn where
  "upload_conn = \<lparr>conn_tables = empty_tables\<lparr>foreign_keys := True, t_nodes := three_nodes\<rparr>, conn_tick = 0\<rparr>"

definition upload_mgr :: manager where
  "upload_mgr = NewManager (NewEngine 2) 4"

definition upload_ambient :: ambient where
  "upload_ambient = \<lparr>new_id = (\<lambda>i. replicate (Suc i) CHR ''x''), clock = (\<lambda>i. second), draws = (\<lambda>k i. k)\<rparr>"

lemma upload_example:
  "no_faults plain_engine" "complete_scans plain_engine" "tables_wf (conn_tables upload_conn)"
  "fresh_ids upload_ambient (conn_tables upload_conn)"
  "mgr_chunkSize upload_mgr = 4" "ReplicationFactor (mgr_placement upload_mgr) = 2"
  "length (filter (\<lambda>n. node_status n = NodeStatusHealthy) (t_nodes (conn_tables upload_conn))) = 3"
proof -
  have "inj (new_id upload_ambient)"
    by (rule injI) (simp add: upload_ambient_def replicate_eq_replicate)
  then show "fresh_ids upload_ambient (conn_tables upload_conn)"
    by (simp add: fresh_ids_def upload_conn_def empty_tables_def)
  show "tables_wf (conn_tables upload_conn)"
    using three_nodes_distinct by (simp add: tables_wf_def upload_conn_def empty_tables_def)
qed (simp_all add: upload_mgr_def NewManager_def NewEngine_def ReplicationFactor_def upload_conn_def
    empty_tables_def three_nodes_def)

lemma upload_example_ok:
  "\<exists>rmap s1. PrepareUpload plain_engine upload_mgr upload_ambient ''report'' 10 upload_conn
     = (Ret (Inr (new_id upload_ambient 1, rmap)), s1)"
  by (rule PrepareUpload_ok) (simp_all add: upload_example)

theorem PrepareUpload_partitions_witness:
  "\<exists>sid rmap s1 chunks. PrepareUpload plain_engine upload_mgr upload_ambient ''report'' 10 upload_conn
       = (Ret (Inr (sid, rmap)), s1)
     \<and> splits_file (new_id upload_ambient 0) 10 4 chunks \<and> fst ` set rmap = chunk_id ` set chunks"
proof -
  from upload_example_ok obtain rmap s1 where
    run: "PrepareUpload plain_engine upload_mgr upload_ambient ''report'' 10 upload_conn
       = (Ret (Inr (new_id upload_ambient 1, rmap)), s1)"
    by blast
  from PrepareUpload_partitions [OF upload_example(3) _ _ run] run show ?thesis
    by (auto simp: upload_example)
qed

end
