(* ===== verification/Commit.thy ===== *)
theory Commit
  imports Manifest
begin

text \<open>
  The laws of \<open>CommitUpload\<close>: what its validation loops accept, which requests it accepts as a
  condition on the tables (\<open>commit_allowed\<close>), and what an accepted one writes
  (\<open>commit_effect\<close>).
\<close>

subsection \<open>The validation loops\<close>

definition replica_rows :: "replica_map \<Rightarrow> location_row list" where
  "replica_rows rm = concat (map (\<lambda>(c, ns). map (\<lambda>n. \<lparr>loc_chunk = c, loc_node = n\<rparr>) ns) rm)"

lemma replica_rows_simps [simp]:
  "replica_rows [] = []"
  "replica_rows ((c, ns) # rm) = map (\<lambda>n. \<lparr>loc_chunk = c, loc_node = n\<rparr>) ns @ replica_rows rm"
  by (simp_all add: replica_rows_def)

lemma loc_key_row [simp]: "loc_key \<lparr>loc_chunk = c, loc_node = n\<rparr> = (c, n)"
  by (simp add: loc_key_def)

lemma loc_key_replica_rows:
  "loc_key ` set (replica_rows rm) = {(c, n). \<exists>ns. (c, ns) \<in> set rm \<and> n \<in> set ns}"
proof (induction rm)
  case (Cons p rm)
  obtain c ns where p: "p = (c, ns)"
    by (cases p)
  have "loc_key ` set (replica_rows (p # rm)) = Pair c ` set ns \<union> loc_key ` set (replica_rows rm)"
    by (simp add: p image_Un image_image)
  then show ?case
    unfolding Cons.IH by (auto simp: p)
qed simp

lemma loc_chunk_replica_rows: "loc_chunk ` set (replica_rows rm) \<subseteq> fst ` set rm"
  by (induction rm) (auto simp: image_subset_iff)

lemma distinct_replica_rows:
  assumes "distinct (map fst rm)"
  shows "distinct (map loc_key (replica_rows rm)) \<longleftrightarrow> (\<forall>(c, ns) \<in> set rm. distinct ns)"
  using assms
proof (induction rm)
  case (Cons p rm)
  obtain c ns where p: "p = (c, ns)"
    by (cases p)
  have "distinct (map loc_key (map (\<lambda>n. \<lparr>loc_chunk = c, loc_node = n\<rparr>) ns)) \<longleftrightarrow> distinct ns"
    by (simp add: comp_def distinct_map inj_on_def)
  moreover have "loc_key ` set (map (\<lambda>n. \<lparr>loc_chunk = c, loc_node = n\<rparr>) ns) \<inter> loc_key ` set (replica_rows rm) = {}"
    using Cons.prems by (force simp: p loc_key_replica_rows image_image)
  then have "Pair c ` set ns \<inter> loc_key ` set (replica_rows rm) = {}"
    by (simp add: image_image)
  ultimately show ?case
    using Cons by (simp add: p)
qed simp

lemma check_nodes_eq:
  "check_nodes c ns acc =
     (if [] \<in> set ns then Inl (PlainErr (''empty nodeID for chunk '' @ c))
      else Inr (acc @ map (\<lambda>n. \<lparr>loc_chunk = c, loc_node = n\<rparr>) ns))"
  by (induction ns arbitrary: acc) auto

definition replicas_valid :: "int \<Rightarrow> string list \<Rightarrow> replica_map \<Rightarrow> bool" where
  "replicas_valid rf valid rm \<longleftrightarrow>
     (\<forall>(c, ns) \<in> set rm. c \<in> set valid \<and> rf \<le> int (length ns) \<and> [] \<notin> set ns)"

lemma check_replicas_Inr:
  "check_replicas rf valid rm acc = Inr locs \<longleftrightarrow>
     replicas_valid rf valid rm \<and> locs = acc @ replica_rows rm"
proof (induction rm arbitrary: acc)
  case (Cons p rm)
  then show ?case
    by (cases p) (auto simp: check_nodes_eq replicas_valid_def)
qed (auto simp: replicas_valid_def)

lemma check_replicas_Inl:
  "(\<exists>err. check_replicas rf valid rm acc = Inl err) \<longleftrightarrow> \<not> replicas_valid rf valid rm"
proof (cases "check_replicas rf valid rm acc")
  case Inl
  then show ?thesis
    using check_replicas_Inr [of rf valid rm acc "acc @ replica_rows rm"] by simp
next
  case (Inr locs)
  then show ?thesis
    using check_replicas_Inr [of rf valid rm acc locs] by simp
qed

lemma replicas_valid_reorder [simp]: "replicas_valid rf valid (reorder p rm) = replicas_valid rf valid rm"
  by (simp add: replicas_valid_def)

subsection \<open>The condition and the effect of a commit\<close>

definition file_chunk_ids :: "tables \<Rightarrow> string \<Rightarrow> string set" where
  "file_chunk_ids T fid = chunk_id ` set (filter (\<lambda>c. chunk_file c = fid) (t_chunks T))"

text \<open>The replica map covers exactly the chunks of the file, with enough distinct new replicas each.\<close>

definition replicas_cover :: "int \<Rightarrow> tables \<Rightarrow> string \<Rightarrow> replica_map \<Rightarrow> bool" where
  "replicas_cover rf T fid rm \<longleftrightarrow>
     file_chunk_ids T fid \<noteq> {} \<and> fst ` set rm = file_chunk_ids T fid
     \<and> (\<forall>(c, ns) \<in> set rm. rf \<le> int (length ns) \<and> distinct ns \<and> [] \<notin> set ns
          \<and> (\<forall>n \<in> set ns. (c, n) \<notin> loc_key ` set (t_locations T)))"

text \<open>The file a session in preparation is for, while that file is pending.\<close>

definition pending_file :: "tables \<Rightarrow> string \<Rightarrow> file_row option" where
  "pending_file T sid =
     (case query_select_upload_session_by_id sid T of
        None \<Rightarrow> None
      | Some u \<Rightarrow> if sess_status u \<noteq> UploadStatusPreparing then None
          else (case query_select_file_by_id (sess_file u) T of
              None \<Rightarrow> None
            | Some f \<Rightarrow> if file_status f = FileStatusPending then Some f else None))"

definition committed_upload :: "tables \<Rightarrow> string \<Rightarrow> bool" where
  "committed_upload T sid \<longleftrightarrow>
     (\<exists>u. query_select_upload_session_by_id sid T = Some u \<and>
        (sess_status u = UploadStatusCommitted \<or>
         sess_status u = UploadStatusPreparing \<and>
           (\<exists>f. query_select_file_by_id (sess_file u) T = Some f \<and> file_status f = FileStatusCommitted)))"

definition commit_allowed :: "int \<Rightarrow> tables \<Rightarrow> string \<Rightarrow> replica_map \<Rightarrow> bool" where
  "commit_allowed rf T sid rm \<longleftrightarrow>
     committed_upload T sid
     \<or> (\<exists>f. pending_file T sid = Some f \<and> replicas_cover rf T (file_id f) rm)"

definition commit_tables :: "nat list \<Rightarrow> string \<Rightarrow> replica_map \<Rightarrow> file_row \<Rightarrow> tables \<Rightarrow> tables" where
  "commit_tables order sid rm f T =
     query_update_upload_session_status UploadStatusCommitted sid
       (query_update_file_status FileStatusCommitted (file_id f)
         (T\<lparr>t_locations := t_locations T @ replica_rows (reorder order rm)\<rparr>))"

text \<open>A committed session is left alone; a pending one gets its replicas and its new status.\<close>

definition commit_effect :: "nat list \<Rightarrow> string \<Rightarrow> replica_map \<Rightarrow> tables \<Rightarrow> tables" where
  "commit_effect order sid rm T =
     (case pending_file T sid of None \<Rightarrow> T | Some f \<Rightarrow> commit_tables order sid rm f T)"

lemma pending_file_Some:
  "pending_file T sid = Some f \<longleftrightarrow>
     (\<exists>u. query_select_upload_session_by_id sid T = Some u \<and> sess_status u = UploadStatusPreparing
        \<and> query_select_file_by_id (sess_file u) T = Some f \<and> file_status f = FileStatusPending)"
  by (auto simp: pending_file_def split: option.splits)

lemma pending_not_committed: "committed_upload T sid \<Longrightarrow> pending_file T sid = None"
  by (auto simp: pending_file_def committed_upload_def)

subsection \<open>The body of the transaction\<close>

lemma GetChunksByFileID_ok:
  assumes "no_faults e" "complete_scans e"
  shows "\<exists>p s1. GetChunksByFileID e fid s = (Inr (query_select_chunks_by_file_id p fid (conn_tables s)), s1)
           \<and> conn_tables s1 = conn_tables s"
  using assms by (auto simp: GetChunksByFileID_def mapErrR_def Query_ok)

lemma covering_map_valid:
  assumes "replicas_cover rf T fid rm" "set valid = file_chunk_ids T fid"
  shows "replicas_valid rf valid rm"
  unfolding replicas_valid_def
proof (rule ballI, clarify)
  fix c ns
  assume "(c, ns) \<in> set rm"
  with assms show "c \<in> set valid \<and> rf \<le> int (length ns) \<and> [] \<notin> set ns"
    unfolding replicas_cover_def by (metis (mono_tags, lifting) case_prodD fst_conv image_eqI)
qed

lemma cover_iff:
  assumes wf: "tables_wf T" and chunks: "chunks = query_select_chunks_by_file_id p fid T"
    and dist: "distinct (map fst rm)"
  shows "replicas_cover rf T fid rm \<longleftrightarrow>
    chunks \<noteq> [] \<and> length rm = length chunks \<and> replicas_valid rf (map chunk_id chunks) rm
    \<and> distinct (map loc_key (replica_rows rm))
    \<and> loc_key ` set (replica_rows rm) \<inter> loc_key ` set (t_locations T) = {}"
proof -
  have ids: "set (map chunk_id chunks) = file_chunk_ids T fid"
    by (auto simp: chunks file_chunk_ids_def)
  have "distinct (map chunk_id chunks)"
    unfolding chunks by (rule distinct_select_chunks [OF wf])
  from distinct_card [OF this] have card: "card (file_chunk_ids T fid) = length chunks"
    unfolding ids by simp
  have keys: "card (fst ` set rm) = length rm"
    using distinct_card [OF dist] by simp
  have fin: "finite (file_chunk_ids T fid)"
    by (simp add: file_chunk_ids_def)
  have "length chunks = 0 \<longleftrightarrow> file_chunk_ids T fid = {}"
    unfolding card [symmetric] using fin by simp
  then have ne: "file_chunk_ids T fid \<noteq> {} \<longleftrightarrow> chunks \<noteq> []"
    by simp
  have sub: "replicas_valid rf (map chunk_id chunks) rm \<Longrightarrow> fst ` set rm \<subseteq> file_chunk_ids T fid"
    unfolding ids [symmetric] by (auto simp: replicas_valid_def)
  have cover_keys: "replicas_valid rf (map chunk_id chunks) rm \<Longrightarrow>
      fst ` set rm = file_chunk_ids T fid \<longleftrightarrow> length rm = length chunks"
    unfolding card [symmetric] keys [symmetric] using sub fin card_subset_eq by metis
  have locs: "(\<forall>(c, ns) \<in> set rm. distinct ns \<and> (\<forall>n \<in> set ns. (c, n) \<notin> loc_key ` set (t_locations T)))
      \<longleftrightarrow> distinct (map loc_key (replica_rows rm))
        \<and> loc_key ` set (replica_rows rm) \<inter> loc_key ` set (t_locations T) = {}"
    unfolding distinct_replica_rows [OF dist] loc_key_replica_rows by blast
  show ?thesis
  proof
    assume cov: "replicas_cover rf T fid rm"
    then have "replicas_valid rf (map chunk_id chunks) rm"
      by (rule covering_map_valid) (rule ids)
    moreover have "fst ` set rm = file_chunk_ids T fid" "file_chunk_ids T fid \<noteq> {}"
      "\<forall>(c, ns) \<in> set rm. distinct ns \<and> (\<forall>n \<in> set ns. (c, n) \<notin> loc_key ` set (t_locations T))"
      using cov unfolding replicas_cover_def by fast+
    ultimately show "chunks \<noteq> [] \<and> length rm = length chunks \<and> replicas_valid rf (map chunk_id chunks) rm
      \<and> distinct (map loc_key (replica_rows rm))
      \<and> loc_key ` set (replica_rows rm) \<inter> loc_key ` set (t_locations T) = {}"
      using cover_keys ne locs by blast
  next
    assume rhs: "chunks \<noteq> [] \<and> length rm = length chunks \<and> replicas_valid rf (map chunk_id chunks) rm
      \<and> distinct (map loc_key (replica_rows rm))
      \<and> loc_key ` set (replica_rows rm) \<inter> loc_key ` set (t_locations T) = {}"
    then have "fst ` set rm = file_chunk_ids T fid" "file_chunk_ids T fid \<noteq> {}"
      using cover_keys ne by blast+
    moreover have "\<forall>(c, ns) \<in> set rm. distinct ns \<and> (\<forall>n \<in> set ns. (c, n) \<notin> loc_key ` set (t_locations T))"
      using rhs locs by blast
    moreover have "\<forall>(c, ns) \<in> set rm. rf \<le> int (length ns) \<and> [] \<notin> set ns"
      using rhs by (auto simp: replicas_valid_def)
    ultimately show "replicas_cover rf T fid rm"
      unfolding replicas_cover_def by fast
  qed
qed

text \<open>Reordering the map changes neither its keys nor its rows, only their order.\<close>

lemma mset_replica_rows_reorder: "mset (replica_rows (reorder p rm)) = mset (replica_rows rm)"
proof -
  have "mset (concat (map f xs)) = (\<Sum>x \<in># mset xs. mset (f x))" for f :: "'a \<Rightarrow> 'b list" and xs
    by (induction xs) auto
  then show ?thesis
    unfolding replica_rows_def by (metis mset_reorder)
qed

lemma set_replica_rows_reorder [simp]: "set (replica_rows (reorder p rm)) = set (replica_rows rm)"
  by (metis mset_replica_rows_reorder mset_eq_setD)

lemma distinct_replica_rows_reorder:
  "distinct (map loc_key (replica_rows (reorder p rm))) = distinct (map loc_key (replica_rows rm))"
  by (metis mset_replica_rows_reorder mset_eq_imp_distinct_iff mset_map)

lemma loc_chunk_rows:
  assumes "replicas_valid rf (map chunk_id chunks) rm" "set chunks \<subseteq> set (t_chunks T)"
  shows "loc_chunk ` set (replica_rows (reorder order rm)) \<subseteq> chunk_id ` set (t_chunks T)"
proof -
  have "loc_chunk ` set (replica_rows (reorder order rm)) \<subseteq> fst ` set rm"
    using loc_chunk_replica_rows [of rm] by simp
  also have "\<dots> \<subseteq> set (map chunk_id chunks)"
    using assms(1) by (auto simp: replicas_valid_def)
  also have "\<dots> \<subseteq> chunk_id ` set (t_chunks T)"
    using assms(2) by auto
  finally show ?thesis .
qed

text \<open>A body that succeeds was given a map that covers the file, and wrote the effect.\<close>

lemma commit_file_InrD:
  assumes complete: "complete_scans e" and wf: "tables_wf (conn_tables s)"
    and dist: "distinct (map fst rm)" and run: "commit_file e m order sid rm f s = (Inr u, s4)"
  shows "replicas_cover (ReplicationFactor (mgr_placement m)) (conn_tables s) (file_id f) rm
    \<and> conn_tables s4 = commit_tables order sid rm f (conn_tables s)"
proof -
  let ?T = "conn_tables s" and ?rf = "ReplicationFactor (mgr_placement m)"
  let ?rows = "replica_rows (reorder order rm)"
  obtain chunks s1 where get: "GetChunksByFileID e (file_id f) s = (Inr chunks, s1)"
    using run by (auto simp: commit_file_def bindR_eq_Inr)
  then obtain p where chunks: "chunks = query_select_chunks_by_file_id p (file_id f) ?T"
    and s1: "conn_tables s1 = ?T"
    using complete by (auto dest: GetChunksByFileID_InrD)
  obtain s2 s3 where valid: "chunks \<noteq> []" "length rm = length chunks" "replicas_valid ?rf (map chunk_id chunks) rm"
    and ins: "InsertChunkLocations e ?rows s1 = (Inr (), s2)"
    and upd: "UpdateFileStatus e (file_id f) FileStatusCommitted s2 = (Inr (), s3)"
      "UpdateUploadSessionStatus e sid UploadStatusCommitted s3 = (Inr u, s4)"
    using run get
    by (auto simp: commit_file_def bindR_eq_Inr check_replicas_Inr split: if_splits sum.splits)
  have T2: "conn_tables s2 = ?T\<lparr>t_locations := t_locations ?T @ ?rows\<rparr>"
    and uniq: "distinct (map loc_key ?rows)" "loc_key ` set ?rows \<inter> loc_key ` set (t_locations ?T) = {}"
    using insert_all_locations_Inr [OF InsertChunkLocations_InrD [OF ins]] by (simp_all add: s1)
  have "replicas_cover ?rf ?T (file_id f) rm"
    using cover_iff [OF wf chunks dist, of ?rf] valid uniq by (simp add: distinct_replica_rows_reorder)
  moreover have "conn_tables s4 = commit_tables order sid rm f ?T"
    using UpdateFileStatus_InrD [OF upd(1)] UpdateUploadSessionStatus_InrD [OF upd(2)] T2
    by (simp add: commit_tables_def)
  ultimately show ?thesis ..
qed

text \<open>With a database that answers, a map that covers the file is accepted.\<close>

lemma commit_file_ok:
  assumes ok: "no_faults e" "complete_scans e" and wf: "tables_wf (conn_tables s)"
    and dist: "distinct (map fst rm)"
    and cover: "replicas_cover (ReplicationFactor (mgr_placement m)) (conn_tables s) (file_id f) rm"
  shows "\<exists>s1. commit_file e m order sid rm f s = (Inr (), s1)"
proof -
  let ?T = "conn_tables s" and ?rf = "ReplicationFactor (mgr_placement m)"
  let ?rows = "replica_rows (reorder order rm)"
  obtain p s1 where get: "GetChunksByFileID e (file_id f) s
      = (Inr (query_select_chunks_by_file_id p (file_id f) ?T), s1)" and s1: "conn_tables s1 = ?T"
    using GetChunksByFileID_ok [OF ok] by blast
  define chunks where "chunks = query_select_chunks_by_file_id p (file_id f) ?T"
  have valid: "chunks \<noteq> []" "length rm = length chunks" "replicas_valid ?rf (map chunk_id chunks) rm"
    and uniq: "distinct (map loc_key ?rows)" "loc_key ` set ?rows \<inter> loc_key ` set (t_locations ?T) = {}"
    using cover cover_iff [OF wf chunks_def dist, of ?rf] by (auto simp: distinct_replica_rows_reorder)
  have "set chunks \<subseteq> set (t_chunks ?T)" "foreign_keys ?T"
    using wf by (auto simp: chunks_def tables_wf_def)
  then have "insert_all query_insert_chunk_location ?rows (conn_tables s1)
      = Inr (?T\<lparr>t_locations := t_locations ?T @ ?rows\<rparr>)"
    using insert_all_locations_iff(1) [OF _ loc_chunk_rows [OF valid(3)]] uniq by (simp add: s1)
  from InsertChunkLocations_ok [OF ok(1) this] obtain s2 where
    "InsertChunkLocations e ?rows s1 = (Inr (), s2)"
    by blast
  moreover have "check_replicas ?rf (map chunk_id chunks) (reorder order rm) [] = Inr ?rows"
    using valid(3) by (simp add: check_replicas_Inr)
  ultimately show ?thesis
    using get valid
    by (simp add: commit_file_def chunks_def [symmetric] bindR_def UpdateFileStatus_def
        UpdateUploadSessionStatus_def mapErrR_def exec_update_ok [OF ok(1)])
qed

subsection \<open>The transaction\<close>

lemma commit_tx_InrD:
  assumes "complete_scans e" "tables_wf (conn_tables s)" "distinct (map fst rm)"
    and run: "commit_tx e m order sid rm s = (Inr u, s1)"
  shows "commit_allowed (ReplicationFactor (mgr_placement m)) (conn_tables s) sid rm
    \<and> conn_tables s1 = commit_effect order sid rm (conn_tables s)"
proof -
  let ?T = "conn_tables s"
  obtain r s2 where gs: "GetUploadSession e sid s = (Inr r, s2)"
    using run by (auto simp: commit_tx_def bindR_eq_Inr)
  with run obtain us where r: "r = Some us" and rest: "commit_session e m order sid rm us s2 = (Inr u, s1)"
    by (cases r) (auto simp: commit_tx_def bindR_def)
  have sess: "query_select_upload_session_by_id sid ?T = Some us" and s2: "conn_tables s2 = ?T"
    using GetUploadSession_InrD [OF gs] r by auto
  show ?thesis
  proof (cases "sess_status us = UploadStatusCommitted")
    case True
    with sess have "committed_upload ?T sid"
      by (simp add: committed_upload_def)
    with True rest s2 show ?thesis
      by (simp add: commit_session_def commit_allowed_def commit_effect_def pending_not_committed)
  next
    case False
    with rest obtain q s3 where prep: "sess_status us = UploadStatusPreparing"
      and gf: "GetFile e (sess_file us) s2 = (Inr q, s3)"
      by (auto simp: commit_session_def bindR_eq_Inr split: if_splits)
    with rest False obtain row where q: "q = Some row" and rest3: "commit_row e m order sid rm row s3 = (Inr u, s1)"
      by (cases q) (auto simp: commit_session_def bindR_def)
    have row: "query_select_file_by_id (sess_file us) ?T = Some row" and s3: "conn_tables s3 = ?T"
      using GetFile_InrD [OF gf] q s2 by auto
    show ?thesis
    proof (cases "file_status row = FileStatusCommitted")
      case True
      with sess prep row have "committed_upload ?T sid"
        by (simp add: committed_upload_def)
      with True rest3 s3 show ?thesis
        by (simp add: commit_row_def commit_allowed_def commit_effect_def pending_not_committed)
    next
      case False
      with rest3 have pend: "file_status row = FileStatusPending"
        and cf: "commit_file e m order sid rm row s3 = (Inr u, s1)"
        by (auto simp: commit_row_def split: if_splits)
      have "pending_file ?T sid = Some row"
        using sess prep row pend by (simp add: pending_file_Some)
      with commit_file_InrD [OF assms(1) _ assms(3) cf] assms(2) s3 show ?thesis
        by (simp add: commit_allowed_def commit_effect_def)
    qed
  qed
qed

lemma commit_tx_ok:
  assumes "no_faults e" "complete_scans e" "tables_wf (conn_tables s)" "distinct (map fst rm)"
    and "commit_allowed (ReplicationFactor (mgr_placement m)) (conn_tables s) sid rm"
  shows "\<exists>s1. commit_tx e m order sid rm s = (Inr (), s1)"
proof (cases "committed_upload (conn_tables s) sid")
  case True
  then show ?thesis
    by (auto simp: committed_upload_def commit_tx_def commit_session_def commit_row_def bindR_def GetUploadSession_def GetFile_def
        mapErrR_def QueryRow_ok [OF assms(1)])
next
  case False
  then obtain f where f: "pending_file (conn_tables s) sid = Some f"
    and cover: "replicas_cover (ReplicationFactor (mgr_placement m)) (conn_tables s) (file_id f) rm"
    using assms(5) by (auto simp: commit_allowed_def)
  let ?s = "s\<lparr>conn_tick := Suc (Suc (conn_tick s))\<rparr>"
  have "\<exists>s1. commit_file e m order sid rm f ?s = (Inr (), s1)"
    using assms(3) cover by (intro commit_file_ok [OF assms(1,2) _ assms(4)]) simp_all
  then show ?thesis
    using f by (auto simp: pending_file_Some commit_tx_def commit_session_def commit_row_def bindR_def GetUploadSession_def GetFile_def
        mapErrR_def QueryRow_ok [OF assms(1)])
qed

text \<open>Success, under any driver, and the decision, with one that answers.\<close>

lemma CommitUpload_InrD:
  assumes "complete_scans e" "tables_wf (conn_tables s)" "distinct (map fst rm)"
    and "CommitUpload e m order sid rm s = (Inr u, s1)"
  shows "commit_allowed (ReplicationFactor (mgr_placement m)) (conn_tables s) sid rm"
    "conn_tables s1 = commit_effect order sid rm (conn_tables s)"
proof -
  obtain t t1 where t: "conn_tables t = conn_tables s" "conn_tables s1 = conn_tables t1"
    "commit_tx e m order sid rm t = (Inr (), t1)"
    using assms(4) WithTx_InrD unfolding CommitUpload_def by metis
  with commit_tx_InrD [OF assms(1) _ assms(3) t(3)] assms(2) show
    "commit_allowed (ReplicationFactor (mgr_placement m)) (conn_tables s) sid rm"
    "conn_tables s1 = commit_effect order sid rm (conn_tables s)"
    by simp_all
qed

lemma CommitUpload_InlD:
  "CommitUpload e m order sid rm s = (Inl err, s1) \<Longrightarrow> conn_tables s1 = conn_tables s"
  by (simp add: CommitUpload_def WithTx_InlD)

lemma CommitUpload_ok:
  assumes "no_faults e" "complete_scans e" "tables_wf (conn_tables s)" "distinct (map fst rm)"
    and "commit_allowed (ReplicationFactor (mgr_placement m)) (conn_tables s) sid rm"
  shows "\<exists>s1. CommitUpload e m order sid rm s = (Inr (), s1)"
proof -
  have "\<exists>s1. commit_tx e m order sid rm (s\<lparr>conn_tick := Suc (conn_tick s)\<rparr>) = (Inr (), s1)"
    using assms by (intro commit_tx_ok) simp_all
  then show ?thesis
    unfolding CommitUpload_def using WithTx_ok [OF assms(1)] by blast
qed

end
