(* ===== verification/Commit_Properties.thy ===== *)
theory Commit_Properties
  imports Commit Upload_Properties
begin

text \<open>
  The properties of \<open>CommitUpload\<close>: which requests it accepts and what it writes, the replication
  it guarantees, repetition, and its order relative to \<open>DeleteFile\<close>.
\<close>

text \<open>The nodes recorded as holding a chunk.\<close>

definition replica_nodes :: "tables \<Rightarrow> string \<Rightarrow> string list" where
  "replica_nodes T cid = map loc_node (filter (\<lambda>l. loc_chunk l = cid) (t_locations T))"

definition file_status_of :: "tables \<Rightarrow> string \<Rightarrow> string option" where
  "file_status_of T fid = map_option file_status (query_select_file_by_id fid T)"

lemma distinct_replica_nodes:
  assumes "tables_wf T"
  shows "distinct (replica_nodes T cid)"
proof -
  have "distinct (map loc_key ls) \<Longrightarrow> distinct (map loc_node (filter (\<lambda>l. loc_chunk l = cid) ls))" for ls
    by (induction ls) (auto simp: loc_key_def image_iff)
  with assms show ?thesis
    by (simp add: replica_nodes_def tables_wf_def)
qed

lemma find_update_status:
  "find (\<lambda>f. file_id f = fid) (map (\<lambda>f. if file_id f = k then f\<lparr>file_status := st\<rparr> else f) fs) =
     map_option (\<lambda>f. if k = fid then f\<lparr>file_status := st\<rparr> else f) (find (\<lambda>f. file_id f = fid) fs)"
  by (induction fs) auto

lemma find_update_session:
  "find (\<lambda>u. sess_id u = sid) (map (\<lambda>u. if sess_id u = k then u\<lparr>sess_status := st\<rparr> else u) us) =
     map_option (\<lambda>u. if k = sid then u\<lparr>sess_status := st\<rparr> else u) (find (\<lambda>u. sess_id u = sid) us)"
  by (induction us) auto

lemma file_status_of_update:
  "file_status_of (query_update_file_status st k T) fid =
     (if k = fid then map_option (\<lambda>_. st) (file_status_of T fid) else file_status_of T fid)"
  by (simp add: file_status_of_def query_update_file_status_def query_select_file_by_id_def
      find_update_status option.map_comp comp_def)

lemma commit_tables_simps:
  "t_locations (commit_tables order sid rm f T) = t_locations T @ replica_rows (reorder order rm)"
  "t_chunks (commit_tables order sid rm f T) = t_chunks T"
  "t_nodes (commit_tables order sid rm f T) = t_nodes T"
  "file_status_of (commit_tables order sid rm f T) fid =
     (if file_id f = fid then map_option (\<lambda>_. FileStatusCommitted) (file_status_of T fid) else file_status_of T fid)"
  "query_select_upload_session_by_id sid (commit_tables order sid rm f T) =
     map_option (\<lambda>u. u\<lparr>sess_status := UploadStatusCommitted\<rparr>) (query_select_upload_session_by_id sid T)"
  by (simp_all add: commit_tables_def query_update_upload_session_status_def file_status_of_update
      file_status_of_def query_select_file_by_id_def query_update_file_status_def find_update_status
      query_select_upload_session_by_id_def find_update_session option.map_comp comp_def)

lemma pending_file_status: "pending_file T sid = Some f \<Longrightarrow> file_status_of T (file_id f) = Some FileStatusPending"
  using select_file_id by (fastforce simp: pending_file_Some file_status_of_def)

text \<open>
  C6. With a database that answers, \<open>CommitUpload\<close> decides exactly the documented condition. It
  succeeds if and only if the session (or its file) is already committed, or the session is in
  preparation, its file pending, and the replica map names exactly the chunks of the file, at
  least one, each with at least the replication factor of pairwise distinct non-empty node names
  not yet recorded for it. On success the effect is written, whatever the order in which the map
  was ranged over; on refusal nothing is.
\<close>

theorem CommitUpload_decides:
  assumes "no_faults e" "complete_scans e" "tables_wf (conn_tables s)" "distinct (map fst rm)"
  shows "case CommitUpload e m order sid rm s of
      (Inr u, s1) \<Rightarrow> commit_allowed (ReplicationFactor (mgr_placement m)) (conn_tables s) sid rm
        \<and> conn_tables s1 = commit_effect order sid rm (conn_tables s)
    | (Inl err, s1) \<Rightarrow> \<not> commit_allowed (ReplicationFactor (mgr_placement m)) (conn_tables s) sid rm
        \<and> conn_tables s1 = conn_tables s"
proof (cases "CommitUpload e m order sid rm s")
  case (Pair r s1)
  show ?thesis
  proof (cases r)
    case (Inl err)
    then show ?thesis
      using Pair CommitUpload_ok [OF assms, where m = m and order = order] CommitUpload_InlD [where s = s] by fastforce
  next
    case (Inr u)
    then show ?thesis
      using Pair CommitUpload_InrD [OF assms(2-4)] by simp
  qed
qed

lemma commit_replicates:
  assumes "complete_scans e" "tables_wf (conn_tables s)" "distinct (map fst rm)"
    and "pending_file (conn_tables s) sid = Some f"
    and "CommitUpload e m order sid rm s = (Inr u, s1)"
  shows "file_status_of (conn_tables s1) (file_id f) = Some FileStatusCommitted"
    and "file_chunk_ids (conn_tables s1) (file_id f) \<noteq> {}"
    and "cid \<in> file_chunk_ids (conn_tables s1) (file_id f) \<Longrightarrow>
      \<exists>ns. (cid, ns) \<in> set rm \<and> set ns \<subseteq> set (replica_nodes (conn_tables s1) cid) \<and> distinct ns
        \<and> ReplicationFactor (mgr_placement m) \<le> int (length ns)"
proof -
  let ?T = "conn_tables s" and ?rf = "ReplicationFactor (mgr_placement m)"
  have "commit_allowed ?rf ?T sid rm"
    by (rule CommitUpload_InrD(1) [OF assms(1-3,5)])
  then have cover: "replicas_cover ?rf ?T (file_id f) rm"
    using assms(4) pending_not_committed [of ?T sid] by (auto simp: commit_allowed_def)
  have T1: "conn_tables s1 = commit_tables order sid rm f ?T"
    using CommitUpload_InrD(2) [OF assms(1-3,5)] assms(4) by (simp add: commit_effect_def)
  show "file_status_of (conn_tables s1) (file_id f) = Some FileStatusCommitted"
    using pending_file_status [OF assms(4)] by (simp add: T1 commit_tables_simps)
  have ids: "file_chunk_ids (conn_tables s1) (file_id f) = file_chunk_ids ?T (file_id f)"
    by (simp add: T1 file_chunk_ids_def commit_tables_simps)
  then show "file_chunk_ids (conn_tables s1) (file_id f) \<noteq> {}"
    using cover by (simp add: replicas_cover_def)
  assume "cid \<in> file_chunk_ids (conn_tables s1) (file_id f)"
  then have "cid \<in> fst ` set rm"
    using cover ids by (simp add: replicas_cover_def)
  then obtain ns where ns: "(cid, ns) \<in> set rm"
    by auto
  then have len: "?rf \<le> int (length ns)" "distinct ns"
    using cover by (auto simp: replicas_cover_def)
  have "n \<in> set (replica_nodes (conn_tables s1) cid)" if "n \<in> set ns" for n
  proof -
    have "(cid, n) \<in> loc_key ` set (replica_rows rm)"
      using ns that by (auto simp: loc_key_replica_rows)
    then show ?thesis
      by (auto simp: replica_nodes_def T1 commit_tables_simps loc_key_def image_iff)
  qed
  with ns len show "\<exists>ns. (cid, ns) \<in> set rm \<and> set ns \<subseteq> set (replica_nodes (conn_tables s1) cid) \<and> distinct ns
        \<and> ?rf \<le> int (length ns)"
    by blast
qed

text \<open>
  A pending upload that \<open>CommitUpload\<close> reports as committed is replicated, whatever the driver
  did in between as long as no scan lost rows: the file is committed, it has chunks, and every one
  of its chunks is recorded on at least the replication factor of distinct nodes, those the map
  named for it.
\<close>

lemma CommitUpload_replicates:
  assumes "complete_scans e" "tables_wf (conn_tables s)" "distinct (map fst rm)"
    and "pending_file (conn_tables s) sid = Some f"
    and "CommitUpload e m order sid rm s = (Inr u, s1)"
  shows "file_status_of (conn_tables s1) (file_id f) = Some FileStatusCommitted
    \<and> file_chunk_ids (conn_tables s1) (file_id f) \<noteq> {}
    \<and> (\<forall>cid \<in> file_chunk_ids (conn_tables s1) (file_id f).
         \<exists>ns. (cid, ns) \<in> set rm \<and> set ns \<subseteq> set (replica_nodes (conn_tables s1) cid) \<and> distinct ns
           \<and> ReplicationFactor (mgr_placement m) \<le> int (length ns))"
  using commit_replicates [OF assms] by blast

text \<open>
  C37. Committing is idempotent: after a successful commit of a session, any later commit of the
  same session, with whatever replica map, order and replication factor, succeeds with a database
  that answers, and changes nothing.
\<close>

theorem CommitUpload_idempotent:
  assumes "complete_scans e" "tables_wf (conn_tables s)" "distinct (map fst rm)"
    and "CommitUpload e m order sid rm s = (Inr u, s1)" and "no_faults e'"
  shows "\<exists>s2. CommitUpload e' m' order' sid rm' s1 = (Inr (), s2) \<and> conn_tables s2 = conn_tables s1"
proof -
  have "committed_upload (conn_tables s1) sid"
  proof (cases "pending_file (conn_tables s) sid")
    case None
    with CommitUpload_InrD [OF assms(1-4)] show ?thesis
      by (simp add: commit_allowed_def commit_effect_def)
  next
    case (Some f)
    with CommitUpload_InrD(2) [OF assms(1-4)] show ?thesis
      by (auto simp: commit_effect_def committed_upload_def commit_tables_simps pending_file_Some)
  qed
  then have "\<exists>s2. commit_tx e' m' order' sid rm' (s1\<lparr>conn_tick := Suc (conn_tick s1)\<rparr>) = (Inr (), s2)
      \<and> conn_tables s2 = conn_tables s1"
    by (auto simp: committed_upload_def commit_tx_def commit_session_def commit_row_def bindR_def
        GetUploadSession_def GetFile_def mapErrR_def QueryRow_ok [OF assms(5)])
  then show ?thesis
    unfolding CommitUpload_def using WithTx_ok [OF assms(5)] by fastforce
qed

subsection \<open>Deleting and listing\<close>

lemma DeleteFile_InrD:
  assumes "manifest_DeleteFile e fid s = (Inr u, s1)"
  shows "file_status_of (conn_tables s) fid \<noteq> None"
    "conn_tables s1 = query_update_file_status FileStatusDeleted fid (conn_tables s)"
proof -
  obtain q t where gf: "GetFile e fid s = (Inr q, t)"
    using assms by (auto simp: manifest_DeleteFile_def bindR_eq_Inr)
  with assms obtain row where q: "q = Some row"
    and upd: "UpdateFileStatus e fid FileStatusDeleted t = (Inr u, s1)"
    by (cases q) (auto simp: manifest_DeleteFile_def bindR_def)
  from GetFile_InrD [OF gf] q have row: "query_select_file_by_id fid (conn_tables s) = Some row"
    and t: "conn_tables t = conn_tables s"
    by auto
  from row show "file_status_of (conn_tables s) fid \<noteq> None"
    by (simp add: file_status_of_def)
  from UpdateFileStatus_InrD [OF upd] t
  show "conn_tables s1 = query_update_file_status FileStatusDeleted fid (conn_tables s)"
    by simp
qed

lemma DeleteFile_InlD:
  assumes "manifest_DeleteFile e fid s = (Inl err, s1)"
  shows "conn_tables s1 = conn_tables s"
proof (cases "GetFile e fid s")
  case (Pair q t)
  then have t: "conn_tables t = conn_tables s"
    by (metis read_tables(1) snd_conv)
  show ?thesis
  proof (cases q)
    case Inl
    with Pair t assms show ?thesis
      by (simp add: manifest_DeleteFile_def bindR_def)
  next
    case (Inr f)
    with Pair t assms show ?thesis
      by (cases f) (auto simp: manifest_DeleteFile_def bindR_def dest: UpdateFileStatus_InlD)
  qed
qed

lemma commit_tx_deleted:
  assumes "query_select_upload_session_by_id sid (conn_tables s) = Some us"
    and "sess_status us = UploadStatusPreparing"
    and "file_status_of (conn_tables s) (sess_file us) = Some FileStatusDeleted"
  shows "\<exists>err s1. commit_tx e m order sid rm s = (Inl err, s1)"
proof -
  obtain row where row: "query_select_file_by_id (sess_file us) (conn_tables s) = Some row"
    "file_status row = FileStatusDeleted"
    using assms(3) by (auto simp: file_status_of_def)
  obtain r t where gs: "GetUploadSession e sid s = (r, t)"
    by (cases "GetUploadSession e sid s")
  show ?thesis
  proof (cases r)
    case Inl
    with gs show ?thesis
      by (simp add: commit_tx_def bindR_def)
  next
    case (Inr q)
    with GetUploadSession_InrD [of e sid s q t] gs assms(1)
    have q: "q = Some us" and t: "conn_tables t = conn_tables s"
      by auto
    obtain r2 t2 where gf: "GetFile e (sess_file us) t = (r2, t2)"
      by (cases "GetFile e (sess_file us) t")
    show ?thesis
    proof (cases r2)
      case Inl
      with gs gf Inr q assms(2) show ?thesis
        by (simp add: commit_tx_def commit_session_def bindR_def)
    next
      case r2: (Inr q2)
      with GetFile_InrD [of e "sess_file us" t q2 t2] gf row t have "q2 = Some row"
        by auto
      with gs gf Inr q r2 assms(2) row(2) show ?thesis
        by (simp add: commit_tx_def commit_session_def commit_row_def bindR_def)
    qed
  qed
qed

text \<open>
  C34. A deletion that comes between the two halves of an upload wins. Once \<open>DeleteFile\<close> has
  succeeded for the file of a session still in preparation, no commit of that session succeeds,
  whatever the driver does and whatever the map says, and none changes anything: a deleted file
  is never brought back.
\<close>

theorem DeleteFile_blocks_commit:
  assumes "manifest_DeleteFile e fid s = (Inr u, s1)"
    and "query_select_upload_session_by_id sid (conn_tables s) = Some us"
    and "sess_status us = UploadStatusPreparing" "sess_file us = fid"
  shows "\<exists>err s2. CommitUpload e' m order sid rm s1 = (Inl err, s2) \<and> conn_tables s2 = conn_tables s1"
proof (cases "CommitUpload e' m order sid rm s1")
  case (Pair r s2)
  note del = DeleteFile_InrD [OF assms(1)]
  have sess: "query_select_upload_session_by_id sid (conn_tables s1) = Some us"
    using assms(2) by (simp add: del(2) query_update_file_status_def query_select_upload_session_by_id_def)
  have gone: "file_status_of (conn_tables s1) (sess_file us) = Some FileStatusDeleted"
    using del(1) assms(4) by (auto simp: del(2) file_status_of_update)
  show ?thesis
  proof (cases r)
    case (Inl err)
    with Pair CommitUpload_InlD [of e' m order sid rm s1 err s2] show ?thesis
      by blast
  next
    case (Inr x)
    then obtain t t1 where "conn_tables t = conn_tables s1" "commit_tx e' m order sid rm t = (Inr (), t1)"
      using Pair WithTx_InrD unfolding CommitUpload_def by metis
    with commit_tx_deleted [of sid t us e' m order rm] sess gone assms(3) show ?thesis
      by simp
  qed
qed

lemma sorted_filter_key: "sorted (map f xs) \<Longrightarrow> sorted (map f (filter P xs))"
  by (induction xs) auto

text \<open>
  C38. \<open>ListFiles\<close> returns exactly the committed files, each once, newest first: a pending upload is
  not visible before its commit and a deleted file no longer.
\<close>

theorem ListFiles_committed:
  assumes "complete_scans e" "manifest_ListFiles e s = (Inr fs, s1)"
  shows "mset fs = mset (filter (\<lambda>f. file_status f = FileStatusCommitted) (t_files (conn_tables s)))
    \<and> sorted (map (\<lambda>f. - sint (file_created f)) fs) \<and> conn_tables s1 = conn_tables s"
proof -
  obtain rows where rows: "ListFiles e s = (Inr rows, s1)"
    and fs: "fs = filter (\<lambda>f. file_status f = FileStatusCommitted) rows"
    using assms(2) by (auto simp: manifest_ListFiles_def bindR_eq_Inr)
  obtain p where p: "rows = query_select_all_files p (conn_tables s)" and s1: "conn_tables s1 = conn_tables s"
    using ListFiles_InrD [OF rows] assms(1) by blast
  then show ?thesis
    by (simp add: fs query_select_all_files_def sorted_filter_key mset_filter)
qed

subsection \<open>Scans cut short\<close>

text \<open>
  The loop over the rows of a query ends when \<open>rows.Next\<close> returns false, also after an error, which
  only \<open>rows.Err\<close> would report; it is never called. The example engine breaks off the scan of the
  chunks (driver call 3 of a commit that starts at 0) after its first row.
\<close>

definition truncating_engine :: engine where
  "truncating_engine = plain_engine\<lparr>drv_trunc := (\<lambda>t. if t = 3 then Some 1 else None)\<rparr>"

definition two_chunk_upload :: conn where
  "two_chunk_upload = \<lparr>conn_tables = \<lparr>foreign_keys = True,
     t_files = [\<lparr>file_id = ''f'', file_name = ''a'', file_size = 8, file_status = FileStatusPending, file_created = 1\<rparr>],
     t_chunks = [\<lparr>chunk_id = ''c1'', chunk_file = ''f'', chunk_index = 0, chunk_size = 4\<rparr>,
                 \<lparr>chunk_id = ''c2'', chunk_file = ''f'', chunk_index = 1, chunk_size = 4\<rparr>],
     t_locations = [], t_nodes = three_nodes,
     t_sessions = [\<lparr>sess_id = ''s'', sess_file = ''f'', sess_status = UploadStatusPreparing, sess_created = 1\<rparr>]\<rparr>,
     conn_tick = 0\<rparr>"

text \<open>The rows of the chunk scan that are delivered, when it is driver call number \<open>t\<close>.\<close>

definition scanned_chunks :: "engine \<Rightarrow> nat \<Rightarrow> string \<Rightarrow> tables \<Rightarrow> chunk_row list" where
  "scanned_chunks e t fid T =
     (let rows = query_select_chunks_by_file_id (drv_order e t) fid T
      in case drv_trunc e t of None \<Rightarrow> rows | Some k \<Rightarrow> take k rows)"

text \<open>The map names exactly these chunks, each with enough distinct new replicas.\<close>

definition scan_covered :: "int \<Rightarrow> chunk_row list \<Rightarrow> tables \<Rightarrow> replica_map \<Rightarrow> bool" where
  "scan_covered rf chunks T rm \<longleftrightarrow> chunks \<noteq> [] \<and> fst ` set rm = chunk_id ` set chunks
     \<and> (\<forall>(c, ns) \<in> set rm. rf \<le> int (length ns) \<and> distinct ns \<and> [] \<notin> set ns
          \<and> (\<forall>n \<in> set ns. (c, n) \<notin> loc_key ` set (t_locations T)))"

lemma scan_covered_iff:
  assumes chunks: "distinct (map chunk_id chunks)" and dist: "distinct (map fst rm)"
  shows "scan_covered rf chunks T rm \<longleftrightarrow>
    chunks \<noteq> [] \<and> length rm = length chunks \<and> replicas_valid rf (map chunk_id chunks) rm
    \<and> distinct (map loc_key (replica_rows rm))
    \<and> loc_key ` set (replica_rows rm) \<inter> loc_key ` set (t_locations T) = {}"
proof -
  have card: "card (fst ` set rm) = length rm" "card (chunk_id ` set chunks) = length chunks"
    using distinct_card [OF dist] distinct_card [OF chunks] by simp_all
  have "fst ` set rm = chunk_id ` set chunks \<longleftrightarrow> length rm = length chunks" if "fst ` set rm \<subseteq> chunk_id ` set chunks"
    unfolding card [symmetric] using that card_subset_eq by (metis List.finite_set finite_imageI)
  then have keys: "fst ` set rm = chunk_id ` set chunks
      \<longleftrightarrow> length rm = length chunks \<and> fst ` set rm \<subseteq> chunk_id ` set chunks"
    by blast
  have rows: "(\<forall>(c, ns) \<in> set rm. distinct ns \<and> (\<forall>n \<in> set ns. (c, n) \<notin> loc_key ` set (t_locations T)))
      \<longleftrightarrow> distinct (map loc_key (replica_rows rm))
        \<and> loc_key ` set (replica_rows rm) \<inter> loc_key ` set (t_locations T) = {}"
    unfolding distinct_replica_rows [OF dist] loc_key_replica_rows by blast
  have valid: "replicas_valid rf (map chunk_id chunks) rm \<longleftrightarrow> fst ` set rm \<subseteq> chunk_id ` set chunks
      \<and> (\<forall>(c, ns) \<in> set rm. rf \<le> int (length ns) \<and> [] \<notin> set ns)"
    by (simp only: replicas_valid_def set_map case_prod_beta' image_subset_iff ball_conj_distrib)
  have "scan_covered rf chunks T rm \<longleftrightarrow> chunks \<noteq> [] \<and> fst ` set rm = chunk_id ` set chunks
      \<and> (\<forall>(c, ns) \<in> set rm. rf \<le> int (length ns) \<and> [] \<notin> set ns)
      \<and> (\<forall>(c, ns) \<in> set rm. distinct ns \<and> (\<forall>n \<in> set ns. (c, n) \<notin> loc_key ` set (t_locations T)))"
    unfolding scan_covered_def by blast
  then show ?thesis
    unfolding keys rows valid by (simp only: conj_assoc)
qed

lemma GetChunksByFileID_scan:
  assumes "no_faults e"
  shows "GetChunksByFileID e fid s =
    (Inr (scanned_chunks e (conn_tick s) fid (conn_tables s)), s\<lparr>conn_tick := Suc (conn_tick s)\<rparr>)"
  using assms by (simp add: GetChunksByFileID_def mapErrR_def QueryContext_def no_faults_def scanned_chunks_def Let_def
      split: option.split)

lemma scanned_rows:
  assumes "tables_wf T"
  shows "distinct (map chunk_id (scanned_chunks e t fid T))" "set (scanned_chunks e t fid T) \<subseteq> set (t_chunks T)"
proof -
  let ?rows = "query_select_chunks_by_file_id (drv_order e t) fid T"
  have "\<exists>k. scanned_chunks e t fid T = take k ?rows"
    by (cases "drv_trunc e t") (auto simp: scanned_chunks_def Let_def intro: exI [of _ "length ?rows"])
  then obtain k where k: "scanned_chunks e t fid T = take k ?rows"
    by blast
  have "distinct (take k (map chunk_id ?rows))"
    by (rule distinct_take) (rule distinct_select_chunks [OF assms])
  then show "distinct (map chunk_id (scanned_chunks e t fid T))"
    by (simp add: k take_map)
  show "set (scanned_chunks e t fid T) \<subseteq> set (t_chunks T)"
    by (auto simp: k dest!: in_set_takeD)
qed

lemma commit_file_scan:
  assumes nf: "no_faults e" and wf: "tables_wf (conn_tables s)" and dist: "distinct (map fst rm)"
    and chunks: "chunks = scanned_chunks e (conn_tick s) (file_id f) (conn_tables s)"
  shows "case commit_file e m order sid rm f s of
      (Inr u, s1) \<Rightarrow> scan_covered (ReplicationFactor (mgr_placement m)) chunks (conn_tables s) rm
        \<and> conn_tables s1 = commit_tables order sid rm f (conn_tables s)
    | (Inl err, s1) \<Rightarrow> \<not> scan_covered (ReplicationFactor (mgr_placement m)) chunks (conn_tables s) rm"
proof -
  let ?T = "conn_tables s" and ?rf = "ReplicationFactor (mgr_placement m)" and ?rows = "replica_rows (reorder order rm)"
  let ?s1 = "s\<lparr>conn_tick := Suc (conn_tick s)\<rparr>"
  have sub: "set chunks \<subseteq> set (t_chunks ?T)" and fk: "foreign_keys ?T"
    using scanned_rows [OF wf] wf by (simp_all add: chunks tables_wf_def)
  note iff = scan_covered_iff [OF scanned_rows(1) [OF wf, of e "conn_tick s" "file_id f", folded chunks] dist, of ?rf ?T]
  note get = GetChunksByFileID_scan [OF nf, of "file_id f" s, folded chunks]
  show ?thesis
  proof (cases "chunks \<noteq> [] \<and> length rm = length chunks \<and> replicas_valid ?rf (map chunk_id chunks) rm")
    case False
    then have "\<not> scan_covered ?rf chunks ?T rm"
      unfolding iff by blast
    moreover have "\<exists>err s1. commit_file e m order sid rm f s = (Inl err, s1)"
    proof (cases "chunks = [] \<or> length rm \<noteq> length chunks")
      case True
      with get show ?thesis
        by (auto simp: commit_file_def bindR_def)
    next
      case short: False
      with False have "\<not> replicas_valid ?rf (map chunk_id chunks) (reorder order rm)"
        by simp
      then obtain err where "check_replicas ?rf (map chunk_id chunks) (reorder order rm) [] = Inl err"
        using check_replicas_Inl [of ?rf "map chunk_id chunks" "reorder order rm" "[]"] by blast
      with get short show ?thesis
        by (simp add: commit_file_def bindR_def)
    qed
    ultimately show ?thesis
      by auto
  next
    case True
    then have "check_replicas ?rf (map chunk_id chunks) (reorder order rm) [] = Inr ?rows"
      by (simp add: check_replicas_Inr)
    with True get have run: "commit_file e m order sid rm f s = bindR (InsertChunkLocations e ?rows) (\<lambda>_.
        bindR (UpdateFileStatus e (file_id f) FileStatusCommitted) (\<lambda>_. UpdateUploadSessionStatus e sid UploadStatusCommitted)) ?s1"
      by (simp add: commit_file_def bindR_def [of "GetChunksByFileID e (file_id f)"])
    let ?uniq = "distinct (map loc_key ?rows) \<and> loc_key ` set ?rows \<inter> loc_key ` set (t_locations ?T) = {}"
    have cov: "scan_covered ?rf chunks ?T rm \<longleftrightarrow> ?uniq"
      unfolding iff using True by (simp add: distinct_replica_rows_reorder)
    have ins: "insert_all query_insert_chunk_location ?rows ?T = Inr (?T\<lparr>t_locations := t_locations ?T @ ?rows\<rparr>) \<longleftrightarrow> ?uniq"
      using insert_all_locations_iff(1) [OF fk loc_chunk_rows [OF _ sub]] True by blast
    show ?thesis
    proof (cases ?uniq)
      case uniq: True
      with ins have "insert_all query_insert_chunk_location ?rows (conn_tables ?s1) = Inr (?T\<lparr>t_locations := t_locations ?T @ ?rows\<rparr>)"
        by simp
      from InsertChunkLocations_ok [OF nf this] obtain s2 where
        "InsertChunkLocations e ?rows ?s1 = (Inr (), s2)" "conn_tables s2 = ?T\<lparr>t_locations := t_locations ?T @ ?rows\<rparr>"
        by blast
      with run uniq cov show ?thesis
        by (simp add: bindR_def UpdateFileStatus_def UpdateUploadSessionStatus_def mapErrR_def exec_update_ok [OF nf] commit_tables_def)
    next
      case clash: False
      have "\<exists>err s2. InsertChunkLocations e ?rows ?s1 = (Inl err, s2)"
      proof (cases "InsertChunkLocations e ?rows ?s1")
        case (Pair q s2)
        then show ?thesis
          using clash insert_all_locations_Inr [OF InsertChunkLocations_InrD [of e ?rows ?s1 _ s2]] by (cases q) auto
      qed
      with run clash cov show ?thesis
        by (auto simp: bindR_def)
    qed
  qed
qed

lemma pending_commit:
  assumes "no_faults e" "pending_file (conn_tables s) sid = Some f"
  shows "commit_tx e m order sid rm s = commit_file e m order sid rm f (s\<lparr>conn_tick := Suc (Suc (conn_tick s))\<rparr>)"
  using assms(2) by (auto simp: pending_file_Some commit_tx_def commit_session_def commit_row_def bindR_def GetUploadSession_def
      GetFile_def mapErrR_def QueryRow_ok [OF assms(1)])

lemma loc_chunk_replica_nodes: "replica_nodes T cid = replica_nodes T1 cid"
  if "t_locations T = t_locations T1 @ ls" "cid \<notin> loc_chunk ` set ls"
  using that by (auto simp: replica_nodes_def filter_empty_conv image_iff)

text \<open>
  C33. \<open>CommitUpload\<close> takes the chunk rows it is delivered for all of them. With a database that executes
  every statement but may break off the scan of the chunks, a commit of a pending file succeeds exactly when
  the map covers the rows that were delivered. Then the file is committed, and a chunk of it whose row
  was not delivered has no more replicas recorded than before the commit, even if that is none.
\<close>

theorem CommitUpload_truncated_scan:
  assumes "no_faults e" "tables_wf (conn_tables s)" "distinct (map fst rm)" "pending_file (conn_tables s) sid = Some f"
    and "chunks = scanned_chunks e (conn_tick s + 3) (file_id f) (conn_tables s)"
  shows "case CommitUpload e m order sid rm s of
      (Inr u, s1) \<Rightarrow> scan_covered (ReplicationFactor (mgr_placement m)) chunks (conn_tables s) rm
        \<and> file_status_of (conn_tables s1) (file_id f) = Some FileStatusCommitted
        \<and> file_chunk_ids (conn_tables s1) (file_id f) = file_chunk_ids (conn_tables s) (file_id f)
        \<and> (\<forall>cid \<in> file_chunk_ids (conn_tables s) (file_id f) - chunk_id ` set chunks.
              replica_nodes (conn_tables s1) cid = replica_nodes (conn_tables s) cid)
    | (Inl err, s1) \<Rightarrow> \<not> scan_covered (ReplicationFactor (mgr_placement m)) chunks (conn_tables s) rm"
proof -
  let ?s1 = "s\<lparr>conn_tick := conn_tick s + 3\<rparr>"
  have run: "commit_tx e m order sid rm (s\<lparr>conn_tick := Suc (conn_tick s)\<rparr>) = commit_file e m order sid rm f ?s1"
    using pending_commit [OF assms(1), of "s\<lparr>conn_tick := Suc (conn_tick s)\<rparr>" sid f m order rm] assms(4)
    by (simp add: numeral_3_eq_3)
  have dec: "case commit_file e m order sid rm f ?s1 of
      (Inr u, s1) \<Rightarrow> scan_covered (ReplicationFactor (mgr_placement m)) chunks (conn_tables s) rm
        \<and> conn_tables s1 = commit_tables order sid rm f (conn_tables s)
    | (Inl err, s1) \<Rightarrow> \<not> scan_covered (ReplicationFactor (mgr_placement m)) chunks (conn_tables s) rm"
  proof -
    have same: "conn_tables ?s1 = conn_tables s" "conn_tick ?s1 = conn_tick s + 3"
      by simp_all
    show ?thesis
      by (rule commit_file_scan [OF assms(1) _ assms(3), of ?s1 chunks f m order sid, unfolded same, OF assms(2,5)])
  qed
  obtain q s2 where cf: "commit_file e m order sid rm f ?s1 = (q, s2)"
    by (cases "commit_file e m order sid rm f ?s1")
  show ?thesis
  proof (cases q)
    case (Inl err)
    then have "fst (CommitUpload e m order sid rm s) = Inl err"
      using WithTx_refused [OF assms(1)] run cf unfolding CommitUpload_def by simp
    with dec cf Inl show ?thesis
      by (cases "CommitUpload e m order sid rm s") simp
  next
    case (Inr u)
    then have com: "CommitUpload e m order sid rm s = (Inr (), s2\<lparr>conn_tick := Suc (conn_tick s2)\<rparr>)"
      using WithTx_ok [OF assms(1)] run cf unfolding CommitUpload_def by simp
    have cov: "scan_covered (ReplicationFactor (mgr_placement m)) chunks (conn_tables s) rm"
      and T2: "conn_tables s2 = commit_tables order sid rm f (conn_tables s)"
      using dec cf Inr by simp_all
    have "cid \<notin> loc_chunk ` set (replica_rows (reorder order rm))" if "cid \<notin> chunk_id ` set chunks" for cid
      using cov that loc_chunk_replica_rows [of rm] by (auto simp: scan_covered_def)
    then have "replica_nodes (conn_tables s2) cid = replica_nodes (conn_tables s) cid" if "cid \<notin> chunk_id ` set chunks" for cid
      using loc_chunk_replica_nodes [of "conn_tables s2" "conn_tables s" "replica_rows (reorder order rm)" cid] that
      by (simp add: T2 commit_tables_simps)
    with com cov show ?thesis
      using pending_file_status [OF assms(4)] by (simp add: T2 commit_tables_simps file_chunk_ids_def)
  qed
qed

subsection \<open>Witnesses\<close>

lemma two_chunk_upload_wf: "tables_wf (conn_tables two_chunk_upload)"
  using three_nodes_distinct by (simp add: tables_wf_def two_chunk_upload_def)

abbreviation two_chunk_map :: replica_map where
  "two_chunk_map \<equiv> [(''c1'', [''n1'', ''n2'']), (''c2'', [''n3'', ''n1''])]"

lemma two_chunk_pending:
  "pending_file (conn_tables two_chunk_upload) ''s'' =
     Some \<lparr>file_id = ''f'', file_name = ''a'', file_size = 8, file_status = FileStatusPending, file_created = 1\<rparr>"
  by (simp add: pending_file_def two_chunk_upload_def query_select_upload_session_by_id_def
      query_select_file_by_id_def)

theorem CommitUpload_truncated_scan_witness:
  "\<exists>s1. CommitUpload truncating_engine upload_mgr [] ''s'' [(''c1'', [''n1'', ''n2''])] two_chunk_upload = (Inr (), s1)
     \<and> file_status_of (conn_tables s1) ''f'' = Some FileStatusCommitted
     \<and> ''c2'' \<in> file_chunk_ids (conn_tables s1) ''f'' \<and> replica_nodes (conn_tables s1) ''c2'' = []"
proof -
  let ?T = "conn_tables two_chunk_upload" and ?rm = "[(''c1'', [''n1'', ''n2''])]"
  let ?c1 = "\<lparr>chunk_id = ''c1'', chunk_file = ''f'', chunk_index = 0, chunk_size = 4\<rparr>"
  let ?f = "\<lparr>file_id = ''f'', file_name = ''a'', file_size = 8, file_status = FileStatusPending, file_created = 1\<rparr>"
  have scan: "[?c1] = scanned_chunks truncating_engine (conn_tick two_chunk_upload + 3) (file_id ?f) ?T"
    by (simp add: scanned_chunks_def truncating_engine_def two_chunk_upload_def query_select_chunks_by_file_id_def reorder_def)
  have nf: "no_faults truncating_engine"
    by (simp add: truncating_engine_def no_faults_def)
  have ids: "file_chunk_ids ?T ''f'' = {''c1'', ''c2''}" and none: "replica_nodes ?T ''c2'' = []"
    by (auto simp: file_chunk_ids_def two_chunk_upload_def replica_nodes_def)
  have cov: "scan_covered 2 [?c1] ?T ?rm"
    by (simp add: scan_covered_def two_chunk_upload_def)
  have dist: "distinct (map fst ?rm)"
    by simp
  obtain q s1 where run: "CommitUpload truncating_engine upload_mgr [] ''s'' ?rm two_chunk_upload = (q, s1)"
    by (cases "CommitUpload truncating_engine upload_mgr [] ''s'' ?rm two_chunk_upload")
  have rf: "ReplicationFactor (mgr_placement upload_mgr) = 2"
    by (simp add: upload_example)
  note spec = CommitUpload_truncated_scan [OF nf two_chunk_upload_wf dist two_chunk_pending scan, of upload_mgr "[]", unfolded run rf prod.case]
  show ?thesis
  proof (cases q)
    case (Inl err)
    with spec cov show ?thesis
      by simp
  next
    case (Inr u)
    with spec ids none run show ?thesis
      by simp
  qed
qed

lemma two_chunk_allowed: "commit_allowed 2 (conn_tables two_chunk_upload) ''s'' two_chunk_map"
proof -
  have "replicas_cover 2 (conn_tables two_chunk_upload) ''f'' two_chunk_map"
    by (simp add: replicas_cover_def file_chunk_ids_def two_chunk_upload_def)
  with two_chunk_pending show ?thesis
    by (simp add: commit_allowed_def)
qed

lemma two_chunk_commit:
  "\<exists>s1. CommitUpload plain_engine upload_mgr [] ''s'' two_chunk_map two_chunk_upload = (Inr (), s1)"
  by (rule CommitUpload_ok) (simp_all add: two_chunk_upload_wf upload_example two_chunk_allowed)

theorem CommitUpload_decides_witness:
  "case CommitUpload plain_engine upload_mgr [1, 0] ''s'' two_chunk_map two_chunk_upload of
      (Inr u, s1) \<Rightarrow> conn_tables s1 = commit_effect [1, 0] ''s'' two_chunk_map (conn_tables two_chunk_upload)
    | (Inl err, s1) \<Rightarrow> False"
proof -
  have "distinct (map fst two_chunk_map)"
    by simp
  from CommitUpload_decides [where m = upload_mgr and order = "[1, 0]" and sid = "''s''",
      OF plain_engine_simps(4,5) two_chunk_upload_wf this]
  show ?thesis
    using two_chunk_allowed
    by (cases "CommitUpload plain_engine upload_mgr [1, 0] ''s'' two_chunk_map two_chunk_upload")
      (simp add: upload_example split: sum.splits)
qed

theorem CommitUpload_idempotent_witness:
  "\<exists>s1 s2. CommitUpload plain_engine upload_mgr [] ''s'' two_chunk_map two_chunk_upload = (Inr (), s1)
     \<and> CommitUpload plain_engine upload_mgr [] ''s'' [] s1 = (Inr (), s2) \<and> conn_tables s2 = conn_tables s1"
proof -
  obtain s1 where s1: "CommitUpload plain_engine upload_mgr [] ''s'' two_chunk_map two_chunk_upload = (Inr (), s1)"
    using two_chunk_commit by blast
  from CommitUpload_idempotent [where m' = upload_mgr and order' = "[]" and rm' = "[]",
      OF plain_engine_simps(5) two_chunk_upload_wf _ s1 plain_engine_simps(4)] s1
  show ?thesis
    by simp
qed

definition three_files :: conn where
  "three_files = two_chunk_upload\<lparr>conn_tables := (conn_tables two_chunk_upload)\<lparr>t_files :=
     [\<lparr>file_id = ''f'', file_name = ''a'', file_size = 8, file_status = FileStatusPending, file_created = 1\<rparr>,
      \<lparr>file_id = ''g'', file_name = ''b'', file_size = 8, file_status = FileStatusCommitted, file_created = 2\<rparr>,
      \<lparr>file_id = ''h'', file_name = ''c'', file_size = 8, file_status = FileStatusCommitted, file_created = 3\<rparr>]\<rparr>\<rparr>"

theorem ListFiles_committed_witness:
  "\<exists>fs s1. manifest_ListFiles plain_engine three_files = (Inr fs, s1) \<and> image_mset file_id (mset fs) = {#''g'', ''h''#}"
proof -
  obtain fs s1 where run: "manifest_ListFiles plain_engine three_files = (Inr fs, s1)"
    by (simp add: manifest_ListFiles_def ListFiles_def bindR_def mapErrR_def Query_ok)
  have "mset (filter (\<lambda>f. file_status f = FileStatusCommitted) (t_files (conn_tables three_files))) =
      {#\<lparr>file_id = ''g'', file_name = ''b'', file_size = 8, file_status = FileStatusCommitted, file_created = 2\<rparr>,
        \<lparr>file_id = ''h'', file_name = ''c'', file_size = 8, file_status = FileStatusCommitted, file_created = 3\<rparr>#}"
    by (simp add: three_files_def status_defs)
  with ListFiles_committed [OF plain_engine_simps(5) run] run show ?thesis
    by simp
qed

lemma two_chunk_delete:
  "\<exists>s1. manifest_DeleteFile plain_engine ''f'' two_chunk_upload = (Inr (), s1)"
  by (simp add: manifest_DeleteFile_def run_simps two_chunk_upload_def query_select_file_by_id_def)

theorem DeleteFile_blocks_commit_witness:
  "\<exists>s1 err s2. manifest_DeleteFile plain_engine ''f'' two_chunk_upload = (Inr (), s1)
     \<and> CommitUpload plain_engine upload_mgr [] ''s'' two_chunk_map s1 = (Inl err, s2)"
proof -
  obtain s1 where s1: "manifest_DeleteFile plain_engine ''f'' two_chunk_upload = (Inr (), s1)"
    using two_chunk_delete by blast
  have "\<exists>err s2. CommitUpload plain_engine upload_mgr [] ''s'' two_chunk_map s1 = (Inl err, s2)
      \<and> conn_tables s2 = conn_tables s1"
    by (rule DeleteFile_blocks_commit [OF s1, where us = "\<lparr>sess_id = ''s'', sess_file = ''f'',
          sess_status = UploadStatusPreparing, sess_created = 1\<rparr>"])
      (simp_all add: two_chunk_upload_def query_select_upload_session_by_id_def)
  with s1 show ?thesis
    by blast
qed

end
