(* ===== verification/Paths.thy ===== *)
theory Paths
  imports Dfs_Prelude "HOL-Library.Sublist"
begin

text \<open>
  What the chunk store takes from \<open>path/filepath\<close> on Unix: \<open>Clean\<close>, \<open>Join\<close> and \<open>Dir\<close>, written out on
  strings, and the lemmas that say when joining a name to a cleaned path is plain concatenation.
\<close>

fun split_slash :: "string \<Rightarrow> string list" where
  "split_slash [] = [[]]"
| "split_slash (c # cs) =
     (if c = CHR ''/'' then [] # split_slash cs
      else case split_slash cs of [] \<Rightarrow> [[c]] | p # ps \<Rightarrow> (c # p) # ps)"

fun join_slash :: "string list \<Rightarrow> string" where
  "join_slash [] = []"
| "join_slash [p] = p"
| "join_slash (p # q # ps) = p @ ''/'' @ join_slash (q # ps)"

text \<open>\<open>Clean\<close> reads the components from left to right; \<open>out\<close> holds those kept, the last one first.\<close>

definition clean_step :: "bool \<Rightarrow> string list \<Rightarrow> string \<Rightarrow> string list" where
  "clean_step rooted out p =
     (if p = [] \<or> p = ''.'' then out
      else if p = ''..'' then
        (case out of
           [] \<Rightarrow> if rooted then [] else [''..'']
         | t # ts \<Rightarrow> if t = ''..'' then ''..'' # out else ts)
      else p # out)"

definition clean_parts :: "string \<Rightarrow> string list" where
  "clean_parts path = rev (foldl (clean_step (take 1 path = ''/'')) [] (split_slash path))"

definition Clean :: "string \<Rightarrow> string" where
  "Clean path =
     (if take 1 path = ''/'' then ''/'' @ join_slash (clean_parts path)
      else if clean_parts path = [] then ''.''
      else join_slash (clean_parts path))"

definition Join :: "string list \<Rightarrow> string" where
  "Join elems = (let es = dropWhile (\<lambda>p. p = []) elems in if es = [] then [] else Clean (join_slash es))"

definition Dir_of :: "string \<Rightarrow> string" where
  "Dir_of path = Clean (rev (dropWhile (\<lambda>c. c \<noteq> CHR ''/'') (rev path)))"

subsection \<open>Plain names\<close>

definition plain :: "string \<Rightarrow> bool" where
  "plain p \<longleftrightarrow> p \<noteq> [] \<and> CHR ''/'' \<notin> set p \<and> p \<noteq> ''.'' \<and> p \<noteq> ''..''"

text \<open>A cleaned path that ends in a name, to which more names can be appended.\<close>

definition based :: "string \<Rightarrow> bool" where
  "based b \<longleftrightarrow> b \<noteq> [] \<and> clean_parts b \<noteq> [] \<and> Clean b = b"

lemma split_slash_ne [simp]: "split_slash s \<noteq> []"
  by (induction s) (auto split: list.splits)

lemma split_slash_app: "split_slash (s @ CHR ''/'' # t) = split_slash s @ split_slash t"
proof (induction s)
  case (Cons c s)
  then show ?case
    by (auto simp: Cons_eq_append_conv split: list.splits)
qed simp

lemma split_slash_plain: "CHR ''/'' \<notin> set s \<Longrightarrow> split_slash s = [s]"
  by (induction s) auto

lemma join_slash_snoc: "ps \<noteq> [] \<Longrightarrow> join_slash (ps @ [p]) = join_slash ps @ ''/'' @ p"
  by (induction ps rule: join_slash.induct) auto

lemma clean_parts_app:
  assumes "b \<noteq> []" "plain p"
  shows "clean_parts (b @ CHR ''/'' # p) = clean_parts b @ [p]"
proof -
  have "take 1 (b @ CHR ''/'' # p) = take 1 b"
    using assms(1) by (cases b) simp_all
  moreover have "clean_step r out p = p # out" for r out
    using assms(2) by (simp add: clean_step_def plain_def)
  moreover have "split_slash p = [p]"
    using assms(2) by (simp add: plain_def split_slash_plain)
  ultimately show ?thesis
    by (simp only: clean_parts_def split_slash_app) simp
qed

lemma Clean_app:
  assumes "based b" "plain p"
  shows "Clean (b @ CHR ''/'' # p) = b @ CHR ''/'' # p"
proof -
  have b: "b \<noteq> []" "clean_parts b \<noteq> []" "Clean b = b"
    using assms(1) by (auto simp: based_def)
  have "take 1 (b @ CHR ''/'' # p) = take 1 b"
    using b(1) by (cases b) simp_all
  then have "Clean (b @ CHR ''/'' # p) = Clean b @ CHR ''/'' # p"
    using b(2) by (simp add: Clean_def clean_parts_app [OF b(1) assms(2)] join_slash_snoc)
  with b(3) show ?thesis
    by simp
qed

lemma based_app: "based b \<Longrightarrow> plain p \<Longrightarrow> based (b @ CHR ''/'' # p)"
  using Clean_app clean_parts_app by (auto simp: based_def)

lemma Join_plain: "based b \<Longrightarrow> plain p \<Longrightarrow> Join [b, p] = b @ CHR ''/'' # p"
  using Clean_app by (simp add: Join_def based_def)

lemma Join_plain2: "based b \<Longrightarrow> plain p \<Longrightarrow> plain q \<Longrightarrow> Join [b, p, q] = b @ CHR ''/'' # p @ CHR ''/'' # q"
  using Clean_app [OF based_app, of b p q] by (simp add: Join_def based_def)

subsection \<open>The result of Join is based\<close>

lemma split_join: "ps \<noteq> [] \<Longrightarrow> (\<And>p. p \<in> set ps \<Longrightarrow> CHR ''/'' \<notin> set p) \<Longrightarrow> split_slash (join_slash ps) = ps"
  by (induction ps rule: join_slash.induct) (auto simp: split_slash_app split_slash_plain)

lemma no_slash_split: "p \<in> set (split_slash s) \<Longrightarrow> CHR ''/'' \<notin> set p"
  by (induction s arbitrary: p) (auto split: if_splits list.splits)

text \<open>The components of a cleaned path: names, after leading \<open>..\<close> in a relative path.\<close>

fun clean_shape :: "bool \<Rightarrow> string list \<Rightarrow> bool" where
  "clean_shape rooted [] = True"
| "clean_shape rooted (p # out) =
     ((plain p \<and> clean_shape rooted out) \<or> (p = ''..'' \<and> \<not> rooted \<and> set out \<subseteq> {''..''}))"

lemma clean_shape_dots: "\<not> rooted \<Longrightarrow> set out \<subseteq> {''..''} \<Longrightarrow> clean_shape rooted out"
  by (induction out) auto

lemma clean_step_shape:
  "clean_shape rooted out \<Longrightarrow> CHR ''/'' \<notin> set p \<Longrightarrow> clean_shape rooted (clean_step rooted out p)"
  by (cases out) (auto simp: clean_step_def plain_def intro: clean_shape_dots)

lemma clean_shape_foldl:
  "clean_shape rooted out \<Longrightarrow> (\<And>p. p \<in> set ps \<Longrightarrow> CHR ''/'' \<notin> set p)
     \<Longrightarrow> clean_shape rooted (foldl (clean_step rooted) out ps)"
  by (induction ps arbitrary: out) (simp_all add: clean_step_shape)

lemma clean_shape_parts: "clean_shape (take 1 path = ''/'') (rev (clean_parts path))"
  using no_slash_split by (auto simp: clean_parts_def intro!: clean_shape_foldl)

lemma clean_shape_drop: "clean_shape rooted (xs @ out) \<Longrightarrow> clean_shape rooted out"
  by (induction xs) (auto intro: clean_shape_dots)

lemma clean_again:
  "clean_shape rooted (rev ps @ out) \<Longrightarrow> foldl (clean_step rooted) out ps = rev ps @ out"
proof (induction ps arbitrary: out)
  case (Cons p ps)
  then have "clean_shape rooted (p # out)"
    using clean_shape_drop [of rooted "rev ps" "p # out"] by simp
  then have "clean_step rooted out p = p # out"
    by (cases out) (auto simp: clean_step_def plain_def)
  with Cons show ?case
    by simp
qed simp

lemma clean_parts_name: "p \<in> set (clean_parts path) \<Longrightarrow> p \<noteq> [] \<and> CHR ''/'' \<notin> set p"
proof -
  have "clean_shape r (rev qs) \<Longrightarrow> p \<in> set qs \<Longrightarrow> p \<noteq> [] \<and> CHR ''/'' \<notin> set p" for r qs
  proof (induction qs rule: rev_induct)
    case (snoc q qs)
    then show ?case
      by (auto simp: plain_def)
  qed simp
  then show "p \<in> set (clean_parts path) \<Longrightarrow> p \<noteq> [] \<and> CHR ''/'' \<notin> set p"
    using clean_shape_parts by blast
qed

lemma clean_parts_Clean:
  assumes "clean_parts path \<noteq> []"
  shows "take 1 (Clean path) = ''/'' \<longleftrightarrow> take 1 path = ''/''" "clean_parts (Clean path) = clean_parts path"
proof -
  let ?ps = "clean_parts path" and ?r = "take 1 path = ''/''"
  have shape: "clean_shape ?r (rev ?ps)"
    by (rule clean_shape_parts)
  have name: "p \<noteq> []" "CHR ''/'' \<notin> set p" if "p \<in> set ?ps" for p
    using clean_parts_name [OF that] by blast+
  have split: "split_slash (join_slash ?ps) = ?ps"
    using assms name by (intro split_join) auto
  obtain c cs where "hd ?ps = c # cs" "c \<noteq> CHR ''/''"
    using name [OF hd_in_set [OF assms]] by (cases "hd ?ps") auto
  then have "take 1 (join_slash ?ps) \<noteq> ''/''"
    using assms by (cases ?ps rule: join_slash.cases) auto
  with assms show root: "take 1 (Clean path) = ''/'' \<longleftrightarrow> ?r"
    by (simp add: Clean_def)
  have "foldl (clean_step ?r) [] ?ps = rev ?ps"
    using clean_again [of ?r ?ps "[]"] shape by simp
  moreover have "foldl (clean_step ?r) [] (split_slash (Clean path)) = foldl (clean_step ?r) [] ?ps"
    using assms by (simp add: Clean_def split clean_step_def)
  ultimately show "clean_parts (Clean path) = ?ps"
    by (simp only: clean_parts_def [of "Clean path"] root) simp
qed

lemma Clean_Clean:
  assumes "clean_parts path \<noteq> []"
  shows "Clean (Clean path) = Clean path"
proof -
  have "Clean (Clean path) =
     (if take 1 (Clean path) = ''/'' then ''/'' @ join_slash (clean_parts (Clean path))
      else if clean_parts (Clean path) = [] then ''.'' else join_slash (clean_parts (Clean path)))"
    by (rule Clean_def)
  also have "\<dots> = Clean path"
    unfolding clean_parts_Clean [OF assms] by (rule Clean_def [symmetric])
  finally show ?thesis .
qed

lemma based_Join:
  assumes "dir \<noteq> []" "plain p"
  shows "based (Join [dir, p])"
proof -
  have eq: "Join [dir, p] = Clean (dir @ CHR ''/'' # p)"
    using assms(1) by (simp add: Join_def)
  have parts: "clean_parts (dir @ CHR ''/'' # p) \<noteq> []"
    using clean_parts_app [OF assms] by simp
  from Clean_Clean [OF this] have "Clean (Clean (dir @ CHR ''/'' # p)) = Clean (dir @ CHR ''/'' # p)" .
  moreover have "Clean (dir @ CHR ''/'' # p) \<noteq> []"
    using parts clean_parts_Clean(2) [OF parts] by (auto simp: clean_parts_def clean_step_def)
  ultimately show ?thesis
    using clean_parts_Clean(2) [OF parts] parts by (simp add: based_def eq)
qed

text \<open>The directory of a plain name appended to a based path.\<close>

lemma Dir_of_app:
  assumes "based b" "plain p"
  shows "Dir_of (b @ CHR ''/'' # p) = b"
proof -
  have "dropWhile (\<lambda>c. c \<noteq> CHR ''/'') (rev p @ CHR ''/'' # rev b) = CHR ''/'' # rev b"
    using assms(2) by (subst dropWhile_append2) (auto simp: plain_def)
  then have "Dir_of (b @ CHR ''/'' # p) = Clean (b @ ''/'')"
    by (simp add: Dir_of_def)
  also have "\<dots> = Clean b"
  proof -
    have "take 1 (b @ ''/'') = take 1 b"
      using assms(1) by (cases b) (auto simp: based_def)
    moreover from this have "clean_parts (b @ ''/'') = clean_parts b"
      by (simp only: clean_parts_def split_slash_app) (simp add: clean_step_def)
    ultimately show ?thesis
      by (simp add: Clean_def)
  qed
  finally show ?thesis
    using assms(1) by (simp add: based_def)
qed

lemma join_slash_last: "ps \<noteq> [] \<Longrightarrow> \<exists>pre. join_slash ps = pre @ last ps"
proof (induction ps rule: rev_induct)
  case (snoc p ps)
  show ?case
  proof (cases "ps = []")
    case False
    then have "join_slash (ps @ [p]) = (join_slash ps @ ''/'') @ p"
      by (simp add: join_slash_snoc)
    then show ?thesis
      by (metis last_snoc)
  qed simp
qed simp

text \<open>A based path does not end in a slash.\<close>

lemma based_last:
  assumes "based b"
  shows "drop (length b - 1) b \<noteq> ''/''"
proof -
  let ?ps = "clean_parts b"
  have ps: "?ps \<noteq> []" "last ?ps \<noteq> []" "CHR ''/'' \<notin> set (last ?ps)"
    using assms clean_parts_name [of "last ?ps" b] by (simp_all add: based_def)
  obtain pre where pre: "join_slash ?ps = pre @ last ?ps"
    using join_slash_last [OF ps(1)] by blast
  have "b = Clean b"
    using assms by (simp add: based_def)
  with pre ps(1) have "b = pre @ last ?ps \<or> b = (''/'' @ pre) @ last ?ps"
    by (simp add: Clean_def split: if_splits)
  then obtain pre where "b = pre @ last ?ps"
    by blast
  moreover obtain xs x where "last ?ps = xs @ [x]"
    using ps(2) by (metis append_butlast_last_id)
  ultimately have b: "b = (pre @ xs) @ [x]" and x: "x \<noteq> CHR ''/''"
    using ps(3) by auto
  have "drop (length b - 1) b = [x]"
    by (simp add: b)
  with x show ?thesis
    by simp
qed

end
