(* ===== verification/Disk.thy ===== *)
theory Disk
  imports Paths Go_Errors Decimal
begin

text \<open>
  The file system as the chunk store sees it through package \<open>os\<close>: a map from cleaned paths to
  directories and regular files. The operating system is not part of the repository; what it
  decides is the parameter \<open>os_env\<close>: whether system call number \<open>t\<close> fails and how, how much of the data
  a failing write leaves behind, how few bytes a read delivers, the random numbers of \<open>CreateTemp\<close>
  and the buffers an \<open>io.ReadAll\<close> offers. Permissions, links and other processes are not modelled
  otherwise.
\<close>

datatype node = Dir | Reg "byte list"

type_synonym nodes = "(string \<times> node) list"

datatype os_error = ENOENT | ENOTDIR | EISDIR | EEXIST | ENOTEMPTY | EOF | ErrUnexpectedEOF | OsErr string

record os_env =
  os_fault :: "nat \<Rightarrow> os_error option"
  os_partial :: "nat \<Rightarrow> nat"
  os_short :: "nat \<Rightarrow> nat"
  os_random :: "nat \<Rightarrow> nat"
  os_buffer :: "nat \<Rightarrow> nat"
  os_dirsize :: "nat"

record disk =
  dk_nodes :: nodes
  dk_tick :: nat

definition os_ok :: "os_env \<Rightarrow> bool" where
  "os_ok os \<longleftrightarrow> (\<forall>t. os_fault os t = None)"

definition plain_os :: os_env where
  "plain_os = \<lparr>os_fault = (\<lambda>t. None), os_partial = (\<lambda>t. 0), os_short = (\<lambda>t. 0), os_random = (\<lambda>t. t),
     os_buffer = (\<lambda>t. 511), os_dirsize = 4096\<rparr>"

fun errno_text :: "os_error \<Rightarrow> string" where
  "errno_text ENOENT = ''no such file or directory''"
| "errno_text ENOTDIR = ''not a directory''"
| "errno_text EISDIR = ''is a directory''"
| "errno_text EEXIST = ''file exists''"
| "errno_text ENOTEMPTY = ''directory not empty''"
| "errno_text EOF = ''EOF''"
| "errno_text ErrUnexpectedEOF = ''unexpected EOF''"
| "errno_text (OsErr m) = m"

text \<open>\<open>*fs.PathError\<close>; the errors of a reader have no path.\<close>

definition path_error :: "string \<Rightarrow> string \<Rightarrow> os_error \<Rightarrow> go_error" where
  "path_error what path err = PlainErr (what @ '' '' @ path @ '': '' @ errno_text err)"

definition read_error :: "os_error \<Rightarrow> go_error" where
  "read_error err = PlainErr (errno_text err)"

definition os_IsNotExist :: "os_error \<Rightarrow> bool" where
  "os_IsNotExist err \<longleftrightarrow> err = ENOENT"

definition os_IsExist :: "os_error \<Rightarrow> bool" where
  "os_IsExist err \<longleftrightarrow> err = EEXIST \<or> err = ENOTEMPTY"

subsection \<open>System calls\<close>

definition sys :: "os_env \<Rightarrow> (nodes \<Rightarrow> os_error + 'a \<times> nodes) \<Rightarrow> (disk, os_error, 'a) op" where
  "sys os f d =
     (let d1 = d\<lparr>dk_tick := Suc (dk_tick d)\<rparr>
      in case os_fault os (dk_tick d) of
           Some err \<Rightarrow> (Inl err, d1)
         | None \<Rightarrow> (case f (dk_nodes d) of
             Inl err \<Rightarrow> (Inl err, d1)
           | Inr (x, ns) \<Rightarrow> (Inr x, d1\<lparr>dk_nodes := ns\<rparr>)))"

text \<open>The directories on the way to a path, from the top.\<close>

definition ancestors :: "string \<Rightarrow> string list" where
  "ancestors p = map (\<lambda>i. take i p) (filter (\<lambda>i. p ! i = CHR ''/'') [1..<length p])"

definition is_reg :: "node option \<Rightarrow> bool" where
  "is_reg x \<longleftrightarrow> (case x of Some (Reg bs) \<Rightarrow> True | _ \<Rightarrow> False)"

definition resolve :: "string \<Rightarrow> nodes \<Rightarrow> os_error + node" where
  "resolve p ns =
     (if list_ex (\<lambda>a. is_reg (map_of ns a)) (ancestors p) then Inl ENOTDIR
      else case map_of ns p of None \<Rightarrow> Inl ENOENT | Some x \<Rightarrow> Inr x)"

text \<open>Whether a new entry can be made at a path: every directory on the way must exist.\<close>

definition parent_error :: "string \<Rightarrow> nodes \<Rightarrow> os_error option" where
  "parent_error p ns =
     (if list_ex (\<lambda>a. is_reg (map_of ns a)) (ancestors p) then Some ENOTDIR
      else if list_all (\<lambda>a. map_of ns a = Some Dir) (ancestors p) then None
      else Some ENOENT)"

definition sys_open :: "string \<Rightarrow> nodes \<Rightarrow> os_error + node \<times> nodes" where
  "sys_open p ns = (case resolve p ns of Inl err \<Rightarrow> Inl err | Inr x \<Rightarrow> Inr (x, ns))"

definition sys_mkdir :: "string \<Rightarrow> nodes \<Rightarrow> os_error + unit \<times> nodes" where
  "sys_mkdir p ns =
     (case map_of ns p of
        None \<Rightarrow> Inr ((), AList.update p Dir ns)
      | Some Dir \<Rightarrow> Inr ((), ns)
      | Some (Reg bs) \<Rightarrow> Inl ENOTDIR)"

text \<open>\<open>open\<close> with \<open>O_CREATE|O_EXCL\<close>.\<close>

definition sys_create :: "string \<Rightarrow> nodes \<Rightarrow> os_error + unit \<times> nodes" where
  "sys_create p ns =
     (case parent_error p ns of
        Some err \<Rightarrow> Inl err
      | None \<Rightarrow> (case map_of ns p of
          Some x \<Rightarrow> Inl EEXIST
        | None \<Rightarrow> Inr ((), AList.update p (Reg []) ns)))"

definition append_to :: "string \<Rightarrow> byte list \<Rightarrow> nodes \<Rightarrow> nodes" where
  "append_to p bs ns =
     (case map_of ns p of Some (Reg old) \<Rightarrow> AList.update p (Reg (old @ bs)) ns | _ \<Rightarrow> ns)"

text \<open>Go's \<open>os.Rename\<close> refuses to replace a directory.\<close>

definition sys_rename :: "string \<Rightarrow> string \<Rightarrow> nodes \<Rightarrow> os_error + unit \<times> nodes" where
  "sys_rename p q ns =
     (case resolve p ns of
        Inl err \<Rightarrow> Inl err
      | Inr x \<Rightarrow>
          (case parent_error q ns of
             Some err \<Rightarrow> Inl err
           | None \<Rightarrow>
               (if map_of ns q = Some Dir then Inl EEXIST
                else Inr ((), AList.update q x (AList.delete p ns)))))"

definition has_children :: "string \<Rightarrow> nodes \<Rightarrow> bool" where
  "has_children p ns \<longleftrightarrow> list_ex (\<lambda>q. prefix (p @ ''/'') (fst q)) ns"

definition sys_remove :: "string \<Rightarrow> nodes \<Rightarrow> os_error + unit \<times> nodes" where
  "sys_remove p ns =
     (case resolve p ns of
        Inl err \<Rightarrow> Inl err
      | Inr (Reg bs) \<Rightarrow> Inr ((), AList.delete p ns)
      | Inr Dir \<Rightarrow> if has_children p ns then Inl ENOTEMPTY else Inr ((), AList.delete p ns))"

subsection \<open>Package os\<close>

definition Open :: "os_env \<Rightarrow> string \<Rightarrow> (disk, os_error, node) op" where
  "Open os p = sys os (sys_open p)"

definition node_size :: "os_env \<Rightarrow> node \<Rightarrow> int64" where
  "node_size os x = (case x of Dir \<Rightarrow> word_of_nat (os_dirsize os) | Reg bs \<Rightarrow> word_of_nat (length bs))"

definition Stat :: "os_env \<Rightarrow> string \<Rightarrow> (disk, os_error, int64) op" where
  "Stat os p = bindR (sys os (sys_open p)) (\<lambda>x. retR (node_size os x))"

fun mkdirs :: "os_env \<Rightarrow> string list \<Rightarrow> (disk, os_error, unit) op" where
  "mkdirs os [] = retR ()"
| "mkdirs os (p # ps) = bindR (sys os (sys_mkdir p)) (\<lambda>_. mkdirs os ps)"

definition MkdirAll :: "os_env \<Rightarrow> string \<Rightarrow> (disk, os_error, unit) op" where
  "MkdirAll os p = mkdirs os (ancestors p @ [p])"

text \<open>
  \<open>os.CreateTemp(dir, "tmp-*.chunk")\<close>: it tries random names until one is new, ten thousand at most.
\<close>

definition temp_name :: "string \<Rightarrow> nat \<Rightarrow> string" where
  "temp_name dir r =
     dir @ (if drop (length dir - 1) dir = ''/'' then [] else ''/'') @ ''tmp-'' @ dec_nat (r mod 2 ^ 32) @ ''.chunk''"

fun create_temp :: "os_env \<Rightarrow> string \<Rightarrow> nat \<Rightarrow> (disk, os_error, string) op" where
  "create_temp os dir 0 d = (Inl EEXIST, d)"
| "create_temp os dir (Suc tries) d =
     (let name = temp_name dir (os_random os (dk_tick d))
      in case sys os (sys_create name) d of
           (Inr _, d1) \<Rightarrow> (Inr name, d1)
         | (Inl err, d1) \<Rightarrow> if os_IsExist err then create_temp os dir tries d1 else (Inl err, d1))"

definition CreateTemp :: "os_env \<Rightarrow> string \<Rightarrow> (disk, os_error, string) op" where
  "CreateTemp os dir = create_temp os dir 10000"

text \<open>A write that fails may have written a part of its data.\<close>

definition Write :: "os_env \<Rightarrow> string \<Rightarrow> byte list \<Rightarrow> (disk, os_error, unit) op" where
  "Write os p bs d =
     (let t = dk_tick d; d1 = d\<lparr>dk_tick := Suc t\<rparr>
      in case os_fault os t of
           Some err \<Rightarrow> (Inl err, d1\<lparr>dk_nodes := append_to p (take (os_partial os t) bs) (dk_nodes d)\<rparr>)
         | None \<Rightarrow> (Inr (), d1\<lparr>dk_nodes := append_to p bs (dk_nodes d)\<rparr>))"

text \<open>\<open>Sync\<close> and \<open>Close\<close> can only fail.\<close>

definition no_change :: "os_env \<Rightarrow> (disk, os_error, unit) op" where
  "no_change os = sys os (\<lambda>ns. Inr ((), ns))"

definition Rename :: "os_env \<Rightarrow> string \<Rightarrow> string \<Rightarrow> (disk, os_error, unit) op" where
  "Rename os p q = sys os (sys_rename p q)"

definition Remove :: "os_env \<Rightarrow> string \<Rightarrow> (disk, os_error, unit) op" where
  "Remove os p = sys os (sys_remove p)"

subsection \<open>Reading an open file\<close>

text \<open>
  \<open>(*os.File).Read\<close> into a buffer of \<open>k > 0\<close> bytes: at least one byte while there are any, never more
  than the buffer holds, and perhaps fewer; then \<open>EOF\<close>. The file is what is left to read of it.
\<close>

definition delivered :: "os_env \<Rightarrow> nat \<Rightarrow> nat \<Rightarrow> byte list \<Rightarrow> nat" where
  "delivered os t k rest = (if os_short os t = 0 then min k (length rest) else min (os_short os t) (min k (length rest)))"

definition File_Read :: "os_env \<Rightarrow> nat \<Rightarrow> byte list \<Rightarrow> (disk, os_error, byte list) op" where
  "File_Read os k rest d =
     (let t = dk_tick d; d1 = d\<lparr>dk_tick := Suc t\<rparr>
      in case os_fault os t of
           Some err \<Rightarrow> (Inl err, d1)
         | None \<Rightarrow> if rest = [] then (Inl EOF, d1) else (Inr (take (delivered os t k rest) rest), d1))"

lemma delivered_bounds: "0 < k \<Longrightarrow> rest \<noteq> [] \<Longrightarrow> 0 < delivered os t k rest"
  "delivered os t k rest \<le> k" "delivered os t k rest \<le> length rest"
  by (auto simp: delivered_def)

lemma File_ReadD:
  assumes "File_Read os k rest d = (Inr bs, d1)" "0 < k"
  shows "bs \<noteq> [] \<and> length bs \<le> k \<and> rest = bs @ drop (length bs) rest \<and> dk_nodes d1 = dk_nodes d"
proof -
  from assms(1) have bs: "bs = take (delivered os (dk_tick d) k rest) rest" "rest \<noteq> []" "dk_nodes d1 = dk_nodes d"
    by (auto simp: File_Read_def Let_def split: option.splits if_splits)
  then have "length bs = delivered os (dk_tick d) k rest"
    using delivered_bounds(3) [of os "dk_tick d" k rest] by simp
  with bs delivered_bounds(1) [OF assms(2) bs(2), of os "dk_tick d"] delivered_bounds(2) [of os "dk_tick d" k rest]
  show ?thesis
    by (auto simp flip: append_take_drop_id)
qed

text \<open>\<open>io.ReadFull\<close>: reads until the buffer is full.\<close>

function read_full :: "os_env \<Rightarrow> nat \<Rightarrow> byte list \<Rightarrow> byte list \<Rightarrow> (disk, os_error, byte list \<times> byte list) op" where
  "read_full os k got rest d =
     (if k = 0 then (Inr (got, rest), d)
      else case File_Read os k rest d of
             (Inr bs, d1) \<Rightarrow> read_full os (k - length bs) (got @ bs) (drop (length bs) rest) d1
           | (Inl err, d1) \<Rightarrow>
               (Inl (if err = EOF \<and> got \<noteq> [] then ErrUnexpectedEOF else err), d1))"
  by pat_completeness auto
termination
  by (relation "measure (\<lambda>(os, k, got, rest, d). k)") (auto dest!: sym [of "(_, _)"] File_ReadD)

declare read_full.simps [simp del]

definition ReadFull :: "os_env \<Rightarrow> nat \<Rightarrow> node \<Rightarrow> (disk, os_error, byte list \<times> byte list) op" where
  "ReadFull os k x =
     (case x of Dir \<Rightarrow> bindR (no_change os) (\<lambda>_. failR EISDIR) | Reg bs \<Rightarrow> read_full os k [] bs)"

end
