(* ===== verification/Sha256.thy ===== *)
theory Sha256
  imports Dfs_Prelude
begin

text \<open>
  What the chunk store takes from Go's standard library to seal a chunk: \<open>crypto/sha256\<close> (the hash
  of FIPS 180-4) and \<open>binary.BigEndian\<close> of \<open>encoding/binary\<close>. The proofs about the chunk store use
  the length of a digest and the round trip of the encoding of a length, nothing else.
\<close>

unbundle bit_operations_syntax

subsection \<open>Big-endian integers\<close>

type_synonym uint32 = "32 word"
type_synonym uint64 = "64 word"

definition PutUint64 :: "uint64 \<Rightarrow> byte list" where
  "PutUint64 v = map (\<lambda>k. ucast (drop_bit k v)) [56, 48, 40, 32, 24, 16, 8, 0]"

definition Uint64 :: "byte list \<Rightarrow> uint64" where
  "Uint64 b = foldl (\<lambda>acc x. push_bit 8 acc OR ucast x) 0 b"

definition Uint32 :: "byte list \<Rightarrow> uint32" where
  "Uint32 b = foldl (\<lambda>acc x. push_bit 8 acc OR ucast x) 0 b"

definition PutUint32 :: "uint32 \<Rightarrow> byte list" where
  "PutUint32 v = map (\<lambda>k. ucast (drop_bit k v)) [24, 16, 8, 0]"

lemma length_PutUint64 [simp]: "length (PutUint64 v) = 8"
  by (simp add: PutUint64_def)

lemma byte_step:
  "push_bit 8 (drop_bit (8 + k) v) OR ucast (ucast (drop_bit k v) :: byte) = drop_bit k (v :: uint64)"
  by (rule bit_word_eqI) (auto simp: bit_simps dest: bit_imp_le_length)

lemma Uint64_PutUint64 [simp]: "Uint64 (PutUint64 v) = v"
proof -
  have "drop_bit 64 v = 0"
    by (rule bit_word_eqI) (auto simp: bit_simps dest: bit_imp_le_length)
  then have "push_bit 8 0 OR ucast (ucast (drop_bit 56 v) :: byte) = drop_bit 56 v"
    using byte_step [of 56 v] by simp
  then show ?thesis
    using byte_step [of 48 v] byte_step [of 40 v] byte_step [of 32 v] byte_step [of 24 v] byte_step [of 16 v]
      byte_step [of 8 v] byte_step [of 0 v]
    by (simp add: Uint64_def PutUint64_def)
qed

lemma PutUint64_inject [simp]: "PutUint64 v = PutUint64 w \<longleftrightarrow> v = w"
  by (metis Uint64_PutUint64)

subsection \<open>SHA-256\<close>

definition sha_K :: "uint32 list" where
  "sha_K = [
    0x428a2f98, 0x71374491, 0xb5c0fbcf, 0xe9b5dba5, 0x3956c25b, 0x59f111f1, 0x923f82a4, 0xab1c5ed5,
    0xd807aa98, 0x12835b01, 0x243185be, 0x550c7dc3, 0x72be5d74, 0x80deb1fe, 0x9bdc06a7, 0xc19bf174,
    0xe49b69c1, 0xefbe4786, 0x0fc19dc6, 0x240ca1cc, 0x2de92c6f, 0x4a7484aa, 0x5cb0a9dc, 0x76f988da,
    0x983e5152, 0xa831c66d, 0xb00327c8, 0xbf597fc7, 0xc6e00bf3, 0xd5a79147, 0x06ca6351, 0x14292967,
    0x27b70a85, 0x2e1b2138, 0x4d2c6dfc, 0x53380d13, 0x650a7354, 0x766a0abb, 0x81c2c92e, 0x92722c85,
    0xa2bfe8a1, 0xa81a664b, 0xc24b8b70, 0xc76c51a3, 0xd192e819, 0xd6990624, 0xf40e3585, 0x106aa070,
    0x19a4c116, 0x1e376c08, 0x2748774c, 0x34b0bcb5, 0x391c0cb3, 0x4ed8aa4a, 0x5b9cca4f, 0x682e6ff3,
    0x748f82ee, 0x78a5636f, 0x84c87814, 0x8cc70208, 0x90befffa, 0xa4506ceb, 0xbef9a3f7, 0xc67178f2]"

type_synonym sha_state = "uint32 \<times> uint32 \<times> uint32 \<times> uint32 \<times> uint32 \<times> uint32 \<times> uint32 \<times> uint32"

definition sha_init :: sha_state where
  "sha_init = (0x6a09e667, 0xbb67ae85, 0x3c6ef372, 0xa54ff53a, 0x510e527f, 0x9b05688c, 0x1f83d9ab, 0x5be0cd19)"

text \<open>One round; \<open>ws\<close> is the window of the next sixteen words of the message schedule.\<close>

definition next_word :: "uint32 list \<Rightarrow> uint32" where
  "next_word ws =
     (let s0 = word_rotr 7 (ws ! 1) XOR word_rotr 18 (ws ! 1) XOR drop_bit 3 (ws ! 1);
          s1 = word_rotr 17 (ws ! 14) XOR word_rotr 19 (ws ! 14) XOR drop_bit 10 (ws ! 14)
      in s1 + ws ! 9 + s0 + ws ! 0)"

definition sha_round :: "uint32 \<Rightarrow> uint32 \<Rightarrow> sha_state \<Rightarrow> sha_state" where
  "sha_round k w st =
     (let (a, b, c, d, e, f, g, h) = st;
          t1 = h + (word_rotr 6 e XOR word_rotr 11 e XOR word_rotr 25 e) + ((e AND f) XOR (NOT e AND g)) + k + w;
          t2 = (word_rotr 2 a XOR word_rotr 13 a XOR word_rotr 22 a) + ((a AND b) XOR (a AND c) XOR (b AND c))
      in (t1 + t2, a, b, c, d + t1, e, f, g))"

fun sha_rounds :: "uint32 list \<Rightarrow> uint32 list \<Rightarrow> sha_state \<Rightarrow> sha_state" where
  "sha_rounds [] ws st = st"
| "sha_rounds (k # ks) ws st = sha_rounds ks (tl ws @ [next_word ws]) (sha_round k (hd ws) st)"

definition sha_block :: "sha_state \<Rightarrow> byte list \<Rightarrow> sha_state" where
  "sha_block st block =
     (let (a, b, c, d, e, f, g, h) = st;
          (a', b', c', d', e', f', g', h') =
            sha_rounds sha_K (map (\<lambda>i. Uint32 (take 4 (drop (4 * i) block))) [0..<16]) st
      in (a + a', b + b', c + c', d + d', e + e', f + f', g + g', h + h'))"

definition sha_pad :: "byte list \<Rightarrow> byte list" where
  "sha_pad m = m @ 0x80 # replicate (nat ((55 - int (length m)) mod 64)) 0 @ PutUint64 (8 * word_of_nat (length m))"

fun sha_blocks :: "nat \<Rightarrow> byte list \<Rightarrow> sha_state \<Rightarrow> sha_state" where
  "sha_blocks 0 m st = st"
| "sha_blocks (Suc n) m st = sha_blocks n (drop 64 m) (sha_block st (take 64 m))"

definition sha256 :: "byte list \<Rightarrow> byte list" where
  "sha256 m =
     (let p = sha_pad m; (a, b, c, d, e, f, g, h) = sha_blocks (length p div 64) p sha_init
      in concat (map PutUint32 [a, b, c, d, e, f, g, h]))"

lemma length_sha256 [simp]: "length (sha256 m) = 32"
  by (simp add: sha256_def Let_def PutUint32_def case_prod_beta)

end
