(* ===== verification/Chunk_Store.thy ===== *)
theory Chunk_Store
  imports Disk Sha256
begin

text \<open>
  \<open>internal/storage/chunkstore/store.go\<close>: the chunks of a storage node as files on its disk. A chunk
  file is a SHA-256 digest, a big-endian length and the data. The state of an operation is the
  store's counters and the disk; the mutex only protects the counter and is not visible here, where
  an operation runs alone. A \<open>context\<close> is the error it reports when it is already done.
\<close>

definition checksumSize :: nat where "checksumSize = 32"
definition lengthSize :: nat where "lengthSize = 8"
definition headerSize :: nat where "headerSize = checksumSize + lengthSize"
definition maxSize :: nat where "maxSize = 16 * 1024 * 1024"

lemmas size_defs = checksumSize_def lengthSize_def headerSize_def maxSize_def

record disk_store =
  ds_baseDir :: string
  ds_capacityBytes :: int64
  ds_usedBytes :: int64

record chunk_disk =
  cs_store :: disk_store
  cs_disk :: disk

definition on_disk :: "(disk, 'e, 'a) op \<Rightarrow> (chunk_disk, 'e, 'a) op" where
  "on_disk m s = (let (r, d) = m (cs_disk s) in (r, s\<lparr>cs_disk := d\<rparr>))"

definition add_used :: "int64 \<Rightarrow> (chunk_disk, go_error, unit) op" where
  "add_used n s = (Inr (), s\<lparr>cs_store := (cs_store s)\<lparr>ds_usedBytes := ds_usedBytes (cs_store s) + n\<rparr>\<rparr>)"

text \<open>\<open>customerrors.Wrap(CodeInternal, ...)\<close>.\<close>

definition internal :: "string \<Rightarrow> go_error \<Rightarrow> go_error" where
  "internal what err = Wrap_error CodeInternal what err"

subsection \<open>Opening a store\<close>

definition under :: "string \<Rightarrow> string \<Rightarrow> bool" where
  "under base p \<longleftrightarrow> prefix (base @ ''/'') p"

fun walk_sum :: "os_env \<Rightarrow> nodes \<Rightarrow> int64 \<Rightarrow> (disk, go_error, int64) op" where
  "walk_sum os [] acc = retR acc"
| "walk_sum os ((p, x) # rest) acc =
     bindR (mapErrR (path_error ''lstat'' p) (no_change os))
       (\<lambda>_. walk_sum os rest (case x of Dir \<Rightarrow> acc | Reg bs \<Rightarrow> acc + word_of_nat (length bs)))"

definition scanUsedBytes :: "os_env \<Rightarrow> string \<Rightarrow> (disk, go_error, int64) op" where
  "scanUsedBytes os baseDir d =
     mapErrR (internal ''failed to scan chunk directory'')
       (walk_sum os (filter (\<lambda>e. under baseDir (fst e)) (dk_nodes d)) 0) d"

definition New_store :: "os_env \<Rightarrow> string \<Rightarrow> int64 \<Rightarrow> (disk, go_error, disk_store) op" where
  "New_store os baseDir capacityBytes =
     (if baseDir = [] then failR (New_error CodeInvalidArgument ''base directory cannot be empty'')
      else let path = Join [baseDir, ''chunks'']
           in bindR (mapErrR (\<lambda>err. internal ''failed to create base directory'' (path_error ''mkdir'' path err))
                       (MkdirAll os path))
                (\<lambda>_. bindR (scanUsedBytes os path)
                (\<lambda>usedBytes. retR \<lparr>ds_baseDir = path, ds_capacityBytes = capacityBytes, ds_usedBytes = usedBytes\<rparr>)))"

definition AvailableBytes :: "disk_store \<Rightarrow> int64" where
  "AvailableBytes ds = ds_capacityBytes ds - ds_usedBytes ds"

definition CapacityBytes :: "disk_store \<Rightarrow> int64" where
  "CapacityBytes ds = ds_capacityBytes ds"

definition Path :: "disk_store \<Rightarrow> string \<Rightarrow> string" where
  "Path ds chunkID =
     (if length chunkID \<le> 2 then Join [ds_baseDir ds, chunkID @ ''.chunk'']
      else Join [ds_baseDir ds, take 2 chunkID, drop 2 chunkID @ ''.chunk''])"

subsection \<open>Put\<close>

text \<open>The check of an existing file, header only: \<open>True\<close> when the chunk is already there.\<close>

definition check_existing :: "os_env \<Rightarrow> string \<Rightarrow> string \<Rightarrow> byte list \<Rightarrow> uint64 \<Rightarrow> (disk, go_error, bool) op" where
  "check_existing os finalPath chunkID checksum dataLen d =
     (let mismatch = New_error CodeIntegrityViolation (''existing chunk mismatch for '' @ chunkID)
      in case Open os finalPath d of
           (Inl err, d1) \<Rightarrow> (Inr False, d1)
         | (Inr x, d1) \<Rightarrow>
             (case ReadFull os headerSize x d1 of
                (Inl err, d2) \<Rightarrow> (Inl mismatch, d2)
              | (Inr (header, rest), d2) \<Rightarrow>
                  if Uint64 (drop checksumSize header) = dataLen \<and> take checksumSize header = checksum
                  then (Inr True, d2) else (Inl mismatch, d2)))"

text \<open>A step of the write whose failure closes or only removes the temporary file.\<close>

definition or_undo ::
  "(disk \<Rightarrow> disk) \<Rightarrow> string \<Rightarrow> (os_error \<Rightarrow> go_error) \<Rightarrow> (disk, os_error, unit) op \<Rightarrow> (disk, go_error, unit) op" where
  "or_undo undo what wrap m d =
     (case m d of
        (Inl err, d1) \<Rightarrow> (Inl (internal what (wrap err)), undo d1)
      | (Inr _, d1) \<Rightarrow> (Inr (), d1))"

definition drop_temp :: "os_env \<Rightarrow> string \<Rightarrow> disk \<Rightarrow> disk" where
  "drop_temp os temp d = snd (Remove os temp d)"

definition close_and_drop :: "os_env \<Rightarrow> string \<Rightarrow> disk \<Rightarrow> disk" where
  "close_and_drop os temp d = drop_temp os temp (snd (no_change os d))"

definition write_temp :: "os_env \<Rightarrow> string \<Rightarrow> string \<Rightarrow> byte list \<Rightarrow> byte list \<Rightarrow> (disk, go_error, unit) op" where
  "write_temp os temp finalPath checksum data =
     bindR (or_undo (close_and_drop os temp) ''failed to write checksum'' (path_error ''write'' temp)
              (Write os temp checksum)) (\<lambda>_.
     bindR (or_undo (close_and_drop os temp) ''failed to write length header'' (path_error ''write'' temp)
              (Write os temp (PutUint64 (word_of_nat (length data))))) (\<lambda>_.
     bindR (or_undo (close_and_drop os temp) ''failed to write chunk data'' (path_error ''write'' temp)
              (Write os temp data)) (\<lambda>_.
     bindR (or_undo (close_and_drop os temp) ''failed to fsync temp file'' (path_error ''sync'' temp)
              (no_change os)) (\<lambda>_.
     bindR (or_undo (drop_temp os temp) ''failed to close temp file'' (path_error ''close'' temp)
              (no_change os)) (\<lambda>_.
       or_undo (drop_temp os temp) ''failed to rename temp file'' (path_error (''rename '' @ temp) finalPath)
              (Rename os temp finalPath))))))"

definition write_chunk :: "os_env \<Rightarrow> string \<Rightarrow> byte list \<Rightarrow> byte list \<Rightarrow> (disk, go_error, unit) op" where
  "write_chunk os finalPath checksum data =
     (let dir = Dir_of finalPath
      in bindR (mapErrR (\<lambda>err. internal ''failed to create shard directory'' (path_error ''mkdir'' dir err))
                  (MkdirAll os dir)) (\<lambda>_.
         bindR (mapErrR (\<lambda>err. internal ''failed to create temp file''
                    (path_error (if err = EEXIST then ''createtemp'' else ''open'') dir err))
                  (CreateTemp os dir)) (\<lambda>temp.
           write_temp os temp finalPath checksum data)))"

definition put_data :: "os_env \<Rightarrow> string \<Rightarrow> string \<Rightarrow> byte list \<Rightarrow> (chunk_disk, go_error, unit) op" where
  "put_data os finalPath chunkID data =
     (if length data > maxSize
      then failR (New_error CodeInvalidArgument ''chunk size out of allowed range'')
      else bindR (on_disk (check_existing os finalPath chunkID (sha256 data) (word_of_nat (length data)))) (\<lambda>present.
        if present then retR ()
        else bindR (on_disk (write_chunk os finalPath (sha256 data) data)) (\<lambda>_.
          add_used (word_of_nat headerSize + word_of_nat (length data)))))"

text \<open>\<open>src\<close> is what \<open>io.ReadAll\<close> makes of the reader.\<close>

definition Put :: "os_env \<Rightarrow> go_error option \<Rightarrow> string \<Rightarrow> go_error + byte list \<Rightarrow> (chunk_disk, go_error, unit) op" where
  "Put os ctx chunkID src s =
     (case ctx of
        Some err \<Rightarrow> (Inl (internal ''put cancelled'' err), s)
      | None \<Rightarrow>
          (case src of
             Inl err \<Rightarrow> (Inl (internal ''failed to read input data'' err), s)
           | Inr data \<Rightarrow> put_data os (Path (cs_store s) chunkID) chunkID data s))"

subsection \<open>Get and the verifying reader\<close>

record verified =
  v_file :: "byte list"
  v_closed :: bool
  v_expectedHash :: "byte list"
  v_expectedLength :: uint64
  v_hasher :: "byte list"
  v_readBytes :: uint64
  v_done :: bool

definition Get :: "os_env \<Rightarrow> go_error option \<Rightarrow> string \<Rightarrow> (chunk_disk, go_error, verified) op" where
  "Get os ctx chunkID s =
     (case ctx of
        Some err \<Rightarrow> (Inl (internal ''get cancelled'' err), s)
      | None \<Rightarrow>
          (let chunkPath = Path (cs_store s) chunkID
           in bindR (on_disk (mapErrR (\<lambda>err. if os_IsNotExist err
                         then New_error CodeNotFound (''chunk not found: '' @ chunkID)
                         else internal ''failed to open chunk file'' (path_error ''open'' chunkPath err))
                       (Open os chunkPath)))
                (\<lambda>x. bindR (on_disk (mapErrR (\<lambda>err. Wrap_error CodeIntegrityViolation ''failed to read chunk header'' (read_error err))
                       (ReadFull os headerSize x)))
                (\<lambda>(header, rest). retR
                   \<lparr>v_file = rest, v_closed = False, v_expectedHash = take checksumSize header,
                    v_expectedLength = Uint64 (drop checksumSize header), v_hasher = [], v_readBytes = 0,
                    v_done = False\<rparr>)) s))"

text \<open>\<open>Read\<close> returns the bytes and how the call ended; the digest is taken of everything hashed so far.\<close>

datatype read_end = More | AtEOF | Failed go_error

definition v_Read :: "os_env \<Rightarrow> nat \<Rightarrow> verified \<Rightarrow> disk \<Rightarrow> (byte list \<times> read_end) \<times> verified \<times> disk" where
  "v_Read os k v d =
     (if v_closed v then (([], Failed (PlainErr ''file already closed'')), v, d)
      else case File_Read os k (v_file v) d of
          (Inr bs, d1) \<Rightarrow>
            ((bs, More), v\<lparr>v_file := drop (length bs) (v_file v), v_hasher := v_hasher v @ bs,
                v_readBytes := v_readBytes v + word_of_nat (length bs)\<rparr>, d1)
        | (Inl err, d1) \<Rightarrow>
            (if err \<noteq> EOF then (([], Failed (read_error err)), v, d1)
             else if v_done v then (([], AtEOF), v, d1)
             else if v_readBytes v \<noteq> v_expectedLength v \<or> sha256 (v_hasher v) \<noteq> v_expectedHash v
             then (([], Failed (New_error CodeIntegrityViolation ''checksum or length mismatch detected'')),
                   v\<lparr>v_closed := True\<rparr>, d1)
             else (([], AtEOF), v\<lparr>v_done := True\<rparr>, d1)))"

lemma v_Read_More:
  assumes "v_Read os (Suc k) v d = ((bs, More), v1, d1)"
  shows "File_Read os (Suc k) (v_file v) d = (Inr bs, d1)"
    "v1 = v\<lparr>v_file := drop (length bs) (v_file v), v_hasher := v_hasher v @ bs,
                v_readBytes := v_readBytes v + word_of_nat (length bs)\<rparr>"
  using assms by (auto simp: v_Read_def split: if_splits prod.splits sum.splits)

lemma v_Read_progress:
  assumes "((bs, More), v1, d1) = v_Read os (Suc k) v d"
  shows "length (v_file v1) < length (v_file v)"
proof -
  note more = v_Read_More [OF assms [symmetric]]
  have "bs \<noteq> []" "v_file v = bs @ drop (length bs) (v_file v)"
    using File_ReadD [OF more(1)] by simp_all
  then have "0 < length bs" "length bs \<le> length (v_file v)"
    by (simp, metis length_append le_add1)
  then have "length (v_file v) - length bs < length (v_file v)"
    by linarith
  then show ?thesis
    by (simp add: more(2))
qed

text \<open>\<open>io.ReadAll\<close> on it, with buffers of any size.\<close>

function ReadAll :: "os_env \<Rightarrow> byte list \<Rightarrow> verified \<Rightarrow> disk \<Rightarrow> (go_error + byte list) \<times> verified \<times> disk" where
  "ReadAll os b v d =
     (case v_Read os (Suc (os_buffer os (dk_tick d))) v d of
        ((bs, More), v1, d1) \<Rightarrow> ReadAll os (b @ bs) v1 d1
      | ((bs, AtEOF), v1, d1) \<Rightarrow> (Inr (b @ bs), v1, d1)
      | ((bs, Failed err), v1, d1) \<Rightarrow> (Inl err, v1, d1))"
  by pat_completeness auto
termination
proof (relation "measure (\<lambda>(os, b, v, d). length (v_file v))", goal_cases)
  case (2 os b v d x xa bs r v1 d1)
  then have "((bs, More), v1, d1) = v_Read os (Suc (os_buffer os (dk_tick d))) v d"
    by simp
  from v_Read_progress [OF this] 2 show ?case
    by (auto dest!: sym [of "(v1, d1)"])
qed simp

declare ReadAll.simps [simp del]

definition v_Close :: "verified \<Rightarrow> verified" where
  "v_Close v = v\<lparr>v_closed := True\<rparr>"

subsection \<open>Delete and Exists\<close>

definition Delete :: "os_env \<Rightarrow> string \<Rightarrow> (chunk_disk, go_error, unit) op" where
  "Delete os chunkID s =
     (let chunkPath = Path (cs_store s) chunkID
      in case on_disk (Stat os chunkPath) s of
           (Inl err, s1) \<Rightarrow>
             if os_IsNotExist err then (Inr (), s1)
             else (Inl (internal ''failed to stat chunk'' (path_error ''stat'' chunkPath err)), s1)
         | (Inr fileSize, s1) \<Rightarrow>
             (case on_disk (Remove os chunkPath) s1 of
                (Inl err, s2) \<Rightarrow>
                  if os_IsNotExist err then (Inr (), s2)
                  else (Inl (internal ''failed to delete chunk'' (path_error ''remove'' chunkPath err)), s2)
              | (Inr _, s2) \<Rightarrow> add_used (- fileSize) s2))"

definition Exists :: "os_env \<Rightarrow> string \<Rightarrow> (chunk_disk, go_error, bool) op" where
  "Exists os chunkID s =
     (let chunkPath = Path (cs_store s) chunkID
      in case on_disk (Stat os chunkPath) s of
           (Inr info, s1) \<Rightarrow> (Inr True, s1)
         | (Inl err, s1) \<Rightarrow>
             if os_IsNotExist err then (Inr False, s1)
             else (Inl (internal ''failed to check chunk existence'' (path_error ''stat'' chunkPath err)), s1))"

end
