(* ===== verification/Disk_Laws.thy ===== *)
theory Disk_Laws
  imports Chunk_Store
begin

text \<open>
  Laws of the file system model: what each call does when the operating system works, what no call
  changes, and what the loops of \<open>io.ReadFull\<close> and \<open>io.ReadAll\<close> read, whatever the sizes of their
  buffers and of the pieces the system delivers.
\<close>

lemma plain_os_ok [simp]: "os_ok plain_os"
  by (simp add: os_ok_def plain_os_def)

subsection \<open>System calls that work\<close>

lemma sys_ok:
  assumes "os_ok os"
  shows "sys os f d = (case f (dk_nodes d) of
      Inl err \<Rightarrow> (Inl err, d\<lparr>dk_tick := Suc (dk_tick d)\<rparr>)
    | Inr (x, ns) \<Rightarrow> (Inr x, d\<lparr>dk_tick := Suc (dk_tick d), dk_nodes := ns\<rparr>))"
  using assms by (simp add: sys_def os_ok_def Let_def split: sum.splits)

lemma no_change_ok: "os_ok os \<Longrightarrow> no_change os d = (Inr (), d\<lparr>dk_tick := Suc (dk_tick d)\<rparr>)"
  by (simp add: no_change_def sys_ok)

lemma Write_ok:
  "os_ok os \<Longrightarrow> Write os p bs d = (Inr (), d\<lparr>dk_tick := Suc (dk_tick d), dk_nodes := append_to p bs (dk_nodes d)\<rparr>)"
  by (simp add: Write_def os_ok_def Let_def)

lemma Open_ok:
  "os_ok os \<Longrightarrow> Open os p d = (resolve p (dk_nodes d), d\<lparr>dk_tick := Suc (dk_tick d)\<rparr>)"
  by (simp add: Open_def sys_ok sys_open_def split: sum.splits)

lemma Stat_ok:
  "os_ok os \<Longrightarrow> Stat os p d =
     (case resolve p (dk_nodes d) of Inl err \<Rightarrow> Inl err | Inr x \<Rightarrow> Inr (node_size os x), d\<lparr>dk_tick := Suc (dk_tick d)\<rparr>)"
  by (simp add: Stat_def sys_ok sys_open_def bindR_def split: sum.splits)

subsection \<open>Calls that only read\<close>

lemma sys_open_nodes [simp]: "dk_nodes (snd (sys os (sys_open p) d)) = dk_nodes d"
  by (auto simp: sys_def sys_open_def Let_def split: option.splits sum.splits)

lemma no_change_nodes [simp]: "dk_nodes (snd (no_change os d)) = dk_nodes d"
  by (auto simp: no_change_def sys_def Let_def split: option.splits)

lemma Open_nodes [simp]: "dk_nodes (snd (Open os p d)) = dk_nodes d"
  by (simp add: Open_def)

lemma Open_InrD: "Open os p d = (Inr x, d1) \<Longrightarrow> resolve p (dk_nodes d) = Inr x \<and> dk_nodes d1 = dk_nodes d"
  by (auto simp: Open_def sys_def sys_open_def Let_def split: option.splits sum.splits)

lemma resolve_InrD: "resolve p ns = Inr x \<Longrightarrow> map_of ns p = Some x"
  by (auto simp: resolve_def split: if_splits option.splits)

lemma Stat_nodes [simp]: "dk_nodes (snd (Stat os p d)) = dk_nodes d"
  using sys_open_nodes [of os p d]
  by (cases "sys os (sys_open p) d") (auto simp: Stat_def bindR_def split: sum.splits)

lemma File_Read_nodes [simp]: "dk_nodes (snd (File_Read os k rest d)) = dk_nodes d"
  by (auto simp: File_Read_def Let_def split: option.splits)

lemma File_Read_ok:
  "os_ok os \<Longrightarrow> rest \<noteq> [] \<Longrightarrow> \<exists>bs d1. File_Read os k rest d = (Inr bs, d1)"
  "os_ok os \<Longrightarrow> File_Read os k [] d = (Inl EOF, d\<lparr>dk_tick := Suc (dk_tick d)\<rparr>)"
  by (simp_all add: File_Read_def Let_def os_ok_def)

subsection \<open>io.ReadFull\<close>

lemma read_full_nodes: "dk_nodes (snd (read_full os k got rest d)) = dk_nodes d"
proof (induction os k got rest d rule: read_full.induct)
  case (1 os k got rest d)
  show ?case
  proof (cases "k = 0")
    case False
    obtain r d1 where r: "File_Read os k rest d = (r, d1)"
      by (cases "File_Read os k rest d")
    then have "dk_nodes d1 = dk_nodes d"
      by (metis File_Read_nodes snd_conv)
    with 1 False r show ?thesis
      by (cases r) (simp_all add: read_full.simps [of os k])
  qed (simp add: read_full.simps)
qed

lemma read_full_InrD:
  "read_full os k got rest d = (Inr (header, left), d1) \<Longrightarrow>
     k \<le> length rest \<and> header = got @ take k rest \<and> left = drop k rest"
proof (induction os k got rest d arbitrary: header left d1 rule: read_full.induct)
  case (1 os k got rest d)
  show ?case
  proof (cases "k = 0")
    case True
    with "1.prems" show ?thesis
      by (simp add: read_full.simps)
  next
    case False
    with "1.prems" obtain bs d2 where r: "File_Read os k rest d = (Inr bs, d2)"
      and rec: "read_full os (k - length bs) (got @ bs) (drop (length bs) rest) d2 = (Inr (header, left), d1)"
      by (auto simp: read_full.simps [of os k] split: prod.splits sum.splits)
    have "0 < k"
      using False by simp
    then have bs: "length bs \<le> k" "rest = bs @ drop (length bs) rest"
      using File_ReadD [OF r] by blast+
    have IH: "k - length bs \<le> length (drop (length bs) rest)
        \<and> header = (got @ bs) @ take (k - length bs) (drop (length bs) rest)
        \<and> left = drop (k - length bs) (drop (length bs) rest)"
      using "1.IH" [OF False r [symmetric] refl rec] .
    have "take k (bs @ drop (length bs) rest) = bs @ take (k - length bs) (drop (length bs) rest)"
      using bs(1) by simp
    moreover have "length bs \<le> length rest"
      by (subst bs(2)) simp
    moreover from this have "k \<le> length rest"
      using IH bs(1) by (simp only: length_drop) linarith
    ultimately show ?thesis
      using IH bs by simp
  qed
qed

lemma read_full_ok:
  assumes "os_ok os"
  shows "k \<le> length rest \<Longrightarrow> \<exists>d1. read_full os k got rest d = (Inr (got @ take k rest, drop k rest), d1)"
    and "length rest < k \<Longrightarrow> \<exists>err d1. read_full os k got rest d = (Inl err, d1)"
proof -
  have "\<exists>header left d1. read_full os k got rest d = (Inr (header, left), d1)" if "k \<le> length rest"
    using that assms
  proof (induction os k got rest d rule: read_full.induct)
    case (1 os k got rest d)
    show ?case
    proof (cases "k = 0")
      case False
      then have "rest \<noteq> []"
        using "1.prems" by auto
      then obtain bs d2 where r: "File_Read os k rest d = (Inr bs, d2)"
        using File_Read_ok(1) "1.prems" by blast
      have "0 < k"
        using False by simp
      then have "bs \<noteq> []" "length bs \<le> k"
        using File_ReadD [OF r] by blast+
      then have "k - length bs \<le> length (drop (length bs) rest)"
        using "1.prems" by simp
      note IH = "1.IH" [OF False r [symmetric] refl this "1.prems"(2)]
      have "read_full os k got rest d = read_full os (k - length bs) (got @ bs) (drop (length bs) rest) d2"
        by (subst read_full.simps) (simp add: r False)
      with IH show ?thesis
        by (simp only:)
    qed (simp add: read_full.simps)
  qed
  then show "\<exists>d1. read_full os k got rest d = (Inr (got @ take k rest, drop k rest), d1)" if "k \<le> length rest"
    using that read_full_InrD by metis
  show "\<exists>err d1. read_full os k got rest d = (Inl err, d1)" if "length rest < k"
  proof (cases "read_full os k got rest d")
    case (Pair r d1)
    with that read_full_InrD [of os k got rest d _ _ d1] show ?thesis
      by (cases r) auto
  qed
qed

end
