(* ===== verification/Chunk_Read.thy ===== *)
theory Chunk_Read
  imports Disk_Laws
begin

text \<open>
  Reading a chunk back: the streaming reader against a reference that looks at the whole file at
  once. \<open>seal\<close> is the file format and \<open>unseal\<close> the reference check; \<open>read_chunk\<close> is what every caller
  does with \<open>Get\<close>, namely \<open>io.ReadAll\<close> on its result.
\<close>

definition seal :: "byte list \<Rightarrow> byte list" where
  "seal data = sha256 data @ PutUint64 (word_of_nat (length data)) @ data"

definition header_matches :: "byte list \<Rightarrow> byte list \<Rightarrow> bool" where
  "header_matches bs data \<longleftrightarrow> headerSize \<le> length bs \<and> take checksumSize bs = sha256 data
     \<and> Uint64 (take lengthSize (drop checksumSize bs)) = word_of_nat (length data)"

definition unseal :: "byte list \<Rightarrow> byte list option" where
  "unseal bs = (if header_matches bs (drop headerSize bs) then Some (drop headerSize bs) else None)"

definition read_chunk :: "os_env \<Rightarrow> string \<Rightarrow> (chunk_disk, go_error, byte list) op" where
  "read_chunk os chunkID s =
     (case Get os None chunkID s of
        (Inl err, s1) \<Rightarrow> (Inl err, s1)
      | (Inr v, s1) \<Rightarrow> (case ReadAll os [] v (cs_disk s1) of (r, v1, d1) \<Rightarrow> (r, s1\<lparr>cs_disk := d1\<rparr>)))"

lemma length_seal [simp]: "length (seal data) = headerSize + length data"
  by (simp add: seal_def size_defs)

lemma header_matches_seal: "header_matches (seal data) data' \<longleftrightarrow>
    sha256 data' = sha256 data \<and> word_of_nat (length data') = (word_of_nat (length data) :: uint64)"
  by (auto simp: header_matches_def seal_def size_defs)

lemma drop_seal: "drop headerSize (seal data) = data"
  by (simp add: seal_def size_defs)

lemma unseal_seal [simp]: "unseal (seal data) = Some data"
  by (simp add: unseal_def header_matches_seal drop_seal)

lemma seal_inject: "seal a = seal b \<longleftrightarrow> a = b"
  by (metis option.inject unseal_seal)

subsection \<open>One call of Read\<close>

lemma v_Read_nodes: "v_Read os k v d = (x, v1, d1) \<Longrightarrow> dk_nodes d1 = dk_nodes d"
  using File_Read_nodes [of os k "v_file v" d]
  by (cases "File_Read os k (v_file v) d") (auto simp: v_Read_def split: if_splits sum.splits)

lemma v_Read_AtEOF:
  assumes "v_Read os k v d = ((bs, AtEOF), v1, d1)" "\<not> v_done v"
  shows "bs = []" "v_readBytes v = v_expectedLength v" "sha256 (v_hasher v) = v_expectedHash v"
  using assms by (auto simp: v_Read_def split: if_splits prod.splits sum.splits)

lemma v_Read_cases:
  obtains (more) bs v1 d1 where "v_Read os (Suc k) v d = ((bs, More), v1, d1)"
      "v_file v = bs @ v_file v1" "v_hasher v1 = v_hasher v @ bs"
      "v_readBytes v1 = v_readBytes v + word_of_nat (length bs)" "v_done v1 = v_done v" "v_closed v1 = v_closed v"
      "v_expectedLength v1 = v_expectedLength v" "v_expectedHash v1 = v_expectedHash v" "bs \<noteq> []"
  | (eof) bs v1 d1 where "v_Read os (Suc k) v d = ((bs, AtEOF), v1, d1)"
  | (failed) bs err v1 d1 where "v_Read os (Suc k) v d = ((bs, Failed err), v1, d1)"
proof (cases "v_Read os (Suc k) v d")
  case (fields x v1 d1)
  obtain bs q where x: "x = (bs, q)"
    by (cases x)
  show thesis
  proof (cases q)
    case More
    with fields x have r: "v_Read os (Suc k) v d = ((bs, More), v1, d1)"
      by simp
    note m = v_Read_More [OF r]
    have "bs \<noteq> []" "v_file v = bs @ drop (length bs) (v_file v)"
      using File_ReadD [OF m(1)] by blast+
    then show thesis
      by (intro more [OF r]) (simp_all add: m(2))
  qed (use fields x eof failed in blast)+
qed

lemma ReadAll_step:
  "v_Read os (Suc (os_buffer os (dk_tick d))) v d = ((bs, More), v1, d1) \<Longrightarrow> ReadAll os b v d = ReadAll os (b @ bs) v1 d1"
  "v_Read os (Suc (os_buffer os (dk_tick d))) v d = ((bs, AtEOF), v1, d1) \<Longrightarrow> ReadAll os b v d = (Inr (b @ bs), v1, d1)"
  "v_Read os (Suc (os_buffer os (dk_tick d))) v d = ((bs, Failed err), v1, d1) \<Longrightarrow> ReadAll os b v d = (Inl err, v1, d1)"
  by (subst ReadAll.simps, simp)+

lemma ReadAll_nodes: "dk_nodes (snd (snd (ReadAll os b v d))) = dk_nodes d"
proof (induction "length (v_file v)" arbitrary: b v d rule: less_induct)
  case less
  show ?case
  proof (cases rule: v_Read_cases [of os "os_buffer os (dk_tick d)" v d])
    case (more bs v1 d1)
    then have "length (v_file v1) < length (v_file v)"
      by simp
    from less [OF this] v_Read_nodes [OF more(1)] show ?thesis
      by (simp add: ReadAll_step(1) [OF more(1)])
  next
    case (eof bs v1 d1)
    with v_Read_nodes [OF eof] show ?thesis
      by (simp add: ReadAll_step(2) [OF eof])
  next
    case (failed bs err v1 d1)
    with v_Read_nodes [OF failed] show ?thesis
      by (simp add: ReadAll_step(3) [OF failed])
  qed
qed

text \<open>Whatever the system does, bytes are only returned when they match the header.\<close>

lemma ReadAll_InrD:
  assumes "ReadAll os b v d = (Inr data, v2, d2)" "\<not> v_done v"
  shows "\<exists>p. data = b @ p \<and> prefix p (v_file v) \<and> v_readBytes v + word_of_nat (length p) = v_expectedLength v
     \<and> sha256 (v_hasher v @ p) = v_expectedHash v"
  using assms
proof (induction "length (v_file v)" arbitrary: b v d rule: less_induct)
  case less
  show ?case
  proof (cases rule: v_Read_cases [of os "os_buffer os (dk_tick d)" v d])
    case (more bs v1 d1)
    then have "length (v_file v1) < length (v_file v)"
      by simp
    from less.hyps [OF this, of "b @ bs" d1] less.prems more obtain p where
      "data = (b @ bs) @ p" "prefix p (v_file v1)" "v_readBytes v1 + word_of_nat (length p) = v_expectedLength v1"
      "sha256 (v_hasher v1 @ p) = v_expectedHash v1"
      by (auto simp: ReadAll_step(1) [OF more(1)])
    with more show ?thesis
      by (intro exI [of _ "bs @ p"]) (simp add: add.assoc)
  next
    case (eof bs v1 d1)
    with less.prems v_Read_AtEOF [OF eof] show ?thesis
      by (intro exI [of _ "[]"]) (simp add: ReadAll_step(2) [OF eof])
  next
    case (failed bs err v1 d1)
    with less.prems show ?thesis
      by (simp add: ReadAll_step(3) [OF failed])
  qed
qed

lemma ReadAll_ticks: "dk_tick (snd (snd (ReadAll os b v d))) \<le> dk_tick d + length (v_file v) + 1"
proof (induction "length (v_file v)" arbitrary: b v d rule: less_induct)
  case less
  have tick: "dk_tick d1 \<le> Suc (dk_tick d)" if "v_Read os k v d = (x, v1, d1)" for k x v1 d1
    using that by (auto simp: v_Read_def File_Read_def Let_def split: if_splits prod.splits sum.splits option.splits)
  show ?case
  proof (cases rule: v_Read_cases [of os "os_buffer os (dk_tick d)" v d])
    case (more bs v1 d1)
    then have len: "length (v_file v) = length bs + length (v_file v1)" "0 < length bs"
      by simp_all
    then have "length (v_file v1) < length (v_file v)"
      by linarith
    note IH = less [OF this, of "b @ bs" d1]
    have "dk_tick (snd (snd (ReadAll os (b @ bs) v1 d1))) \<le> dk_tick d + length (v_file v) + 1"
      using IH tick [OF more(1)] len by linarith
    then show ?thesis
      by (simp only: ReadAll_step(1) [OF more(1)])
  next
    case (eof bs v1 d1)
    from tick [OF eof] show ?thesis
      by (simp add: ReadAll_step(2) [OF eof])
  next
    case (failed bs err v1 d1)
    from tick [OF failed] show ?thesis
      by (simp add: ReadAll_step(3) [OF failed])
  qed
qed

text \<open>And when it works, the loop reads the whole file and then decides.\<close>

lemma ReadAll_ok:
  assumes "os_ok os" "\<not> v_done v" "\<not> v_closed v"
  shows "fst (ReadAll os b v d) =
     (if v_readBytes v + word_of_nat (length (v_file v)) = v_expectedLength v
         \<and> sha256 (v_hasher v @ v_file v) = v_expectedHash v
      then Inr (b @ v_file v)
      else Inl (New_error CodeIntegrityViolation ''checksum or length mismatch detected''))"
  using assms
proof (induction "length (v_file v)" arbitrary: b v d rule: less_induct)
  case less
  let ?k = "os_buffer os (dk_tick d)"
  show ?case
  proof (cases "v_file v = []")
    case True
    let ?d = "d\<lparr>dk_tick := Suc (dk_tick d)\<rparr>"
    have eof: "File_Read os (Suc ?k) (v_file v) d = (Inl EOF, ?d)"
      using File_Read_ok(2) less.prems(1) True by simp
    show ?thesis
    proof (cases "v_readBytes v = v_expectedLength v \<and> sha256 (v_hasher v) = v_expectedHash v")
      case ok: True
      then have "v_Read os (Suc ?k) v d = (([], AtEOF), v\<lparr>v_done := True\<rparr>, ?d)"
        using less.prems eof by (simp add: v_Read_def)
      from ReadAll_step(2) [OF this] ok True show ?thesis
        by simp
    next
      case False
      then have "v_Read os (Suc ?k) v d =
         (([], Failed (New_error CodeIntegrityViolation ''checksum or length mismatch detected'')), v\<lparr>v_closed := True\<rparr>, ?d)"
        using less.prems eof by (auto simp: v_Read_def)
      from ReadAll_step(3) [OF this] False True show ?thesis
        by auto
    qed
  next
    case False
    then obtain bs d1 where r: "File_Read os (Suc ?k) (v_file v) d = (Inr bs, d1)"
      using File_Read_ok(1) less.prems(1) by blast
    let ?v1 = "v\<lparr>v_file := drop (length bs) (v_file v), v_hasher := v_hasher v @ bs,
                v_readBytes := v_readBytes v + word_of_nat (length bs)\<rparr>"
    have v1: "v_Read os (Suc ?k) v d = ((bs, More), ?v1, d1)"
      using less.prems r by (simp add: v_Read_def)
    obtain rest where split: "v_file v = bs @ rest" and bs: "bs \<noteq> []"
      using File_ReadD [OF r] by blast
    have "length (v_file ?v1) < length (v_file v)"
      using split bs by simp
    from less.hyps [OF this, of "b @ bs" d1] less.prems split show ?thesis
      by (simp add: ReadAll_step(1) [OF v1] add.assoc)
  qed
qed

subsection \<open>Get and ReadAll together\<close>

lemma ReadFull_InrD:
  assumes "ReadFull os k x d = (Inr (header, rest), d1)"
  shows "\<exists>bs. x = Reg bs \<and> k \<le> length bs \<and> header = take k bs \<and> rest = drop k bs"
proof (cases x)
  case Dir
  with assms show ?thesis
    by (simp add: ReadFull_def bindR_eq_Inr)
next
  case (Reg bs)
  with assms read_full_InrD [of os k "[]" bs d header rest d1] show ?thesis
    by (simp add: ReadFull_def)
qed

lemma ReadFull_nodes [simp]: "dk_nodes (snd (ReadFull os k x d)) = dk_nodes d"
proof (cases x)
  case Dir
  then show ?thesis
    using no_change_nodes [of os d]
    by (cases "no_change os d") (auto simp: ReadFull_def bindR_def split: sum.splits)
next
  case (Reg bs)
  then show ?thesis
    by (simp add: ReadFull_def read_full_nodes)
qed

lemma ReadFull_ok:
  assumes "os_ok os"
  shows "k \<le> length bs \<Longrightarrow> \<exists>d1. ReadFull os k (Reg bs) d = (Inr (take k bs, drop k bs), d1)"
    and "length bs < k \<Longrightarrow> \<exists>err d1. ReadFull os k (Reg bs) d = (Inl err, d1)"
    and "\<exists>err d1. ReadFull os k Dir d = (Inl err, d1)"
  using read_full_ok [OF assms, where k = k and rest = bs and got = "[]" and d = d] no_change_ok [OF assms, of d]
  by (simp_all add: ReadFull_def bindR_def)

lemma on_disk_eq: "on_disk m s = (r, s1) \<longleftrightarrow> (\<exists>d. m (cs_disk s) = (r, d) \<and> s1 = s\<lparr>cs_disk := d\<rparr>)"
  by (auto simp: on_disk_def split: prod.splits)

lemma on_disk_simps [simp]:
  "fst (on_disk m s) = fst (m (cs_disk s))" "snd (on_disk m s) = s\<lparr>cs_disk := snd (m (cs_disk s))\<rparr>"
  by (simp_all add: on_disk_def split: prod.splits)

abbreviation cs_nodes :: "chunk_disk \<Rightarrow> nodes" where
  "cs_nodes s \<equiv> dk_nodes (cs_disk s)"

abbreviation chunk_path :: "chunk_disk \<Rightarrow> string \<Rightarrow> string" where
  "chunk_path s chunkID \<equiv> Path (cs_store s) chunkID"

lemma Get_InrD:
  assumes "Get os None chunkID s = (Inr v, s1)"
  shows "\<exists>bs. map_of (cs_nodes s) (chunk_path s chunkID) = Some (Reg bs) \<and> headerSize \<le> length bs
    \<and> v_file v = drop headerSize bs \<and> v_expectedHash v = take checksumSize bs
    \<and> v_expectedLength v = Uint64 (take lengthSize (drop checksumSize bs))
    \<and> v_hasher v = [] \<and> v_readBytes v = 0 \<and> \<not> v_done v \<and> \<not> v_closed v"
proof -
  from assms obtain x d1 header rest d2 where o: "Open os (chunk_path s chunkID) (cs_disk s) = (Inr x, d1)"
    and h: "ReadFull os headerSize x d1 = (Inr (header, rest), d2)"
    and v: "v = \<lparr>v_file = rest, v_closed = False, v_expectedHash = take checksumSize header,
        v_expectedLength = Uint64 (drop checksumSize header), v_hasher = [], v_readBytes = 0, v_done = False\<rparr>"
    by (auto simp: Get_def Let_def bindR_eq_Inr on_disk_eq)
  from ReadFull_InrD [OF h] obtain bs where "x = Reg bs" "headerSize \<le> length bs" "header = take headerSize bs"
    "rest = drop headerSize bs"
    by blast
  with o v show ?thesis
    by (auto simp: size_defs drop_take dest!: Open_InrD resolve_InrD)
qed

lemma Get_state:
  assumes "Get os ctx chunkID s = (r, s1)"
  shows "cs_store s1 = cs_store s \<and> cs_nodes s1 = cs_nodes s"
proof -
  obtain x d1 where o: "Open os (chunk_path s chunkID) (cs_disk s) = (x, d1)"
    by (cases "Open os (chunk_path s chunkID) (cs_disk s)")
  then have d1: "dk_nodes d1 = cs_nodes s"
    by (metis Open_nodes snd_conv)
  have "dk_nodes d2 = cs_nodes s" if "ReadFull os headerSize y d1 = (q, d2)" for y q d2
    using that d1 by (metis ReadFull_nodes snd_conv)
  with o d1 assms show ?thesis
    by (auto simp: Get_def Let_def bindR_def mapErrR_def on_disk_def split: option.splits prod.splits sum.splits)
qed

lemma read_chunk_state:
  assumes "read_chunk os chunkID s = (r, s2)"
  shows "cs_store s2 = cs_store s \<and> cs_nodes s2 = cs_nodes s"
proof -
  obtain q s1 where g: "Get os None chunkID s = (q, s1)"
    by (cases "Get os None chunkID s")
  have "dk_nodes d1 = cs_nodes s1" if "ReadAll os [] v (cs_disk s1) = (y, v1, d1)" for v y v1 d1
    using that ReadAll_nodes [of os "[]" v "cs_disk s1"] by simp
  with g Get_state [OF g] assms show ?thesis
    by (auto simp: read_chunk_def split: sum.splits prod.splits)
qed

lemma read_chunk_verified:
  assumes "read_chunk os chunkID s = (Inr data, s1)"
  shows "\<exists>bs. map_of (cs_nodes s) (chunk_path s chunkID) = Some (Reg bs) \<and> header_matches bs data
    \<and> prefix data (drop headerSize bs)"
proof -
  from assms obtain v s2 v1 d1 where g: "Get os None chunkID s = (Inr v, s2)"
    and r: "ReadAll os [] v (cs_disk s2) = (Inr data, v1, d1)"
    by (auto simp: read_chunk_def split: prod.splits sum.splits)
  from Get_InrD [OF g] ReadAll_InrD [OF r] show ?thesis
    by (auto simp: header_matches_def)
qed

lemma read_chunk_eq:
  assumes "os_ok os"
  shows "case resolve (chunk_path s chunkID) (cs_nodes s) of
      Inl ENOENT \<Rightarrow> fst (read_chunk os chunkID s) = Inl (New_error CodeNotFound (''chunk not found: '' @ chunkID))
    | Inl err \<Rightarrow> fst (read_chunk os chunkID s)
        = Inl (internal ''failed to open chunk file'' (path_error ''open'' (chunk_path s chunkID) err))
    | Inr Dir \<Rightarrow> \<exists>err. fst (read_chunk os chunkID s) = Inl (Wrap_error CodeIntegrityViolation ''failed to read chunk header'' err)
    | Inr (Reg bs) \<Rightarrow> (case unseal bs of
          Some data \<Rightarrow> fst (read_chunk os chunkID s) = Inr data
        | None \<Rightarrow> \<exists>m cause. fst (read_chunk os chunkID s) = Inl (AppErr CodeIntegrityViolation m cause))"
proof (cases "resolve (chunk_path s chunkID) (cs_nodes s)")
  case (Inl err)
  then show ?thesis
    by (cases err) (simp_all add: read_chunk_def Get_def Let_def bindR_def mapErrR_def on_disk_def Open_ok [OF assms] os_IsNotExist_def)
next
  case (Inr x)
  let ?d = "(cs_disk s)\<lparr>dk_tick := Suc (dk_tick (cs_disk s))\<rparr>"
  have bad: "\<exists>err. fst (read_chunk os chunkID s) = Inl (Wrap_error CodeIntegrityViolation ''failed to read chunk header'' err)"
    if "ReadFull os headerSize x ?d = (Inl err, d1)" for err d1
    using that Inr
    by (auto simp: read_chunk_def Get_def Let_def bindR_def mapErrR_def on_disk_def Open_ok [OF assms])
  show ?thesis
  proof (cases x)
    case Dir
    then show ?thesis
      using bad ReadFull_ok(3) [OF assms, of headerSize ?d] Inr by auto
  next
    case (Reg bs)
    show ?thesis
    proof (cases "headerSize \<le> length bs")
      case False
      then have "unseal bs = None"
        by (simp add: unseal_def header_matches_def)
      moreover have "\<exists>err. fst (read_chunk os chunkID s) = Inl (Wrap_error CodeIntegrityViolation ''failed to read chunk header'' err)"
        using bad ReadFull_ok(2) [OF assms, of bs headerSize ?d] False Reg by auto
      ultimately show ?thesis
        using Inr Reg by (auto simp: Wrap_error_def)
    next
      case True
      obtain d1 where "ReadFull os headerSize (Reg bs) ?d = (Inr (take headerSize bs, drop headerSize bs), d1)"
        using ReadFull_ok(1) [OF assms True] by blast
      let ?v = "\<lparr>v_file = drop headerSize bs, v_closed = False, v_expectedHash = take checksumSize (take headerSize bs),
          v_expectedLength = Uint64 (drop checksumSize (take headerSize bs)), v_hasher = [], v_readBytes = 0, v_done = False\<rparr>"
      have "Get os None chunkID s = (Inr ?v, s\<lparr>cs_disk := d1\<rparr>)"
        using Inr Reg \<open>ReadFull os headerSize (Reg bs) ?d = _\<close>
        by (simp add: Get_def Let_def bindR_def mapErrR_def on_disk_def Open_ok [OF assms])
      then have "fst (read_chunk os chunkID s) = fst (ReadAll os [] ?v d1)"
        by (simp add: read_chunk_def split: prod.splits)
      then show ?thesis
        using ReadAll_ok [OF assms, of ?v "[]" d1] Inr Reg True
        by (auto simp: unseal_def header_matches_def New_error_def size_defs drop_take)
    qed
  qed
qed

end
