(* ===== verification/Chunk_Write.thy ===== *)
theory Chunk_Write
  imports Chunk_Read
begin

text \<open>
  What a \<open>Put\<close> does to the disk when any of its system calls may fail, at any point. \<open>spared X\<close> says
  that outside the paths \<open>X\<close> nothing that existed changed, and that only directories are new;
  \<open>untouched X\<close> that nothing changed at all.
\<close>

definition untouched :: "string set \<Rightarrow> nodes \<Rightarrow> nodes \<Rightarrow> bool" where
  "untouched X ns ns1 \<longleftrightarrow> (\<forall>p. p \<notin> X \<longrightarrow> map_of ns1 p = map_of ns p)"

definition spared :: "string set \<Rightarrow> nodes \<Rightarrow> nodes \<Rightarrow> bool" where
  "spared X ns ns1 \<longleftrightarrow> (\<forall>p. p \<notin> X \<longrightarrow> map_of ns1 p = map_of ns p \<or> map_of ns p = None \<and> map_of ns1 p = Some Dir)"

lemma untouched_refl [simp]: "untouched X ns ns"
  by (simp add: untouched_def)

lemma untouched_trans: "untouched X ns ns1 \<Longrightarrow> untouched X ns1 ns2 \<Longrightarrow> untouched X ns ns2"
  by (simp add: untouched_def)

lemma untouched_mono: "untouched X ns ns1 \<Longrightarrow> X \<subseteq> Y \<Longrightarrow> untouched Y ns ns1"
  by (auto simp: untouched_def)

lemma spared_refl [simp]: "spared X ns ns"
  by (simp add: spared_def)

lemma spared_trans: "spared X ns ns1 \<Longrightarrow> spared X ns1 ns2 \<Longrightarrow> spared X ns ns2"
  unfolding spared_def by (metis option.distinct(1))

lemma spared_untouched: "spared X ns ns1 \<Longrightarrow> untouched Y ns1 ns2 \<Longrightarrow> spared (X \<union> Y) ns ns2"
  unfolding spared_def untouched_def by (metis UnCI)

lemma append_to_untouched: "untouched {p} ns (append_to p bs ns)"
  by (auto simp: untouched_def append_to_def update_conv' split: option.splits node.splits)

subsection \<open>The calls\<close>

lemma sys_cases:
  obtains (error) err where "sys os f d = (Inl err, d\<lparr>dk_tick := Suc (dk_tick d)\<rparr>)"
  | (ok) x ns where "f (dk_nodes d) = Inr (x, ns)" "sys os f d = (Inr x, d\<lparr>dk_tick := Suc (dk_tick d), dk_nodes := ns\<rparr>)"
  by (cases "os_fault os (dk_tick d)"; cases "f (dk_nodes d)") (auto simp: sys_def Let_def)

lemma sys_InlD: "sys os f d = (Inl err, d1) \<Longrightarrow> dk_nodes d1 = dk_nodes d"
  by (cases rule: sys_cases [of os f d]) auto

lemma sys_InrD: "sys os f d = (Inr x, d1) \<Longrightarrow> f (dk_nodes d) = Inr (x, dk_nodes d1)"
  by (cases rule: sys_cases [of os f d]) auto

lemma mkdirs_spared: "spared {} (dk_nodes d) (dk_nodes (snd (mkdirs os ps d)))"
proof (induction ps arbitrary: d)
  case (Cons p ps)
  show ?case
  proof (cases rule: sys_cases [of os "sys_mkdir p" d])
    case (error err)
    then show ?thesis
      by (simp add: bindR_def)
  next
    case (ok x ns)
    then have "spared {} (dk_nodes d) ns"
      by (auto simp: sys_mkdir_def spared_def update_conv' split: option.splits node.splits if_splits)
    with Cons [of "d\<lparr>dk_tick := Suc (dk_tick d), dk_nodes := ns\<rparr>"] ok show ?thesis
      by (auto simp: bindR_def intro: spared_trans)
  qed
qed simp

lemma create_temp_InlD: "create_temp os dir n d = (Inl err, d1) \<Longrightarrow> dk_nodes d1 = dk_nodes d"
proof (induction n arbitrary: d)
  case (Suc n)
  let ?p = "temp_name dir (os_random os (dk_tick d))"
  show ?case
  proof (cases rule: sys_cases [of os "sys_create ?p" d])
    case (error e)
    with Suc.prems Suc.IH [of "d\<lparr>dk_tick := Suc (dk_tick d)\<rparr>"] show ?thesis
      by (auto simp: Let_def split: if_splits)
  next
    case (ok x ns)
    with Suc.prems show ?thesis
      by (simp add: Let_def)
  qed
qed simp

lemma create_temp_InrD:
  assumes "create_temp os dir n d = (Inr temp, d1)"
  shows "map_of (dk_nodes d) temp = None \<and> dk_nodes d1 = AList.update temp (Reg []) (dk_nodes d)
    \<and> (\<exists>r. temp = temp_name dir r)"
  using assms
proof (induction n arbitrary: d)
  case (Suc n)
  let ?p = "temp_name dir (os_random os (dk_tick d))"
  show ?case
  proof (cases rule: sys_cases [of os "sys_create ?p" d])
    case (error e)
    with Suc.prems Suc.IH [of "d\<lparr>dk_tick := Suc (dk_tick d)\<rparr>"] show ?thesis
      by (auto simp: Let_def split: if_splits)
  next
    case (ok x ns)
    then have "map_of (dk_nodes d) ?p = None" "ns = AList.update ?p (Reg []) (dk_nodes d)"
      by (auto simp: sys_create_def split: option.splits)
    with ok Suc.prems show ?thesis
      by (auto simp: Let_def)
  qed
qed simp

lemma Write_nodes:
  "Write os p bs d = (Inl err, d1) \<Longrightarrow> untouched {p} (dk_nodes d) (dk_nodes d1)"
  "Write os p bs d = (Inr u, d1) \<Longrightarrow> dk_nodes d1 = append_to p bs (dk_nodes d)"
  using append_to_untouched by (auto simp: Write_def Let_def split: option.splits)

lemma drop_temp_untouched: "untouched {temp} (dk_nodes d) (dk_nodes (drop_temp os temp d))"
proof (cases rule: sys_cases [of os "sys_remove temp" d])
  case (ok x ns)
  then have "untouched {temp} (dk_nodes d) ns"
    by (auto simp: sys_remove_def untouched_def delete_conv' split: sum.splits node.splits if_splits)
  with ok show ?thesis
    by (simp add: drop_temp_def Remove_def)
qed (simp add: drop_temp_def Remove_def)

lemma close_and_drop_untouched: "untouched {temp} (dk_nodes d) (dk_nodes (close_and_drop os temp d))"
  using drop_temp_untouched [of temp "snd (no_change os d)" os] by (simp add: close_and_drop_def)

lemma Rename_InlD: "Rename os p q d = (Inl err, d1) \<Longrightarrow> dk_nodes d1 = dk_nodes d"
  unfolding Rename_def by (rule sys_InlD)

lemma Rename_InrD:
  assumes "Rename os p q d = (Inr u, d1)"
  shows "\<exists>x. map_of (dk_nodes d) p = Some x \<and> dk_nodes d1 = AList.update q x (AList.delete p (dk_nodes d))"
  using sys_InrD [OF assms [unfolded Rename_def]]
  by (auto simp: sys_rename_def dest: resolve_InrD split: sum.splits option.splits if_splits)

subsection \<open>Writing the temporary file\<close>

text \<open>Everything before the rename touches the temporary file only, and a failing rename nothing.\<close>

definition within :: "string set \<Rightarrow> nodes \<Rightarrow> disk \<Rightarrow> bool" where
  "within X ns d \<longleftrightarrow> untouched X ns (dk_nodes d)"

definition fails_within :: "string set \<Rightarrow> nodes \<Rightarrow> (disk, 'e, 'a) op \<Rightarrow> bool" where
  "fails_within X ns m \<longleftrightarrow> (\<forall>d err d1. within X ns d \<longrightarrow> m d = (Inl err, d1) \<longrightarrow> within X ns d1)"

lemma fails_within_bindR:
  "preserves (within X ns) m \<Longrightarrow> (\<And>x. fails_within X ns (f x)) \<Longrightarrow> fails_within X ns (bindR m f)"
  unfolding fails_within_def bindR_eq_Inl by (metis preservesD snd_conv)

lemma preserves_or_undo:
  assumes "preserves (within X ns) m" "\<And>d. within X ns d \<Longrightarrow> within X ns (undo d)"
  shows "preserves (within X ns) (or_undo undo what wrap m)"
proof (rule preservesI)
  fix d
  assume "within X ns d"
  with assms(1) have "within X ns (snd (m d))"
    by (rule preservesD)
  with assms(2) show "within X ns (snd (or_undo undo what wrap m d))"
    by (auto simp: or_undo_def split: prod.splits sum.splits)
qed

lemma within_untouched: "within X ns d \<Longrightarrow> untouched X (dk_nodes d) (dk_nodes d1) \<Longrightarrow> within X ns d1"
  unfolding within_def by (rule untouched_trans)

lemma within_undo:
  "within {temp} ns d \<Longrightarrow> within {temp} ns (drop_temp os temp d)"
  "within {temp} ns d \<Longrightarrow> within {temp} ns (close_and_drop os temp d)"
  by (rule within_untouched, assumption, rule drop_temp_untouched close_and_drop_untouched)+

lemma within_Write: "preserves (within {temp} ns) (Write os temp bs)"
proof (rule preservesI)
  fix d
  assume "within {temp} ns d"
  then show "within {temp} ns (snd (Write os temp bs d))"
    by (rule within_untouched) (auto simp: Write_def Let_def append_to_untouched split: option.splits)
qed

lemma within_no_change: "preserves (within {temp} ns) (no_change os)"
  by (simp add: preserves_def within_def)

lemma fails_within_rename: "fails_within {temp} ns (or_undo (drop_temp os temp) what wrap (Rename os temp final))"
  unfolding fails_within_def or_undo_def
  by (auto simp: within_def dest!: Rename_InlD split: prod.splits sum.splits
      intro: untouched_trans [OF _ drop_temp_untouched])

lemmas within_intros = fails_within_bindR preserves_or_undo within_Write within_no_change within_undo fails_within_rename

lemma write_temp_InlD:
  assumes "write_temp os temp final checksum data d = (Inl err, d1)"
  shows "untouched {temp} (dk_nodes d) (dk_nodes d1)"
proof -
  have "fails_within {temp} (dk_nodes d) (write_temp os temp final checksum data)"
    unfolding write_temp_def by (intro within_intros) assumption+
  with assms show ?thesis
    unfolding fails_within_def within_def by (metis untouched_refl)
qed

lemma or_undo_eq_Inr [simp]: "or_undo undo what wrap m d = (Inr u, d1) \<longleftrightarrow> m d = (Inr u, d1)"
  by (auto simp: or_undo_def split: prod.splits sum.splits)

lemma no_change_InrD: "no_change os d = (r, d1) \<Longrightarrow> dk_nodes d1 = dk_nodes d"
  by (metis no_change_nodes snd_conv)

lemma append_to_simp: "map_of ns p = Some (Reg a) \<Longrightarrow> append_to p b ns = AList.update p (Reg (a @ b)) ns"
  by (simp add: append_to_def)

lemma write_temp_InrD:
  assumes "write_temp os temp final checksum data d = (Inr u, d1)" "map_of (dk_nodes d) temp = Some (Reg [])"
  shows "dk_nodes d1 = AList.update final (Reg (checksum @ PutUint64 (word_of_nat (length data)) @ data))
           (AList.delete temp (dk_nodes d))"
proof -
  from assms(1) obtain u1 a1 u2 a2 u3 a3 u4 a4 u5 a5 where
    w: "Write os temp checksum d = (Inr u1, a1)" "Write os temp (PutUint64 (word_of_nat (length data))) a1 = (Inr u2, a2)"
      "Write os temp data a2 = (Inr u3, a3)" "no_change os a3 = (Inr u4, a4)" "no_change os a4 = (Inr u5, a5)"
    and r: "Rename os temp final a5 = (Inr u, d1)"
    by (auto simp: write_temp_def bindR_eq_Inr)
  have "dk_nodes a1 = AList.update temp (Reg checksum) (dk_nodes d)"
    using Write_nodes(2) [OF w(1)] append_to_simp [OF assms(2)] by simp
  then have "dk_nodes a2 = AList.update temp (Reg (checksum @ PutUint64 (word_of_nat (length data)))) (dk_nodes d)"
    using Write_nodes(2) [OF w(2)] append_to_simp [of "dk_nodes a1" temp checksum] by (simp add: update_conv')
  then have "dk_nodes a3 = AList.update temp (Reg (checksum @ PutUint64 (word_of_nat (length data)) @ data)) (dk_nodes d)"
    using Write_nodes(2) [OF w(3)] append_to_simp [of "dk_nodes a2" temp "checksum @ PutUint64 (word_of_nat (length data))"]
    by (simp add: update_conv')
  then have a5: "dk_nodes a5 = AList.update temp (Reg (checksum @ PutUint64 (word_of_nat (length data)) @ data)) (dk_nodes d)"
    using no_change_InrD [OF w(4)] no_change_InrD [OF w(5)] by simp
  with Rename_InrD [OF r] show ?thesis
    by (auto simp: update_conv' delete_update_same)
qed

subsection \<open>Writing a chunk\<close>

lemma write_chunk_spared:
  assumes "write_chunk os final checksum data d = (r, d1)"
  obtains temps where "temps \<subseteq> range (temp_name (Dir_of final))" "\<And>p. p \<in> temps \<Longrightarrow> map_of (dk_nodes d) p = None"
    "spared (temps \<union> (case r of Inl err \<Rightarrow> {} | Inr u \<Rightarrow> {final})) (dk_nodes d) (dk_nodes d1)"
    "\<And>u. r = Inr u \<Longrightarrow> map_of (dk_nodes d1) final = Some (Reg (checksum @ PutUint64 (word_of_nat (length data)) @ data))"
proof -
  let ?dir = "Dir_of final"
  obtain q a where mk: "MkdirAll os ?dir d = (q, a)"
    by (cases "MkdirAll os ?dir d")
  then have a: "spared {} (dk_nodes d) (dk_nodes a)"
    using mkdirs_spared [of d os "ancestors ?dir @ [?dir]"] by (simp add: MkdirAll_def)
  show thesis
  proof (cases q)
    case (Inl err)
    with mk assms a show thesis
      by (intro that [of "{}"]) (auto simp: write_chunk_def Let_def bindR_def mapErrR_def)
  next
    case (Inr u)
    obtain t b where ct: "CreateTemp os ?dir a = (t, b)"
      by (cases "CreateTemp os ?dir a")
    show thesis
    proof (cases t)
      case (Inl err)
      with ct have "dk_nodes b = dk_nodes a"
        by (auto simp: CreateTemp_def dest: create_temp_InlD)
      with Inl ct mk Inr assms a show thesis
        by (intro that [of "{}"]) (auto simp: write_chunk_def Let_def bindR_def mapErrR_def)
    next
      case (Inr temp)
      note new = create_temp_InrD [OF ct [unfolded Inr CreateTemp_def]]
      then have none: "map_of (dk_nodes d) temp = None"
        using a by (auto simp: spared_def split: option.splits) (metis option.exhaust)
      have b: "map_of (dk_nodes b) temp = Some (Reg [])" "untouched {temp} (dk_nodes a) (dk_nodes b)"
        using new by (auto simp: untouched_def update_conv')
      have w: "write_temp os temp final checksum data b = (r, d1)"
        using assms mk \<open>q = Inr u\<close> ct Inr by (simp add: write_chunk_def Let_def bindR_def mapErrR_def)
      have range: "{temp} \<subseteq> range (temp_name ?dir)"
        using new by blast
      show thesis
      proof (cases r)
        case (Inl err)
        with w have "untouched {temp} (dk_nodes b) (dk_nodes d1)"
          by (auto dest: write_temp_InlD)
        with a b(2) have "spared {temp} (dk_nodes d) (dk_nodes d1)"
          using spared_untouched untouched_trans by (metis Un_empty_left)
        with none range Inl show thesis
          by (intro that [of "{temp}"]) auto
      next
        case (Inr v)
        note d1 = write_temp_InrD [OF w [unfolded Inr] b(1)]
        then have "untouched {temp, final} (dk_nodes b) (dk_nodes d1)"
          by (auto simp: untouched_def update_conv' delete_conv')
        with b(2) have "untouched {temp, final} (dk_nodes a) (dk_nodes d1)"
          by (meson insert_mono empty_subsetI untouched_mono untouched_trans)
        with a have "spared {temp, final} (dk_nodes d) (dk_nodes d1)"
          using spared_untouched by (metis Un_empty_left)
        then show thesis
          using none range Inr d1
          by (intro that [of "{temp}"]) (auto simp: update_conv' insert_commute)
      qed
    qed
  qed
qed

end
