(* ===== verification/Chunk_Layout.thy ===== *)
theory Chunk_Layout
  imports Chunk_Write
begin

text \<open>
  Where the chunks are. A chunk ID is \<open>valid_id\<close> when it is one name that stays inside its shard
  directory and does not look like a temporary file, as the identifiers of the metadata daemon do;
  for such IDs \<open>Path\<close> is injective. \<open>layout_ok\<close> says that the store's directory holds shard directories
  and chunk files of valid IDs and nothing else.
\<close>

definition valid_id :: "string \<Rightarrow> bool" where
  "valid_id i \<longleftrightarrow> CHR ''/'' \<notin> set i \<and> (2 < length i \<longrightarrow> take 2 i \<noteq> ''..'' \<and> take 4 (drop 2 i) \<noteq> ''tmp-'')"

definition shard :: "disk_store \<Rightarrow> string \<Rightarrow> string" where
  "shard ds i = (if length i \<le> 2 then ds_baseDir ds else ds_baseDir ds @ ''/'' @ take 2 i)"

definition leaf :: "string \<Rightarrow> string" where
  "leaf i = (if length i \<le> 2 then i else drop 2 i) @ ''.chunk''"

lemma plain_chunk: "CHR ''/'' \<notin> set i \<Longrightarrow> plain (i @ ''.chunk'')"
  by (cases i) (auto simp: plain_def)

lemma plain_leaf: "valid_id i \<Longrightarrow> plain (leaf i)"
  by (auto simp: leaf_def valid_id_def intro!: plain_chunk dest: in_set_dropD)

lemma plain_shard: "valid_id i \<Longrightarrow> 2 < length i \<Longrightarrow> plain (take 2 i)"
  by (auto simp: plain_def valid_id_def dest: in_set_takeD arg_cong [of _ _ length])

lemma Path_valid: "based (ds_baseDir ds) \<Longrightarrow> valid_id i \<Longrightarrow> Path ds i = shard ds i @ CHR ''/'' # leaf i"
  using plain_leaf [of i] plain_shard [of i] by (auto simp: Path_def shard_def leaf_def Join_plain Join_plain2)

lemma based_shard: "based (ds_baseDir ds) \<Longrightarrow> valid_id i \<Longrightarrow> based (shard ds i)"
  using based_app [OF _ plain_shard] by (auto simp: shard_def)

lemma Dir_of_Path: "based (ds_baseDir ds) \<Longrightarrow> valid_id i \<Longrightarrow> Dir_of (Path ds i) = shard ds i"
  by (simp add: Path_valid Dir_of_app based_shard plain_leaf)

lemma split_at_slash:
  assumes "CHR ''/'' \<notin> set p" "CHR ''/'' \<notin> set q" "a @ CHR ''/'' # p = b @ CHR ''/'' # q"
  shows "a = b \<and> p = q"
proof -
  have "takeWhile (\<lambda>c. c \<noteq> CHR ''/'') (rev r @ CHR ''/'' # t) = rev r" if "CHR ''/'' \<notin> set r" for r t
    using that by (subst takeWhile_append2) auto
  from this [OF assms(1), of "rev a"] this [OF assms(2), of "rev b"] have
    "takeWhile (\<lambda>c. c \<noteq> CHR ''/'') (rev (a @ CHR ''/'' # p)) = rev p"
    "takeWhile (\<lambda>c. c \<noteq> CHR ''/'') (rev (b @ CHR ''/'' # q)) = rev q"
    by simp_all
  with assms(3) show ?thesis
    by simp
qed

lemma Path_injective:
  assumes "based (ds_baseDir ds)" "valid_id i" "valid_id j" "Path ds i = Path ds j"
  shows "i = j"
proof -
  have "shard ds i @ CHR ''/'' # leaf i = shard ds j @ CHR ''/'' # leaf j"
    using assms by (simp add: Path_valid)
  moreover have "CHR ''/'' \<notin> set (leaf i)" "CHR ''/'' \<notin> set (leaf j)"
    using plain_leaf assms(2,3) by (auto simp: plain_def)
  ultimately have eq: "shard ds i = shard ds j" "leaf i = leaf j"
    using split_at_slash by blast+
  show ?thesis
  proof (cases "length i \<le> 2"; cases "length j \<le> 2")
    assume long: "\<not> length i \<le> 2" "\<not> length j \<le> 2"
    then have "take 2 i = take 2 j" "drop 2 i = drop 2 j"
      using eq by (simp_all add: shard_def leaf_def)
    then show ?thesis
      by (metis append_take_drop_id)
  qed (use eq in \<open>simp_all add: shard_def leaf_def\<close>)
qed

subsection \<open>Directories on the way\<close>

lemma ancestors_app:
  assumes "b \<noteq> []" "CHR ''/'' \<notin> set p"
  shows "ancestors (b @ CHR ''/'' # p) = ancestors b @ [b]"
proof -
  let ?q = "b @ CHR ''/'' # p"
  have "[1..<length ?q] = [1..<length b] @ length b # [Suc (length b)..<length ?q]"
    using assms(1) upt_add_eq_append [of 1 "length b" "Suc (length p)"] by (simp add: Suc_le_eq upt_conv_Cons)
  moreover have "filter (\<lambda>i. ?q ! i = CHR ''/'') [Suc (length b)..<length ?q] = []"
    using assms(2) by (auto simp: filter_empty_conv nth_append nth_Cons' in_set_conv_nth)
  moreover have "filter (\<lambda>i. ?q ! i = CHR ''/'') [1..<length b] = filter (\<lambda>i. b ! i = CHR ''/'') [1..<length b]"
    by (intro filter_cong) (auto simp: nth_append)
  moreover have "map (\<lambda>i. take i ?q) (filter (\<lambda>i. b ! i = CHR ''/'') [1..<length b]) =
      map (\<lambda>i. take i b) (filter (\<lambda>i. b ! i = CHR ''/'') [1..<length b])"
    by (intro map_cong) auto
  ultimately show ?thesis
    by (simp add: ancestors_def)
qed

lemma based_ne: "based b \<Longrightarrow> b \<noteq> []"
  by (simp add: based_def)

lemma ancestors_Path:
  "based (ds_baseDir ds) \<Longrightarrow> valid_id i \<Longrightarrow> ancestors (Path ds i) = ancestors (shard ds i) @ [shard ds i]"
  using plain_leaf [of i] based_ne [OF based_shard] by (simp add: Path_valid ancestors_app plain_def)

lemma ancestors_shard:
  "based (ds_baseDir ds) \<Longrightarrow> valid_id i \<Longrightarrow>
     set (ancestors (shard ds i) @ [shard ds i]) = set (ancestors (ds_baseDir ds)) \<union> {ds_baseDir ds, shard ds i}"
  using plain_shard [of i] based_ne [of "ds_baseDir ds"]
  by (auto simp: shard_def ancestors_app plain_def)

text \<open>A temporary file lies in its directory, and never where a valid chunk does.\<close>

lemma dec_nat_no_slash: "CHR ''/'' \<notin> set (dec_nat n)"
proof (induction n rule: dec_nat.induct)
  case (1 n)
  have "digit_char d \<noteq> CHR ''/''" if "d < 10" for d
    using digit_value_char [OF that] by (auto simp: digit_value_def)
  from this [of n] this [of "n mod 10"] 1 show ?case
    by (subst dec_nat.simps) auto
qed

lemma temp_name_based: "based dir \<Longrightarrow> temp_name dir r = dir @ CHR ''/'' # (''tmp-'' @ dec_nat (r mod 2 ^ 32) @ ''.chunk'')"
  using based_last by (simp add: temp_name_def)

lemma temp_name_plain: "plain (''tmp-'' @ dec_nat n @ ''.chunk'')"
  using dec_nat_no_slash by (auto simp: plain_def)

lemma temp_name_not_Path:
  assumes "based (ds_baseDir ds)" "valid_id i" "based dir"
  shows "temp_name dir r \<noteq> Path ds i"
proof
  assume "temp_name dir r = Path ds i"
  then have "dir @ CHR ''/'' # (''tmp-'' @ dec_nat (r mod 2 ^ 32) @ ''.chunk'') = shard ds i @ CHR ''/'' # leaf i"
    using assms by (simp add: temp_name_based Path_valid)
  moreover have "CHR ''/'' \<notin> set (leaf i)" "CHR ''/'' \<notin> set (''tmp-'' @ dec_nat (r mod 2 ^ 32) @ ''.chunk'')"
    using plain_leaf [OF assms(2)] temp_name_plain [of "r mod 2 ^ 32"] by (auto simp: plain_def)
  ultimately have "''tmp-'' @ dec_nat (r mod 2 ^ 32) @ ''.chunk'' = leaf i"
    using split_at_slash by blast
  then have name: "leaf i = CHR ''t'' # CHR ''m'' # CHR ''p'' # CHR ''-'' # dec_nat (r mod 2 ^ 32) @ ''.chunk''"
    by simp
  then show False
  proof (cases "length i \<le> 2")
    case True
    then have "length i = 0 \<or> length i = 1 \<or> length i = 2"
      by linarith
    then show False
      using name by (auto simp: leaf_def length_Suc_conv numeral_2_eq_2)
  next
    case False
    with name have "drop 2 i @ ''.chunk'' = ''tmp-'' @ dec_nat (r mod 2 ^ 32) @ ''.chunk''"
      by (simp add: leaf_def)
    then have "drop 2 i = ''tmp-'' @ dec_nat (r mod 2 ^ 32)"
      by (metis append.assoc append_same_eq)
    then have "take 4 (drop 2 i) = ''tmp-''"
      by simp
    with False assms(2) show False
      by (simp add: valid_id_def)
  qed
qed

subsection \<open>The layout of a store\<close>

definition layout_ok :: "disk_store \<Rightarrow> nodes \<Rightarrow> bool" where
  "layout_ok ds ns \<longleftrightarrow>
     distinct (map fst ns) \<and> based (ds_baseDir ds)
     \<and> (\<forall>q \<in> set (ancestors (ds_baseDir ds) @ [ds_baseDir ds]). map_of ns q = Some Dir)
     \<and> (\<forall>p x. map_of ns p = Some x \<longrightarrow> under (ds_baseDir ds) p \<longrightarrow>
          (case x of Dir \<Rightarrow> length p = length (ds_baseDir ds) + 3
           | Reg bs \<Rightarrow> \<exists>i. valid_id i \<and> p = Path ds i))"

text \<open>The bytes on the disk of the chunk with a given ID.\<close>

definition stored :: "disk_store \<Rightarrow> nodes \<Rightarrow> string \<Rightarrow> byte list option" where
  "stored ds ns i = (case map_of ns (Path ds i) of Some (Reg bs) \<Rightarrow> Some bs | _ \<Rightarrow> None)"

text \<open>The bytes of all files of the store.\<close>

definition usage :: "string \<Rightarrow> nodes \<Rightarrow> nat" where
  "usage base ns = sum_list (map (\<lambda>(p, x). if under base p then (case x of Dir \<Rightarrow> 0 | Reg bs \<Rightarrow> length bs) else 0) ns)"

lemma under_Path: "based (ds_baseDir ds) \<Longrightarrow> valid_id i \<Longrightarrow> under (ds_baseDir ds) (Path ds i)"
  by (auto simp: under_def Path_valid shard_def prefix_def)

lemma length_Path: "based (ds_baseDir ds) \<Longrightarrow> valid_id i \<Longrightarrow> length (ds_baseDir ds) + 6 < length (Path ds i)"
  by (auto simp: Path_valid shard_def leaf_def)

lemma layout_shard:
  assumes "layout_ok ds ns" "valid_id i" "q \<in> set (ancestors (shard ds i) @ [shard ds i])"
  shows "map_of ns q = Some Dir \<or> map_of ns q = None \<and> q = shard ds i \<and> q \<noteq> ds_baseDir ds \<and> under (ds_baseDir ds) q
      \<and> length q = length (ds_baseDir ds) + 3"
proof (cases "q \<in> set (ancestors (ds_baseDir ds) @ [ds_baseDir ds])")
  case True
  with assms(1) have "map_of ns q = Some Dir"
    unfolding layout_ok_def by blast
  then show ?thesis ..
next
  case False
  have based: "based (ds_baseDir ds)"
    using assms(1) by (simp add: layout_ok_def)
  with False assms have q: "q = shard ds i" "q \<noteq> ds_baseDir ds"
    using ancestors_shard [OF based assms(2)] by auto
  then have "2 < length i"
    by (auto simp: shard_def split: if_splits)
  then have len: "length q = length (ds_baseDir ds) + 3" and un: "under (ds_baseDir ds) q"
    by (simp_all add: q shard_def under_def)
  have "map_of ns q \<noteq> Some (Reg bs)" for bs
  proof
    assume "map_of ns q = Some (Reg bs)"
    with assms(1) un obtain j where "valid_id j" "q = Path ds j"
      by (force simp: layout_ok_def)
    with length_Path [OF based] len show False
      by fastforce
  qed
  then show ?thesis
    using q len un by (metis node.exhaust option.exhaust)
qed

lemma layout_not_reg: "layout_ok ds ns \<Longrightarrow> valid_id i \<Longrightarrow> q \<in> set (ancestors (Path ds i)) \<Longrightarrow> \<not> is_reg (map_of ns q)"
  using layout_shard [of ds ns i q] ancestors_Path [of ds i] by (auto simp: layout_ok_def is_reg_def)

lemma layout_path_not_dir: "layout_ok ds ns \<Longrightarrow> valid_id i \<Longrightarrow> map_of ns (Path ds i) \<noteq> Some Dir"
  using length_Path [of ds i] under_Path [of ds i] by (fastforce simp: layout_ok_def)

lemma resolve_Path:
  assumes "layout_ok ds ns" "valid_id i"
  shows "resolve (Path ds i) ns = (case stored ds ns i of None \<Rightarrow> Inl ENOENT | Some bs \<Rightarrow> Inr (Reg bs))"
proof -
  have "\<not> list_ex (\<lambda>a. is_reg (map_of ns a)) (ancestors (Path ds i))"
    using layout_not_reg [OF assms] by (auto simp: list_ex_iff)
  then show ?thesis
    using layout_path_not_dir [OF assms] by (auto simp: resolve_def stored_def split: option.splits node.splits)
qed

end
