(* ===== verification/Chunk_Put.thy ===== *)
theory Chunk_Put
  imports Chunk_Layout
begin

text \<open>
  \<open>Put\<close>, \<open>Delete\<close> and \<open>Exists\<close> on every branch when the operating system works, for a store whose
  layout is in order and a valid ID.
\<close>

subsection \<open>Lists of entries\<close>

lemma update_fresh: "k \<notin> fst ` set al \<Longrightarrow> AList.update k v al = al @ [(k, v)]"
  by (induction al) auto

lemma usage_update: "map_of ns p = None \<Longrightarrow> usage base (AList.update p x ns) = usage base ns +
    (if under base p then (case x of Dir \<Rightarrow> 0 | Reg bs \<Rightarrow> length bs) else 0)"
  by (simp add: update_fresh map_of_eq_None_iff usage_def)

lemma usage_delete:
  "distinct (map fst ns) \<Longrightarrow> map_of ns p = Some x \<Longrightarrow>
     usage base ns = usage base (AList.delete p ns) + (if under base p then (case x of Dir \<Rightarrow> 0 | Reg bs \<Rightarrow> length bs) else 0)"
  by (induction ns) (auto simp: usage_def image_iff split: if_splits)

subsection \<open>Making directories and the temporary file\<close>

definition add_dir :: "string \<Rightarrow> nodes \<Rightarrow> nodes" where
  "add_dir q ns = (if map_of ns q = None then AList.update q Dir ns else ns)"

lemma map_of_add_dir: "map_of (add_dir q ns) p = (if p = q \<and> map_of ns q = None then Some Dir else map_of ns p)"
  by (auto simp: add_dir_def update_conv')

lemma mkdirs_ok:
  assumes "os_ok os" "\<And>q. q \<in> set qs \<Longrightarrow> map_of (dk_nodes d) q = Some Dir \<or> q = p \<and> map_of (dk_nodes d) p = None"
    "p \<in> set qs"
  shows "\<exists>d1. mkdirs os qs d = (Inr (), d1) \<and> dk_nodes d1 = add_dir p (dk_nodes d)"
proof -
  have present: "\<exists>d1. mkdirs os qs d = (Inr (), d1) \<and> dk_nodes d1 = dk_nodes d"
    if "\<And>q. q \<in> set qs \<Longrightarrow> map_of (dk_nodes d) q = Some Dir" for qs d
    using that
  proof (induction qs arbitrary: d)
    case (Cons q qs)
    have "sys os (sys_mkdir q) d = (Inr (), d\<lparr>dk_tick := Suc (dk_tick d)\<rparr>)"
      using Cons.prems assms(1) by (simp add: sys_ok sys_mkdir_def)
    with Cons.prems Cons.IH [of "d\<lparr>dk_tick := Suc (dk_tick d)\<rparr>"] show ?case
      by (simp add: bindR_def)
  qed simp
  show ?thesis
    using assms(2,3)
  proof (induction qs arbitrary: d)
    case (Cons q qs)
    show ?case
    proof (cases "map_of (dk_nodes d) q")
      case (Some x)
      with Cons.prems(1) [of q] have x: "x = Dir"
        by auto
      have step: "sys os (sys_mkdir q) d = (Inr (), d\<lparr>dk_tick := Suc (dk_tick d)\<rparr>)"
        using assms(1) Some x by (simp add: sys_ok sys_mkdir_def)
      show ?thesis
      proof (cases "p \<in> set qs")
        case True
        with Cons.IH [of "d\<lparr>dk_tick := Suc (dk_tick d)\<rparr>"] Cons.prems(1) step show ?thesis
          by (simp add: bindR_def)
      next
        case False
        then have "p = q"
          using Cons.prems(2) by simp
        then have "add_dir p (dk_nodes d) = dk_nodes d"
          using Some by (simp add: add_dir_def)
        moreover have "\<And>r. r \<in> set qs \<Longrightarrow> map_of (dk_nodes d) r = Some Dir"
          using Cons.prems(1) False by auto
        ultimately show ?thesis
          using present [of qs "d\<lparr>dk_tick := Suc (dk_tick d)\<rparr>"] step by (simp add: bindR_def)
      qed
    next
      case None
      then have q: "q = p" "map_of (dk_nodes d) p = None"
        using Cons.prems(1) [of q] by auto
      let ?d = "d\<lparr>dk_tick := Suc (dk_tick d), dk_nodes := add_dir p (dk_nodes d)\<rparr>"
      have "sys os (sys_mkdir q) d = (Inr (), ?d)"
        using assms(1) q by (simp add: sys_ok sys_mkdir_def add_dir_def)
      moreover have "\<And>r. r \<in> set qs \<Longrightarrow> map_of (dk_nodes ?d) r = Some Dir"
        using Cons.prems(1) q by (auto simp: map_of_add_dir)
      ultimately show ?thesis
        using present [of qs ?d] by (simp add: bindR_def)
    qed
  qed simp
qed

lemma parent_error_None: "(\<And>a. a \<in> set (ancestors p) \<Longrightarrow> map_of ns a = Some Dir) \<Longrightarrow> parent_error p ns = None"
  by (auto simp: parent_error_def list_ex_iff list_all_iff is_reg_def)

lemma CreateTemp_ok:
  assumes "os_ok os" "\<And>r. map_of (dk_nodes d) (temp_name dir r) = None"
    and "\<And>r a. a \<in> set (ancestors (temp_name dir r)) \<Longrightarrow> map_of (dk_nodes d) a = Some Dir"
  shows "\<exists>temp d1. CreateTemp os dir d = (Inr temp, d1)"
proof -
  have "sys os (sys_create (temp_name dir r)) d =
      (Inr (), d\<lparr>dk_tick := Suc (dk_tick d), dk_nodes := AList.update (temp_name dir r) (Reg []) (dk_nodes d)\<rparr>)" for r
    using assms parent_error_None [of "temp_name dir r" "dk_nodes d"] by (simp add: sys_ok sys_create_def)
  then have "\<exists>temp d1. create_temp os dir (Suc n) d = (Inr temp, d1)" for n
    by (simp add: Let_def)
  then show ?thesis
    by (metis CreateTemp_def Suc_pred zero_less_numeral)
qed

lemma or_undo_ok: "m d = (Inr u, d1) \<Longrightarrow> or_undo undo what wrap m d = (Inr u, d1)"
  by simp

lemma write_temp_ok:
  assumes ok: "os_ok os" and temp: "map_of (dk_nodes d) temp = Some (Reg [])"
    and dirs: "\<And>a. a \<in> set (ancestors temp) \<union> set (ancestors final) \<Longrightarrow> map_of (dk_nodes d) a = Some Dir"
    and final: "map_of (dk_nodes d) final \<noteq> Some Dir" "final \<noteq> temp"
  shows "\<exists>d1. write_temp os temp final checksum data d = (Inr (), d1)"
proof -
  let ?lens = "PutUint64 (word_of_nat (length data))"
  let ?ns = "AList.update temp (Reg (checksum @ ?lens @ data)) (dk_nodes d)"
  have appended: "append_to temp data (append_to temp ?lens (append_to temp checksum (dk_nodes d))) = ?ns"
    using temp by (simp add: append_to_def update_conv')
  have "temp \<notin> set (ancestors temp) \<union> set (ancestors final)"
    using temp dirs by fastforce
  then have dirs1: "map_of ?ns a = Some Dir" if "a \<in> set (ancestors temp) \<union> set (ancestors final)" for a
    using that dirs [OF that] by (auto simp: update_conv')
  have "resolve temp ?ns = Inr (Reg (checksum @ ?lens @ data))"
    using dirs1 by (auto simp: resolve_def list_ex_iff is_reg_def update_conv')
  moreover have "parent_error final ?ns = None"
    using dirs1 by (intro parent_error_None) blast
  moreover have "map_of ?ns final \<noteq> Some Dir"
    using final by (simp add: update_conv')
  ultimately show ?thesis
    using ok by (simp add: write_temp_def bindR_def or_undo_def Write_ok no_change_ok Rename_def sys_ok sys_rename_def appended)
qed

subsection \<open>Writing a new chunk\<close>

definition added :: "disk_store \<Rightarrow> string \<Rightarrow> byte list \<Rightarrow> nodes \<Rightarrow> nodes" where
  "added ds i data ns = AList.update (Path ds i) (Reg (seal data)) (add_dir (shard ds i) ns)"

lemma layout_temp_free:
  assumes "layout_ok ds ns" "valid_id i"
  shows "map_of (add_dir (shard ds i) ns) (temp_name (shard ds i) r) = None"
    "temp_name (shard ds i) r \<noteq> Path ds i"
proof -
  have based: "based (ds_baseDir ds)"
    using assms(1) by (simp add: layout_ok_def)
  note bs = based_shard [OF based assms(2)]
  let ?t = "temp_name (shard ds i) r"
  have t: "?t = shard ds i @ CHR ''/'' # (''tmp-'' @ dec_nat (r mod 2 ^ 32) @ ''.chunk'')"
    by (rule temp_name_based [OF bs])
  show "?t \<noteq> Path ds i"
    by (rule temp_name_not_Path [OF based assms(2) bs])
  have un: "under (ds_baseDir ds) ?t" and len: "length ?t > length (ds_baseDir ds) + 3"
    unfolding t by (auto simp: shard_def under_def prefix_def)
  have "map_of ns ?t = None"
  proof (rule ccontr)
    assume "map_of ns ?t \<noteq> None"
    then obtain x where x: "map_of ns ?t = Some x"
      by blast
    with assms(1) un have "case x of Dir \<Rightarrow> length ?t = length (ds_baseDir ds) + 3 | Reg b \<Rightarrow> \<exists>j. valid_id j \<and> ?t = Path ds j"
      unfolding layout_ok_def by blast
    then show False
      using len temp_name_not_Path [OF based _ bs] by (cases x) auto
  qed
  moreover have "?t \<noteq> shard ds i"
    by (simp add: t)
  ultimately show "map_of (add_dir (shard ds i) ns) ?t = None"
    by (simp add: map_of_add_dir)
qed

lemma layout_parents:
  assumes "layout_ok ds ns" "valid_id i"
    "a \<in> set (ancestors (Path ds i)) \<union> set (ancestors (temp_name (shard ds i) r))"
  shows "map_of (add_dir (shard ds i) ns) a = Some Dir"
proof -
  have based: "based (ds_baseDir ds)"
    using assms(1) by (simp add: layout_ok_def)
  have "ancestors (temp_name (shard ds i) r) = ancestors (shard ds i) @ [shard ds i]"
    unfolding temp_name_based [OF based_shard [OF based assms(2)]]
    by (rule ancestors_app [OF based_ne [OF based_shard [OF based assms(2)]]])
      (use temp_name_plain in \<open>unfold plain_def, blast\<close>)
  with assms(3) have "a \<in> set (ancestors (shard ds i) @ [shard ds i])"
    unfolding ancestors_Path [OF based assms(2)] by (simp only: Un_absorb)
  from layout_shard [OF assms(1,2) this] show ?thesis
    by (auto simp: map_of_add_dir)
qed

lemma write_chunk_ok:
  assumes ok: "os_ok os" and lay: "layout_ok ds (dk_nodes d)" and vid: "valid_id i"
  shows "\<exists>d1. write_chunk os (Path ds i) (sha256 data) data d = (Inr (), d1) \<and> dk_nodes d1 = added ds i data (dk_nodes d)"
proof -
  let ?p = "Path ds i" and ?dir = "shard ds i" and ?ns = "add_dir (shard ds i) (dk_nodes d)"
  have based: "based (ds_baseDir ds)"
    using lay by (simp add: layout_ok_def)
  note free = layout_temp_free [OF lay vid] and parents = layout_parents [OF lay vid]
  have dir: "Dir_of ?p = ?dir"
    by (rule Dir_of_Path [OF based vid])
  have "map_of (dk_nodes d) q = Some Dir \<or> q = ?dir \<and> map_of (dk_nodes d) ?dir = None"
    if "q \<in> set (ancestors ?dir @ [?dir])" for q
    using layout_shard [OF lay vid that] by auto
  from mkdirs_ok [OF ok this, of "ancestors ?dir @ [?dir]"]
  obtain d1 where d1: "MkdirAll os ?dir d = (Inr (), d1)" "dk_nodes d1 = ?ns"
    by (auto simp: MkdirAll_def)
  obtain temp d2 where d2: "CreateTemp os ?dir d1 = (Inr temp, d2)"
    using CreateTemp_ok [OF ok, of d1 ?dir, unfolded d1(2), OF free(1)] parents by blast
  from create_temp_InrD [OF this [unfolded CreateTemp_def]] obtain r where
    new: "dk_nodes d2 = AList.update temp (Reg []) ?ns" "temp = temp_name ?dir r"
    using d1(2) by auto
  have temp: "map_of (dk_nodes d2) temp = Some (Reg [])" "temp \<noteq> ?p" "map_of ?ns temp = None"
    using new free by (simp_all add: update_conv')
  have "map_of (dk_nodes d2) a = Some Dir" if "a \<in> set (ancestors temp) \<union> set (ancestors ?p)" for a
  proof -
    have "map_of ?ns a = Some Dir"
      using parents [of a r] that new(2) by blast
    with temp(3) show ?thesis
      by (auto simp: new(1) update_conv')
  qed
  moreover have "map_of (dk_nodes d2) ?p \<noteq> Some Dir"
  proof -
    have "?p \<noteq> ?dir"
      by (simp add: Path_valid [OF based vid])
    then show ?thesis
      using layout_path_not_dir [OF lay vid] temp(2) by (simp add: new(1) update_conv' map_of_add_dir)
  qed
  ultimately obtain d3 where d3: "write_temp os temp ?p (sha256 data) data d2 = (Inr (), d3)"
    using write_temp_ok [OF ok temp(1)] temp(2) by metis
  have "dk_nodes d3 = AList.update ?p (Reg (seal data)) (AList.delete temp (dk_nodes d2))"
    using write_temp_InrD [OF d3 temp(1)] by (simp add: seal_def)
  also have "AList.delete temp (dk_nodes d2) = ?ns"
    using temp(3) by (simp add: new(1) delete_update_same map_of_eq_None_iff)
  finally have "dk_nodes d3 = added ds i data (dk_nodes d)"
    by (simp add: added_def)
  with d1 d2 d3 show ?thesis
    by (simp add: write_chunk_def Let_def dir bindR_def mapErrR_def)
qed

lemma stored_added:
  assumes "layout_ok ds ns" "valid_id i" "valid_id j"
  shows "stored ds (added ds i data ns) j = (if j = i then Some (seal data) else stored ds ns j)"
proof -
  have based: "based (ds_baseDir ds)"
    using assms(1) by (simp add: layout_ok_def)
  have "Path ds j \<noteq> shard ds i"
    using length_Path [OF based assms(3)] by (auto simp: shard_def dest: arg_cong [of _ _ length])
  then show ?thesis
    using Path_injective [OF based assms(3,2)] by (auto simp: stored_def added_def update_conv' map_of_add_dir)
qed

lemma layout_added:
  assumes lay: "layout_ok ds ns" and vid: "valid_id i"
  shows "layout_ok ds (added ds i data ns)"
proof -
  let ?p = "Path ds i" and ?dir = "shard ds i"
  have based: "based (ds_baseDir ds)" and dist: "distinct (map fst ns)"
    using lay by (simp_all add: layout_ok_def)
  have "distinct (map fst (added ds i data ns))"
    using dist by (simp add: added_def add_dir_def distinct_update)
  moreover have "map_of (added ds i data ns) q = Some Dir" if "q \<in> set (ancestors (ds_baseDir ds) @ [ds_baseDir ds])" for q
  proof -
    have "map_of ns q = Some Dir"
      using lay that unfolding layout_ok_def by blast
    moreover from this have "q \<noteq> ?p"
      using layout_path_not_dir [OF lay vid] by auto
    ultimately show ?thesis
      by (simp add: added_def update_conv' map_of_add_dir)
  qed
  moreover have "case x of Dir \<Rightarrow> length p = length (ds_baseDir ds) + 3 | Reg bs \<Rightarrow> \<exists>j. valid_id j \<and> p = Path ds j"
    if "map_of (added ds i data ns) p = Some x" "under (ds_baseDir ds) p" for p x
  proof (cases "p = ?p")
    case True
    with that(1) vid show ?thesis
      by (auto simp: added_def update_conv')
  next
    case other: False
    show ?thesis
    proof (cases "map_of ns p")
      case None
      with that(1) other have "p = ?dir" "x = Dir"
        by (auto simp: added_def update_conv' map_of_add_dir split: if_splits)
      moreover have "map_of ns ?dir \<noteq> Some Dir"
        using None \<open>p = ?dir\<close> by simp
      ultimately show ?thesis
        using layout_shard [OF lay vid, of ?dir] by auto
    next
      case (Some y)
      with that(1) other have "y = x"
        by (auto simp: added_def update_conv' map_of_add_dir split: if_splits)
      with lay that(2) Some show ?thesis
        unfolding layout_ok_def by blast
    qed
  qed
  ultimately show ?thesis
    using based unfolding layout_ok_def by blast
qed

lemma usage_added:
  assumes "layout_ok ds ns" "valid_id i" "stored ds ns i = None"
  shows "usage (ds_baseDir ds) (added ds i data ns) = usage (ds_baseDir ds) ns + headerSize + length data"
proof -
  have based: "based (ds_baseDir ds)"
    using assms(1) by (simp add: layout_ok_def)
  have "map_of ns (Path ds i) = None"
    using assms(3) layout_path_not_dir [OF assms(1,2)] by (auto simp: stored_def split: option.splits node.splits)
  then have "map_of (add_dir (shard ds i) ns) (Path ds i) = None"
    by (simp add: map_of_add_dir Path_valid [OF based assms(2)])
  moreover have "usage (ds_baseDir ds) (add_dir (shard ds i) ns) = usage (ds_baseDir ds) ns"
    by (simp add: add_dir_def usage_update)
  ultimately show ?thesis
    using under_Path [OF based assms(2)] by (simp add: added_def usage_update)
qed

subsection \<open>Every outcome of Put\<close>

lemma check_existing_ok:
  assumes "os_ok os" "layout_ok ds (dk_nodes d)" "valid_id i"
  shows "\<exists>d1. dk_nodes d1 = dk_nodes d \<and>
     check_existing os (Path ds i) i (sha256 data) (word_of_nat (length data)) d =
       (case stored ds (dk_nodes d) i of
          None \<Rightarrow> Inr False
        | Some bs \<Rightarrow> if header_matches bs data then Inr True
            else Inl (New_error CodeIntegrityViolation (''existing chunk mismatch for '' @ i)), d1)"
proof (cases "stored ds (dk_nodes d) i")
  case None
  then have "Open os (Path ds i) d = (Inl ENOENT, d\<lparr>dk_tick := Suc (dk_tick d)\<rparr>)"
    using assms by (simp add: Open_ok resolve_Path)
  with None show ?thesis
    by (simp add: check_existing_def Let_def)
next
  case (Some bs)
  let ?d = "d\<lparr>dk_tick := Suc (dk_tick d)\<rparr>"
  have o: "Open os (Path ds i) d = (Inr (Reg bs), ?d)"
    using assms Some by (simp add: Open_ok resolve_Path)
  obtain r d1 where r: "ReadFull os headerSize (Reg bs) ?d = (r, d1)"
    by (cases "ReadFull os headerSize (Reg bs) ?d")
  then have d1: "dk_nodes d1 = dk_nodes d"
    using ReadFull_nodes [of os headerSize "Reg bs" ?d] by simp
  show ?thesis
  proof (cases "headerSize \<le> length bs")
    case True
    then have "r = Inr (take headerSize bs, drop headerSize bs)"
      using ReadFull_ok(1) [OF assms(1), of headerSize bs ?d] r by auto
    with True Some o r d1 show ?thesis
      by (auto simp: check_existing_def Let_def header_matches_def size_defs drop_take min_def intro!: exI [of _ d1])
  next
    case False
    then obtain err where "r = Inl err"
      using ReadFull_ok(2) [OF assms(1), of bs headerSize ?d] r by auto
    with False Some o r d1 show ?thesis
      by (auto simp: check_existing_def Let_def header_matches_def)
  qed
qed

abbreviation cs_stored :: "chunk_disk \<Rightarrow> string \<Rightarrow> byte list option" where
  "cs_stored s \<equiv> stored (cs_store s) (cs_nodes s)"

abbreviation cs_layout :: "chunk_disk \<Rightarrow> bool" where
  "cs_layout s \<equiv> layout_ok (cs_store s) (cs_nodes s)"

lemma used_Path [simp]: "Path (ds\<lparr>ds_usedBytes := n\<rparr>) = Path ds"
  by (rule ext) (simp add: Path_def)

lemma used_layout [simp]: "layout_ok (ds\<lparr>ds_usedBytes := n\<rparr>) ns = layout_ok ds ns"
proof -
  have "ds_baseDir (ds\<lparr>ds_usedBytes := n\<rparr>) = ds_baseDir ds"
    by simp
  then show ?thesis
    unfolding layout_ok_def used_Path by (simp only:)
qed

lemma used_stored [simp]: "stored (ds\<lparr>ds_usedBytes := n\<rparr>) ns i = stored ds ns i"
  by (simp add: stored_def)

text \<open>Outcomes: too large, already there with the same header, there with another, and new.\<close>

definition put_result :: "chunk_disk \<Rightarrow> string \<Rightarrow> byte list \<Rightarrow> go_error + unit" where
  "put_result s i data =
     (if length data > maxSize then Inl (New_error CodeInvalidArgument ''chunk size out of allowed range'')
      else case cs_stored s i of
          None \<Rightarrow> Inr ()
        | Some bs \<Rightarrow> if header_matches bs data then Inr ()
            else Inl (New_error CodeIntegrityViolation (''existing chunk mismatch for '' @ i)))"

definition writes_new :: "chunk_disk \<Rightarrow> string \<Rightarrow> byte list \<Rightarrow> bool" where
  "writes_new s i data \<longleftrightarrow> length data \<le> maxSize \<and> cs_stored s i = None"

lemma Put_ok:
  assumes "os_ok os" "cs_layout s" "valid_id i"
  shows "\<exists>s1. Put os None i (Inr data) s = (put_result s i data, s1)
    \<and> (if writes_new s i data
       then cs_nodes s1 = added (cs_store s) i data (cs_nodes s)
         \<and> cs_store s1 = (cs_store s)\<lparr>ds_usedBytes := ds_usedBytes (cs_store s) + word_of_nat (headerSize + length data)\<rparr>
       else cs_nodes s1 = cs_nodes s \<and> cs_store s1 = cs_store s)"
proof (cases "length data > maxSize")
  case True
  then show ?thesis
    by (simp add: Put_def put_data_def put_result_def writes_new_def)
next
  case False
  obtain d1 where d1: "dk_nodes d1 = cs_nodes s"
    "check_existing os (chunk_path s i) i (sha256 data) (word_of_nat (length data)) (cs_disk s) =
       (case cs_stored s i of
          None \<Rightarrow> Inr False
        | Some bs \<Rightarrow> if header_matches bs data then Inr True
            else Inl (New_error CodeIntegrityViolation (''existing chunk mismatch for '' @ i)), d1)"
    using check_existing_ok [OF assms(1), of "cs_store s" "cs_disk s" i data] assms by blast
  show ?thesis
  proof (cases "cs_stored s i")
    case (Some bs)
    with False d1 show ?thesis
      by (auto simp: Put_def put_data_def put_result_def writes_new_def bindR_def on_disk_def split: prod.splits)
  next
    case None
    obtain d2 where d2: "write_chunk os (chunk_path s i) (sha256 data) data d1 = (Inr (), d2)"
      "dk_nodes d2 = added (cs_store s) i data (cs_nodes s)"
      using write_chunk_ok [OF assms(1), of "cs_store s" d1 i data] assms None d1(1) by auto
    with None False d1 show ?thesis
      by (simp add: Put_def put_data_def put_result_def writes_new_def bindR_def on_disk_def add_used_def add.assoc)
  qed
qed

subsection \<open>Every outcome of Delete and Exists\<close>

lemma Remove_ok:
  assumes "os_ok os" "layout_ok ds (dk_nodes d)" "valid_id i" "stored ds (dk_nodes d) i = Some bs"
  shows "Remove os (Path ds i) d =
    (Inr (), d\<lparr>dk_tick := Suc (dk_tick d), dk_nodes := AList.delete (Path ds i) (dk_nodes d)\<rparr>)"
  using assms by (simp add: Remove_def sys_ok sys_remove_def resolve_Path)

lemma Delete_ok:
  assumes "os_ok os" "cs_layout s" "valid_id i"
  shows "\<exists>s1. Delete os i s = (Inr (), s1) \<and>
    (case cs_stored s i of
       None \<Rightarrow> cs_nodes s1 = cs_nodes s \<and> cs_store s1 = cs_store s
     | Some bs \<Rightarrow> cs_nodes s1 = AList.delete (chunk_path s i) (cs_nodes s)
         \<and> cs_store s1 = (cs_store s)\<lparr>ds_usedBytes := ds_usedBytes (cs_store s) - word_of_nat (length bs)\<rparr>)"
proof (cases "cs_stored s i")
  case None
  then show ?thesis
    using assms by (simp add: Delete_def Let_def on_disk_def Stat_ok resolve_Path os_IsNotExist_def)
next
  case (Some bs)
  then show ?thesis
    using assms by (simp add: Delete_def Let_def on_disk_def Stat_ok resolve_Path Remove_ok node_size_def add_used_def)
qed

lemma Exists_ok:
  assumes "os_ok os" "cs_layout s" "valid_id i"
  shows "\<exists>s1. Exists os i s = (Inr (cs_stored s i \<noteq> None), s1) \<and> cs_nodes s1 = cs_nodes s \<and> cs_store s1 = cs_store s"
  using assms by (cases "cs_stored s i") (simp_all add: Exists_def Let_def on_disk_def Stat_ok resolve_Path os_IsNotExist_def)

lemma layout_delete:
  assumes lay: "layout_ok ds ns" and vid: "valid_id i"
  shows "layout_ok ds (AList.delete (Path ds i) ns)"
proof -
  have "map_of (AList.delete (Path ds i) ns) q = Some Dir" if "q \<in> set (ancestors (ds_baseDir ds) @ [ds_baseDir ds])" for q
  proof -
    have "map_of ns q = Some Dir"
      using lay that unfolding layout_ok_def by blast
    moreover from this have "q \<noteq> Path ds i"
      using layout_path_not_dir [OF lay vid] by auto
    ultimately show ?thesis
      by simp
  qed
  moreover have "map_of ns p = Some x" if "map_of (AList.delete (Path ds i) ns) p = Some x" for p x
    using that by (simp add: delete_conv' split: if_splits)
  moreover have "distinct (map fst (AList.delete (Path ds i) ns))"
    using lay by (simp add: layout_ok_def distinct_delete)
  ultimately show ?thesis
    using lay unfolding layout_ok_def by blast
qed

lemma stored_delete:
  assumes "layout_ok ds ns" "valid_id i" "valid_id j"
  shows "stored ds (AList.delete (Path ds i) ns) j = (if j = i then None else stored ds ns j)"
  using Path_injective [OF _ assms(3,2)] assms(1) by (auto simp: stored_def delete_conv' layout_ok_def)

lemma usage_stored_delete:
  assumes "layout_ok ds ns" "valid_id i" "stored ds ns i = Some bs"
  shows "usage (ds_baseDir ds) ns = usage (ds_baseDir ds) (AList.delete (Path ds i) ns) + length bs"
proof -
  have "map_of ns (Path ds i) = Some (Reg bs)"
    using assms(3) by (auto simp: stored_def split: option.splits node.splits)
  with assms(1) usage_delete [of ns "Path ds i" "Reg bs" "ds_baseDir ds"] under_Path [of ds i] assms(2) show ?thesis
    by (simp add: layout_ok_def)
qed

end
