(* ===== verification/Chunk_Properties.thy ===== *)
theory Chunk_Properties
  imports Chunk_Put
begin

text \<open>
  The properties of the chunk store. \<open>os_ok\<close> is an operating system whose calls succeed; how many
  bytes its reads deliver and which buffers are offered stays open. Properties without it hold when
  any call fails.
\<close>

subsection \<open>Reading\<close>

text \<open>
  C16. Integrity. Whatever the system does - failing calls, short reads, an early end of the file -
  bytes are returned only if their SHA-256 digest and their length are the ones in the header of
  the chunk's file, and they are the beginning of what follows the header.
\<close>

theorem Get_verified:
  assumes "read_chunk os chunkID s = (Inr data, s1)"
  shows "\<exists>bs. map_of (cs_nodes s) (chunk_path s chunkID) = Some (Reg bs) \<and> header_matches bs data
    \<and> prefix data (drop headerSize bs)"
  using assms by (rule read_chunk_verified)

text \<open>
  C12. The streaming reader decides what the reference decides that looks at the whole file: a
  missing file is \<open>NotFound\<close>, another failure to open it internal, a directory or a file that
  \<open>unseal\<close> refuses an integrity violation, and any other file is returned without its header; for
  every buffer size and every way the system cuts the file into pieces.
\<close>

theorem Get_equals_reference:
  assumes "os_ok os"
  shows "case resolve (chunk_path s chunkID) (cs_nodes s) of
      Inl ENOENT \<Rightarrow> fst (read_chunk os chunkID s) = Inl (New_error CodeNotFound (''chunk not found: '' @ chunkID))
    | Inl err \<Rightarrow> fst (read_chunk os chunkID s)
        = Inl (internal ''failed to open chunk file'' (path_error ''open'' (chunk_path s chunkID) err))
    | Inr Dir \<Rightarrow> \<exists>err. fst (read_chunk os chunkID s) = Inl (Wrap_error CodeIntegrityViolation ''failed to read chunk header'' err)
    | Inr (Reg bs) \<Rightarrow> (case unseal bs of
          Some data \<Rightarrow> fst (read_chunk os chunkID s) = Inr data
        | None \<Rightarrow> \<exists>m cause. fst (read_chunk os chunkID s) = Inl (AppErr CodeIntegrityViolation m cause))"
  using assms by (rule read_chunk_eq)

text \<open>
  Reading a chunk to its end takes at most one call of \<open>Read\<close> more than there are bytes left,
  whatever the buffers and the system: the loop of \<open>io.ReadAll\<close> always ends.
\<close>

lemma ReadAll_bound: "dk_tick (snd (snd (ReadAll os b v d))) \<le> dk_tick d + length (v_file v) + 1"
  by (rule ReadAll_ticks)

subsection \<open>Writing\<close>

lemma read_stored:
  assumes "os_ok os" "cs_layout s" "valid_id i" "cs_stored s i = Some (seal data)"
  shows "\<exists>s1. read_chunk os i s = (Inr data, s1)"
  using read_chunk_eq [OF assms(1), where s = s and chunkID = i] assms by (cases "read_chunk os i s") (simp add: resolve_Path)

lemma Put_effect:
  assumes "os_ok os" "cs_layout s" "valid_id i"
  shows "\<exists>s1. Put os None i (Inr data) s = (put_result s i data, s1) \<and> cs_layout s1
    \<and> (\<forall>j. valid_id j \<longrightarrow> cs_stored s1 j = (if j = i \<and> writes_new s i data then Some (seal data) else cs_stored s j))
    \<and> (\<not> writes_new s i data \<longrightarrow> cs_nodes s1 = cs_nodes s \<and> cs_store s1 = cs_store s)"
proof -
  obtain s1 where s1: "Put os None i (Inr data) s = (put_result s i data, s1)"
    "if writes_new s i data
       then cs_nodes s1 = added (cs_store s) i data (cs_nodes s)
         \<and> cs_store s1 = (cs_store s)\<lparr>ds_usedBytes := ds_usedBytes (cs_store s) + word_of_nat (headerSize + length data)\<rparr>
       else cs_nodes s1 = cs_nodes s \<and> cs_store s1 = cs_store s"
    using Put_ok [OF assms, of data] by blast
  show ?thesis
  proof (cases "writes_new s i data")
    case True
    with s1 layout_added [OF assms(2,3), of data] stored_added [OF assms(2,3), of _ data] show ?thesis
      by (intro exI [of _ s1]) auto
  qed (use s1 assms(2) in auto)
qed

text \<open>
  C17. Put on every branch, when the system works. More than 16 MiB is refused as an invalid
  argument; a chunk whose file has a header with the same digest and length is accepted without
  being written; any other existing file is an integrity violation; otherwise the chunk is stored.
  Only a new chunk changes anything, and no other chunk is touched.
\<close>

theorem Put_decides:
  assumes "os_ok os" "cs_layout s" "valid_id i"
  shows "\<exists>s1. Put os None i (Inr data) s = (put_result s i data, s1) \<and> cs_layout s1
    \<and> (\<forall>j. valid_id j \<longrightarrow> cs_stored s1 j = (if j = i \<and> writes_new s i data then Some (seal data) else cs_stored s j))
    \<and> (\<not> writes_new s i data \<longrightarrow> cs_nodes s1 = cs_nodes s \<and> cs_store s1 = cs_store s)"
  using assms by (rule Put_effect)

lemma Put_new:
  assumes "os_ok os" "cs_layout s" "valid_id i" "cs_stored s i = None" "length data \<le> maxSize"
  shows "\<exists>s1. Put os None i (Inr data) s = (Inr (), s1) \<and> cs_layout s1
    \<and> (\<forall>j. valid_id j \<longrightarrow> cs_stored s1 j = (if j = i then Some (seal data) else cs_stored s j))"
  using Put_effect [OF assms(1-3), of data] assms(4,5) by (auto simp: put_result_def writes_new_def)

text \<open>
  C11. The round trip: a chunk of at most 16 MiB stored under a new ID is read back byte for byte,
  from any later run of the system, and its storing leaves every other chunk's file alone.
\<close>

theorem Put_Get_roundtrip:
  assumes "os_ok os" "os_ok os'" "cs_layout s" "valid_id i" "cs_stored s i = None" "length data \<le> maxSize"
  shows "\<exists>s1 s2. Put os None i (Inr data) s = (Inr (), s1) \<and> read_chunk os' i s1 = (Inr data, s2)
    \<and> (\<forall>j. valid_id j \<longrightarrow> j \<noteq> i \<longrightarrow> cs_stored s2 j = cs_stored s j)"
proof -
  obtain s1 where s1: "Put os None i (Inr data) s = (Inr (), s1)" "cs_layout s1"
    "\<forall>j. valid_id j \<longrightarrow> cs_stored s1 j = (if j = i then Some (seal data) else cs_stored s j)"
    using Put_new [OF assms(1,3-6)] by blast
  obtain s2 where s2: "read_chunk os' i s1 = (Inr data, s2)"
    using read_stored [OF assms(2) s1(2) assms(4)] s1(3) assms(4) by auto
  with read_chunk_state [OF s2] s1 show ?thesis
    by auto
qed

subsection \<open>Failures in the middle of a Put\<close>

text \<open>The check of an existing file changes nothing, and accepts only a file with the right header.\<close>

lemma check_existing_nodes:
  assumes c: "check_existing os final chunkID (sha256 data) (word_of_nat (length data)) d = (q, d1)"
  shows "dk_nodes d1 = dk_nodes d \<and> (q = Inr True \<longrightarrow> (\<exists>bs. map_of (dk_nodes d) final = Some (Reg bs) \<and> header_matches bs data))"
proof -
  obtain x d0 where o: "Open os final d = (x, d0)"
    by (cases "Open os final d")
  have d0: "dk_nodes d0 = dk_nodes d"
    using o by (metis Open_nodes snd_conv)
  show ?thesis
  proof (cases x)
    case (Inl err)
    with c o d0 show ?thesis
      by (auto simp: check_existing_def Let_def)
  next
    case (Inr y)
    obtain h d2 where h: "ReadFull os headerSize y d0 = (h, d2)"
      by (cases "ReadFull os headerSize y d0")
    then have d2: "dk_nodes d2 = dk_nodes d"
      using d0 by (metis ReadFull_nodes snd_conv)
    show ?thesis
    proof (cases h)
      case (Inl err)
      with c o Inr h d2 show ?thesis
        by (auto simp: check_existing_def Let_def)
    next
      case (Inr hr)
      obtain header rest where hr: "hr = (header, rest)"
        by (cases hr)
      from ReadFull_InrD [OF h [unfolded Inr hr]] obtain bs where bs: "y = Reg bs" "headerSize \<le> length bs"
        "header = take headerSize bs"
        by blast
      have reg: "map_of (dk_nodes d) final = Some (Reg bs)"
        using Open_InrD [OF o [unfolded \<open>x = Inr y\<close>]] bs(1) resolve_InrD by auto
      show ?thesis
        using c o \<open>x = Inr y\<close> h Inr hr d2 bs reg
        by (auto simp: check_existing_def Let_def header_matches_def size_defs drop_take min_def split: if_splits)
    qed
  qed
qed

lemma put_data_nodes:
  assumes "put_data os final chunkID data s = (r, s1)"
  obtains (same) "cs_nodes s1 = cs_nodes s" "\<And>u. r = Inr u \<Longrightarrow>
      \<exists>bs. map_of (cs_nodes s) final = Some (Reg bs) \<and> header_matches bs data"
  | (written) d r' d1 where "write_chunk os final (sha256 data) data d = (r', d1)" "dk_nodes d = cs_nodes s"
      "cs_nodes s1 = dk_nodes d1" "(\<exists>u. r = Inr u) = (\<exists>u. r' = Inr u)"
proof -
  let ?check = "check_existing os final chunkID (sha256 data) (word_of_nat (length data)) (cs_disk s)"
  obtain q d where c: "?check = (q, d)"
    by (cases ?check)
  note d = check_existing_nodes [OF c]
  show thesis
  proof (cases "length data > maxSize \<or> q \<noteq> Inr False")
    case True
    with assms c d show thesis
      by (intro same) (auto simp: put_data_def bindR_def on_disk_def split: if_splits sum.splits)
  next
    case False
    obtain r' d1 where w: "write_chunk os final (sha256 data) data d = (r', d1)"
      by (cases "write_chunk os final (sha256 data) data d")
    with False assms c d show thesis
      by (intro written [OF w]) (auto simp: put_data_def bindR_def on_disk_def add_used_def split: sum.splits)
  qed
qed

lemma Put_cases:
  assumes "Put os ctx i src s = (r, s1)"
  obtains (same) "cs_nodes s1 = cs_nodes s" "\<And>u. r = Inr u \<Longrightarrow>
      \<exists>data bs. src = Inr data \<and> map_of (cs_nodes s) (chunk_path s i) = Some (Reg bs) \<and> header_matches bs data"
  | (written) data temps where "src = Inr data" "temps \<subseteq> range (temp_name (Dir_of (chunk_path s i)))"
      "\<And>p. p \<in> temps \<Longrightarrow> map_of (cs_nodes s) p = None"
      "spared (temps \<union> (case r of Inl err \<Rightarrow> {} | Inr u \<Rightarrow> {chunk_path s i})) (cs_nodes s) (cs_nodes s1)"
      "\<And>u. r = Inr u \<Longrightarrow> map_of (cs_nodes s1) (chunk_path s i) = Some (Reg (seal data))"
proof (cases "ctx = None \<and> (\<exists>data. src = Inr data)")
  case False
  with assms have "cs_nodes s1 = cs_nodes s \<and> (\<forall>u. r \<noteq> Inr u)"
    by (auto simp: Put_def split: option.splits sum.splits)
  then show ?thesis
    by (auto intro: same)
next
  case True
  then obtain data where src: "ctx = None" "src = Inr data"
    by blast
  let ?f = "chunk_path s i"
  have "put_data os ?f i data s = (r, s1)"
    using assms src by (simp add: Put_def)
  then show ?thesis
  proof (cases rule: put_data_nodes)
    case same
    with src show ?thesis
      by (intro that(1)) auto
  next
    case (written d r' d1)
    obtain temps where temps: "temps \<subseteq> range (temp_name (Dir_of ?f))" "\<And>p. p \<in> temps \<Longrightarrow> map_of (dk_nodes d) p = None"
      "spared (temps \<union> (case r' of Inl err \<Rightarrow> {} | Inr u \<Rightarrow> {?f})) (dk_nodes d) (dk_nodes d1)"
      "\<And>u. r' = Inr u \<Longrightarrow> map_of (dk_nodes d1) ?f = Some (Reg (seal data))"
      using write_chunk_spared [OF written(1)] unfolding seal_def by metis
    have "(case r' of Inl err \<Rightarrow> {} | Inr u \<Rightarrow> {?f}) = (case r of Inl err \<Rightarrow> {} | Inr u \<Rightarrow> {?f})"
      using written(4) by (cases r; cases r') auto
    with temps written src show ?thesis
      by (intro that(2) [of data temps]) auto
  qed
qed

lemma Put_others:
  assumes "Put os ctx i src s = (r, s1)" "p \<noteq> chunk_path s i \<or> (\<exists>err. r = Inl err)"
  shows "map_of (cs_nodes s1) p = map_of (cs_nodes s) p
     \<or> map_of (cs_nodes s) p = None \<and> (map_of (cs_nodes s1) p = Some Dir \<or> p \<in> range (temp_name (Dir_of (chunk_path s i))))"
  using assms(1)
proof (cases rule: Put_cases)
  case (written data temps)
  show ?thesis
  proof (cases "p \<in> temps")
    case True
    with written(2,3) show ?thesis
      by auto
  next
    case False
    with assms(2) written(4) show ?thesis
      by (auto simp: spared_def split: sum.splits)
  qed
qed simp

lemma Put_success:
  assumes "Put os ctx i src s = (Inr u, s1)"
  shows "\<exists>data bs. src = Inr data \<and> map_of (cs_nodes s1) (chunk_path s i) = Some (Reg bs)
     \<and> header_matches bs data \<and> (bs = seal data \<or> map_of (cs_nodes s) (chunk_path s i) = Some (Reg bs))"
  using assms by (cases rule: Put_cases) (auto simp: header_matches_seal)

text \<open>
  C14. Put is atomic. Whichever of its system calls fail, and whatever a failing write leaves
  behind: everything that was on the disk stays as it is, except perhaps the chunk's own file;
  what is new elsewhere is a directory or a temporary file in the chunk's directory; a Put that
  reports an error leaves the chunk's file alone, unless it was absent and a temporary file
  took its name; and a Put that succeeds leaves a file with the right header there, the sealed data
  unless one with the same header was already there.
\<close>

theorem Put_atomic:
  assumes "Put os ctx i src s = (r, s1)"
  shows "(\<forall>p. p \<noteq> chunk_path s i \<longrightarrow> map_of (cs_nodes s) p \<noteq> None \<longrightarrow> map_of (cs_nodes s1) p = map_of (cs_nodes s) p)
    \<and> (\<forall>p. p \<noteq> chunk_path s i \<longrightarrow> map_of (cs_nodes s) p = None \<longrightarrow>
         map_of (cs_nodes s1) p \<in> {None, Some Dir} \<or> p \<in> range (temp_name (Dir_of (chunk_path s i))))
    \<and> (case r of
         Inl err \<Rightarrow> map_of (cs_nodes s1) (chunk_path s i) = map_of (cs_nodes s) (chunk_path s i)
           \<or> map_of (cs_nodes s) (chunk_path s i) = None \<and> (map_of (cs_nodes s1) (chunk_path s i) = Some Dir
              \<or> chunk_path s i \<in> range (temp_name (Dir_of (chunk_path s i))))
       | Inr u \<Rightarrow> \<exists>data bs. src = Inr data \<and> map_of (cs_nodes s1) (chunk_path s i) = Some (Reg bs)
           \<and> header_matches bs data \<and> (bs = seal data \<or> map_of (cs_nodes s) (chunk_path s i) = Some (Reg bs)))"
proof (intro conjI allI impI)
  fix p
  assume p: "p \<noteq> chunk_path s i"
  then show "map_of (cs_nodes s) p \<noteq> None \<Longrightarrow> map_of (cs_nodes s1) p = map_of (cs_nodes s) p"
    and "map_of (cs_nodes s) p = None \<Longrightarrow>
      map_of (cs_nodes s1) p \<in> {None, Some Dir} \<or> p \<in> range (temp_name (Dir_of (chunk_path s i)))"
    using Put_others [OF assms, of p] by auto
next
  show "case r of
      Inl err \<Rightarrow> map_of (cs_nodes s1) (chunk_path s i) = map_of (cs_nodes s) (chunk_path s i)
        \<or> map_of (cs_nodes s) (chunk_path s i) = None \<and> (map_of (cs_nodes s1) (chunk_path s i) = Some Dir
           \<or> chunk_path s i \<in> range (temp_name (Dir_of (chunk_path s i))))
    | Inr u \<Rightarrow> \<exists>data bs. src = Inr data \<and> map_of (cs_nodes s1) (chunk_path s i) = Some (Reg bs)
        \<and> header_matches bs data \<and> (bs = seal data \<or> map_of (cs_nodes s) (chunk_path s i) = Some (Reg bs))"
    using Put_others [OF assms, of "chunk_path s i"] Put_success assms by (cases r) auto
qed

end
