(* ===== verification/Chunk_Usage.thy ===== *)
theory Chunk_Usage
  imports Chunk_Properties
begin

text \<open>
  The accounting of the chunk store: the counter that \<open>New\<close> computes from the disk and every
  operation maintains, what it means for the capacity, and which paths the chunks get.
\<close>

subsection \<open>Opening a store\<close>

lemma walk_sum_InrD:
  "walk_sum os es acc d = (Inr n, d1) \<Longrightarrow>
     n = acc + word_of_nat (sum_list (map (\<lambda>(p, x). case x of Dir \<Rightarrow> 0 | Reg bs \<Rightarrow> length bs) es)) \<and> dk_nodes d1 = dk_nodes d"
proof (induction es arbitrary: acc d)
  case (Cons e es)
  obtain p x where e: "e = (p, x)"
    by (cases e)
  from Cons.prems e obtain u d2 where d2: "no_change os d = (Inr u, d2)"
    and rest: "walk_sum os es (case x of Dir \<Rightarrow> acc | Reg bs \<Rightarrow> acc + word_of_nat (length bs)) d2 = (Inr n, d1)"
    by (auto simp: bindR_eq_Inr)
  from Cons.IH [OF rest] no_change_InrD [OF d2] show ?case
    by (cases x) (simp_all add: e add.assoc)
qed simp

lemma usage_filter:
  "usage base ns = sum_list (map (\<lambda>(p, x). case x of Dir \<Rightarrow> 0 | Reg bs \<Rightarrow> length bs) (filter (\<lambda>e. under base (fst e)) ns))"
  by (induction ns) (auto simp: usage_def)

lemma New_store_InrD:
  assumes "New_store os dir cap d = (Inr ds, d1)"
  shows "dir \<noteq> []" "ds_baseDir ds = Join [dir, ''chunks'']" "ds_capacityBytes ds = cap"
    "ds_usedBytes ds = word_of_nat (usage (ds_baseDir ds) (dk_nodes d1))"
proof -
  let ?path = "Join [dir, ''chunks'']"
  show "dir \<noteq> []"
    using assms by (auto simp: New_store_def)
  with assms obtain u d2 n where w: "walk_sum os (filter (\<lambda>e. under ?path (fst e)) (dk_nodes d2)) 0 d2 = (Inr n, d1)"
    and ds: "ds = \<lparr>ds_baseDir = ?path, ds_capacityBytes = cap, ds_usedBytes = n\<rparr>"
    by (auto simp: New_store_def Let_def bindR_eq_Inr scanUsedBytes_def)
  then show "ds_baseDir ds = ?path" "ds_capacityBytes ds = cap"
    by simp_all
  from walk_sum_InrD [OF w] ds show "ds_usedBytes ds = word_of_nat (usage (ds_baseDir ds) (dk_nodes d1))"
    by (simp add: usage_filter)
qed

text \<open>Opening a store changes no file.\<close>

lemma walk_sum_nodes: "dk_nodes (snd (walk_sum os es acc d)) = dk_nodes d"
proof (induction os es acc arbitrary: d rule: walk_sum.induct)
  case (2 os p x rest acc)
  show ?case
    by (cases "no_change os d") (use no_change_nodes [of os d] 2 in \<open>auto simp: bindR_def mapErrR_def split: sum.splits\<close>)
qed simp

lemma New_store_spared:
  assumes "New_store os dir cap d = (Inr ds, d1)"
  shows "spared {} (dk_nodes d) (dk_nodes d1)"
proof -
  let ?p = "Join [dir, ''chunks'']"
  obtain u d2 where mk: "MkdirAll os ?p d = (Inr u, d2)"
    and scan: "scanUsedBytes os ?p d2 = (Inr (ds_usedBytes ds), d1)"
    using assms by (auto simp: New_store_def Let_def bindR_eq_Inr split: if_splits)
  have "spared {} (dk_nodes d) (dk_nodes d2)"
    using mkdirs_spared [of d os "ancestors ?p @ [?p]"] mk by (simp add: MkdirAll_def)
  moreover have "dk_nodes d1 = dk_nodes d2"
    using scan walk_sum_nodes [of os "filter (\<lambda>e. under ?p (fst e)) (dk_nodes d2)" 0 d2]
    by (auto simp: scanUsedBytes_def mapErrR_def split: prod.splits sum.splits)
  ultimately show ?thesis
    by simp
qed

subsection \<open>Every operation keeps the account\<close>

definition accounted :: "chunk_disk \<Rightarrow> bool" where
  "accounted s \<longleftrightarrow> cs_layout s \<and> ds_usedBytes (cs_store s) = word_of_nat (usage (ds_baseDir (cs_store s)) (cs_nodes s))"

text \<open>A call of the \<open>Store\<close> interface; reading is \<open>Get\<close> followed by \<open>io.ReadAll\<close>.\<close>

datatype chunk_call =
    CallPut string "go_error + byte list"
  | CallGet string
  | CallDelete string
  | CallExists string

fun call_id :: "chunk_call \<Rightarrow> string" where
  "call_id (CallPut i src) = i"
| "call_id (CallGet i) = i"
| "call_id (CallDelete i) = i"
| "call_id (CallExists i) = i"

fun run_chunk_call :: "os_env \<Rightarrow> chunk_call \<Rightarrow> chunk_disk \<Rightarrow> chunk_disk" where
  "run_chunk_call os (CallPut i src) s = snd (Put os None i src s)"
| "run_chunk_call os (CallGet i) s = snd (read_chunk os i s)"
| "run_chunk_call os (CallDelete i) s = snd (Delete os i s)"
| "run_chunk_call os (CallExists i) s = snd (Exists os i s)"

definition same_settings :: "chunk_disk \<Rightarrow> chunk_disk \<Rightarrow> bool" where
  "same_settings s s1 \<longleftrightarrow> ds_baseDir (cs_store s1) = ds_baseDir (cs_store s)
     \<and> ds_capacityBytes (cs_store s1) = ds_capacityBytes (cs_store s)"

lemma accounted_Put:
  assumes "os_ok os" "accounted s" "valid_id i"
  shows "accounted (snd (Put os None i src s)) \<and> same_settings s (snd (Put os None i src s))"
proof (cases src)
  case (Inl err)
  with assms show ?thesis
    by (simp add: Put_def same_settings_def)
next
  case (Inr data)
  have lay: "cs_layout s" and used: "ds_usedBytes (cs_store s) = word_of_nat (usage (ds_baseDir (cs_store s)) (cs_nodes s))"
    using assms(2) by (simp_all add: accounted_def)
  obtain s1 where s1: "Put os None i (Inr data) s = (put_result s i data, s1)"
    "if writes_new s i data
       then cs_nodes s1 = added (cs_store s) i data (cs_nodes s)
         \<and> cs_store s1 = (cs_store s)\<lparr>ds_usedBytes := ds_usedBytes (cs_store s) + word_of_nat (headerSize + length data)\<rparr>
       else cs_nodes s1 = cs_nodes s \<and> cs_store s1 = cs_store s"
    using Put_ok [OF assms(1) lay assms(3), of data] by blast
  show ?thesis
  proof (cases "writes_new s i data")
    case True
    with s1 layout_added [OF lay assms(3), of data] usage_added [OF lay assms(3), of data] used Inr show ?thesis
      by (simp add: accounted_def same_settings_def writes_new_def add.assoc)
  qed (use s1 assms(2) Inr in \<open>simp add: accounted_def same_settings_def\<close>)
qed

lemma accounted_Delete:
  assumes "os_ok os" "accounted s" "valid_id i"
  shows "accounted (snd (Delete os i s)) \<and> same_settings s (snd (Delete os i s))"
proof -
  have lay: "cs_layout s" and used: "ds_usedBytes (cs_store s) = word_of_nat (usage (ds_baseDir (cs_store s)) (cs_nodes s))"
    using assms(2) by (simp_all add: accounted_def)
  obtain s1 where s1: "Delete os i s = (Inr (), s1)"
    "case cs_stored s i of
       None \<Rightarrow> cs_nodes s1 = cs_nodes s \<and> cs_store s1 = cs_store s
     | Some bs \<Rightarrow> cs_nodes s1 = AList.delete (chunk_path s i) (cs_nodes s)
         \<and> cs_store s1 = (cs_store s)\<lparr>ds_usedBytes := ds_usedBytes (cs_store s) - word_of_nat (length bs)\<rparr>"
    using Delete_ok [OF assms(1) lay assms(3)] by blast
  show ?thesis
  proof (cases "cs_stored s i")
    case None
    with s1 assms(2) show ?thesis
      by (simp add: accounted_def same_settings_def)
  next
    case (Some bs)
    with s1 layout_delete [OF lay assms(3)] usage_stored_delete [OF lay assms(3) Some] used show ?thesis
      by (simp add: accounted_def same_settings_def)
  qed
qed

lemma accounted_call:
  assumes "os_ok os" "accounted s" "valid_id (call_id c)"
  shows "accounted (run_chunk_call os c s) \<and> same_settings s (run_chunk_call os c s)"
proof (cases c)
  case (CallPut i src)
  with accounted_Put [OF assms(1,2)] assms(3) show ?thesis
    by simp
next
  case (CallGet i)
  obtain r s1 where "read_chunk os i s = (r, s1)"
    by (cases "read_chunk os i s")
  with CallGet read_chunk_state [OF this] assms(2) show ?thesis
    by (simp add: accounted_def same_settings_def)
next
  case (CallDelete i)
  with accounted_Delete [OF assms(1,2)] assms(3) show ?thesis
    by simp
next
  case (CallExists i)
  have "cs_layout s"
    using assms(2) by (simp add: accounted_def)
  from Exists_ok [OF assms(1) this, of i] CallExists assms(2,3) show ?thesis
    by (auto simp: accounted_def same_settings_def)
qed

lemma accounted_calls:
  "os_ok os \<Longrightarrow> accounted s \<Longrightarrow> (\<And>c. c \<in> set calls \<Longrightarrow> valid_id (call_id c)) \<Longrightarrow>
     accounted (fold (run_chunk_call os) calls s) \<and> same_settings s (fold (run_chunk_call os) calls s)"
proof (induction calls arbitrary: s)
  case (Cons c calls)
  have c: "accounted (run_chunk_call os c s)" "same_settings s (run_chunk_call os c s)"
    using accounted_call [OF Cons.prems(1,2)] Cons.prems(3) by simp_all
  from Cons.IH [OF Cons.prems(1) c(1)] Cons.prems(3) c(2) show ?case
    by (simp add: same_settings_def)
qed (simp add: same_settings_def)

text \<open>
  C15. The account is exact. Open a store on any disk whose layout is in order (the scan itself may
  have met any failures that it survived) and run any sequence of Put, Get, Delete and Exists on
  valid IDs: the counter is the number of bytes in the files of the store, and the available bytes
  are what is left of the capacity, in 64-bit arithmetic.
\<close>

theorem usage_exact:
  assumes "New_store os' dir cap d = (Inr ds, d1)" "layout_ok ds (dk_nodes d1)"
    and "os_ok os" "\<forall>c \<in> set calls. valid_id (call_id c)"
    and "s = fold (run_chunk_call os) calls \<lparr>cs_store = ds, cs_disk = d1\<rparr>"
  shows "ds_usedBytes (cs_store s) = word_of_nat (usage (ds_baseDir ds) (cs_nodes s))
    \<and> AvailableBytes (cs_store s) = cap - word_of_nat (usage (ds_baseDir ds) (cs_nodes s))
    \<and> CapacityBytes (cs_store s) = cap \<and> layout_ok ds (cs_nodes s)"
proof -
  note new = New_store_InrD [OF assms(1)]
  have "accounted \<lparr>cs_store = ds, cs_disk = d1\<rparr>"
    using assms(2) new(4) by (simp add: accounted_def)
  from accounted_calls [OF assms(3) this] assms(4,5)
  have acc: "accounted s" and same: "same_settings \<lparr>cs_store = ds, cs_disk = d1\<rparr> s"
    by blast+
  have "Path (cs_store s) = Path ds"
    using same by (intro ext) (simp add: Path_def same_settings_def)
  then have "layout_ok ds (cs_nodes s) = cs_layout s"
    using same by (simp only: layout_ok_def same_settings_def chunk_disk.select_convs)
  with acc same new(3) show ?thesis
    by (simp add: accounted_def same_settings_def AvailableBytes_def CapacityBytes_def)
qed

subsection \<open>The capacity is not a limit\<close>

text \<open>
  C40. Put never looks at the capacity: a new chunk of at most 16 MiB is stored whatever the store's
  capacity is, and the available bytes simply fall by its size, below zero when it did not fit.
\<close>

theorem Put_ignores_capacity:
  assumes "os_ok os" "accounted s" "valid_id i" "cs_stored s i = None" "length data \<le> maxSize"
  shows "\<exists>s1. Put os None i (Inr data) s = (Inr (), s1)
    \<and> AvailableBytes (cs_store s1) = AvailableBytes (cs_store s) - word_of_nat (headerSize + length data)"
proof -
  have "cs_layout s"
    using assms(2) by (simp add: accounted_def)
  from Put_ok [OF assms(1) this assms(3), of data] assms(4,5) show ?thesis
    by (auto simp: put_result_def writes_new_def AvailableBytes_def)
qed

subsection \<open>Paths\<close>

text \<open>
  C39. Chunks with different valid IDs have different files, and every valid ID's file lies in the
  store's directory, in its shard.
\<close>

theorem Path_separates:
  assumes "dir \<noteq> []" "ds_baseDir ds = Join [dir, ''chunks'']" "valid_id i" "valid_id j"
  shows "(Path ds i = Path ds j \<longleftrightarrow> i = j) \<and> under (ds_baseDir ds) (Path ds i)
    \<and> Dir_of (Path ds i) = (if length i \<le> 2 then ds_baseDir ds else ds_baseDir ds @ ''/'' @ take 2 i)"
proof -
  have based: "based (ds_baseDir ds)"
    using assms(1,2) based_Join [of dir "''chunks''"] by (simp add: plain_def)
  show ?thesis
    using Path_injective [OF based assms(3,4)] under_Path [OF based assms(3)] Dir_of_Path [OF based assms(3)]
    by (auto simp: shard_def)
qed

text \<open>
  IDs that are not valid: one with a slash can share the file of another chunk, and one that starts
  with two dots leaves the store's directory.
\<close>

definition small_ds :: disk_store where
  "small_ds = \<lparr>ds_baseDir = ''/data/chunks'', ds_capacityBytes = 10, ds_usedBytes = 0\<rparr>"

lemma Path_collides: "Path small_ds ''ab/c'' = Path small_ds ''abc''"
  by (simp add: Path_def small_ds_def Join_def Clean_def clean_parts_def clean_step_def)

text \<open>
  The gRPC handlers accept any non-empty chunk ID, and \<open>Path\<close> follows the dots in it: with this
  ID the chunk's file is outside the store's directory.
\<close>

lemma Path_escapes:
  "Path small_ds ''../../etc/passwd'' = ''/etc/passwd.chunk''
   \<and> \<not> under (ds_baseDir small_ds) (Path small_ds ''../../etc/passwd'')"
  by (simp add: Path_def small_ds_def Join_def Clean_def clean_parts_def clean_step_def under_def)

subsection \<open>An example\<close>

definition small_disk :: disk where
  "small_disk = \<lparr>dk_nodes = [(''/data'', Dir), (''/data/chunks'', Dir)], dk_tick = 2\<rparr>"

abbreviation small_store :: chunk_disk where
  "small_store \<equiv> \<lparr>cs_store = small_ds, cs_disk = small_disk\<rparr>"

lemma small_Join: "Join [''/data'', ''chunks''] = ''/data/chunks''"
  by (simp add: Join_def Clean_def clean_parts_def clean_step_def)

lemma small_ancestors: "ancestors ''/data/chunks'' = [''/data'']"
  by (simp add: ancestors_def upt_conv_Cons)

lemma small_opened: "New_store plain_os ''/data'' 10 \<lparr>dk_nodes = [], dk_tick = 0\<rparr> = (Inr small_ds, small_disk)"
  by (simp add: New_store_def Let_def small_Join MkdirAll_def small_ancestors bindR_def mapErrR_def sys_ok sys_mkdir_def
      scanUsedBytes_def under_def small_ds_def small_disk_def)

lemma small_layout: "layout_ok small_ds (dk_nodes small_disk)"
proof -
  have "based ''/data/chunks''"
    using based_Join [of "''/data''" "''chunks''"] by (simp add: small_Join plain_def)
  then show ?thesis
    by (auto simp: layout_ok_def small_ds_def small_disk_def small_ancestors under_def split: if_splits)
qed

lemma small_accounted: "accounted small_store"
  using small_layout by (simp add: accounted_def small_ds_def small_disk_def usage_def)

lemma small_empty: "stored small_ds (dk_nodes small_disk) ''chunk1'' = None"
  by (simp add: stored_def Path_def small_ds_def small_disk_def Join_def Clean_def clean_parts_def clean_step_def)

lemma chunk1_valid: "valid_id ''chunk1''"
  by (simp add: valid_id_def)

theorem Put_Get_roundtrip_witness:
  "\<exists>s1 s2. Put plain_os None ''chunk1'' (Inr [1, 2, 3]) small_store = (Inr (), s1)
     \<and> read_chunk plain_os ''chunk1'' s1 = (Inr [1, 2, 3], s2)"
  using Put_Get_roundtrip [of plain_os plain_os small_store "''chunk1''" "[1, 2, 3]"]
    small_layout small_empty chunk1_valid
  by (auto simp: maxSize_def)

lemma small_put: "\<exists>s1 s2. Put plain_os None ''chunk1'' (Inr [1, 2, 3]) small_store = (Inr (), s1)
     \<and> read_chunk plain_os ''chunk1'' s1 = (Inr [1, 2, 3], s2)"
proof -
  obtain s1 where s1: "Put plain_os None ''chunk1'' (Inr [1, 2, 3]) small_store = (Inr (), s1)" "cs_layout s1"
    "cs_stored s1 ''chunk1'' = Some (seal [1, 2, 3])"
    using Put_new [of plain_os small_store "''chunk1''" "[1, 2, 3]"] small_layout small_empty chunk1_valid
    by (auto simp: maxSize_def)
  with read_stored [OF plain_os_ok s1(2) chunk1_valid s1(3)] show ?thesis
    by blast
qed

theorem Get_verified_witness:
  "\<exists>s1 bs. map_of (cs_nodes s1) (chunk_path s1 ''chunk1'') = Some (Reg bs) \<and> header_matches bs [1, 2, 3]"
proof -
  obtain s1 s2 where "read_chunk plain_os ''chunk1'' s1 = (Inr [1, 2, 3], s2)"
    using small_put by blast
  from Get_verified [OF this] show ?thesis
    by blast
qed

theorem Get_equals_reference_witness:
  "fst (read_chunk plain_os ''chunk1'' small_store) = Inl (New_error CodeNotFound (''chunk not found: '' @ ''chunk1''))"
  using Get_equals_reference [OF plain_os_ok, where s = small_store and chunkID = "''chunk1''"] small_layout small_empty chunk1_valid
  by (simp add: resolve_Path)

theorem Put_decides_witness:
  "\<exists>s1. Put plain_os None ''chunk1'' (Inr [1, 2, 3]) small_store = (Inr (), s1) \<and> cs_stored s1 ''chunk1'' = Some (seal [1, 2, 3])"
  using Put_decides [of plain_os small_store "''chunk1''" "[1, 2, 3]"] small_layout small_empty chunk1_valid
  by (auto simp: put_result_def writes_new_def maxSize_def)

theorem Put_atomic_witness:
  "map_of (cs_nodes (snd (Put (plain_os\<lparr>os_fault := (\<lambda>t. Some (OsErr ''input/output error''))\<rparr>) None ''chunk1'' (Inr [1]) small_store))) ''/data''
     = Some Dir"
proof -
  let ?run = "Put (plain_os\<lparr>os_fault := (\<lambda>t. Some (OsErr ''input/output error''))\<rparr>) None ''chunk1'' (Inr [1]) small_store"
  have "''/data'' \<noteq> chunk_path small_store ''chunk1''" "map_of (cs_nodes small_store) ''/data'' = Some Dir"
    by (simp_all add: Path_def small_ds_def small_disk_def Join_def Clean_def clean_parts_def clean_step_def)
  with Put_atomic [of _ None "''chunk1''" "Inr [1]" small_store "fst ?run" "snd ?run"] show ?thesis
    by auto
qed

theorem Put_ignores_capacity_witness:
  "\<exists>s1. Put plain_os None ''chunk1'' (Inr [1, 2, 3]) small_store = (Inr (), s1) \<and> AvailableBytes (cs_store s1) <s 0"
proof -
  obtain s1 where "Put plain_os None ''chunk1'' (Inr [1, 2, 3]) small_store = (Inr (), s1)"
    "AvailableBytes (cs_store s1) = AvailableBytes (cs_store small_store) - word_of_nat (headerSize + length [1, 2, 3 :: byte])"
    using Put_ignores_capacity [of plain_os small_store "''chunk1''" "[1, 2, 3]"] small_accounted small_empty chunk1_valid
    by (auto simp: maxSize_def)
  moreover have "(- 33 :: int64) <s 0"
    by code_simp
  ultimately show ?thesis
    by (simp add: AvailableBytes_def small_ds_def size_defs)
qed

theorem Path_separates_witness:
  "Path small_ds ''chunk1'' \<noteq> Path small_ds ''chunk2'' \<and> under ''/data/chunks'' (Path small_ds ''chunk1'')"
  using Path_separates [of "''/data''" small_ds "''chunk1''" "''chunk2''"] by (simp add: small_Join small_ds_def valid_id_def)

theorem usage_exact_witness:
  "AvailableBytes (cs_store (fold (run_chunk_call plain_os)
     [CallPut ''chunk1'' (Inr [1, 2, 3]), CallDelete ''chunk1'', CallExists ''chunk1''] small_store))
   = 10 - word_of_nat (usage ''/data/chunks'' (cs_nodes (fold (run_chunk_call plain_os)
     [CallPut ''chunk1'' (Inr [1, 2, 3]), CallDelete ''chunk1'', CallExists ''chunk1''] small_store)))"
  using usage_exact [OF small_opened small_layout plain_os_ok, of
      "[CallPut ''chunk1'' (Inr [1, 2, 3]), CallDelete ''chunk1'', CallExists ''chunk1'']", OF _ refl] chunk1_valid
  by (simp add: small_ds_def del: fold.simps)

end
