(* ===== verification/Chunk_Service.thy ===== *)
theory Chunk_Service
  imports Chunk_Usage
begin

text \<open>
  The interface a storage node offers over gRPC, seen from its clients: a partial map from chunk IDs to
  bytes. The verdicts below are the abstract specification of the three RPCs; the locale
  \<open>chunk_service\<close> states that an implementation follows them, and derives what its clients rely on.
  \<open>Storage_Server\<close> interprets it on the handlers of \<open>cmd/storaged/server.go\<close>.
\<close>

type_synonym chunk_map = "string \<Rightarrow> byte list option"

text \<open>What a header can tell of two contents.\<close>

definition same_header :: "byte list \<Rightarrow> byte list \<Rightarrow> bool" where
  "same_header x d \<longleftrightarrow> sha256 x = sha256 d \<and> length x = length d"

definition put_verdict :: "string \<Rightarrow> byte list \<Rightarrow> byte list option \<Rightarrow> go_error + unit" where
  "put_verdict i d old =
     (if i = [] then Inl (StatusErr GrpcInvalidArgument ''chunk_id cannot be empty'')
      else if d = [] then Inl (StatusErr GrpcInvalidArgument ''data cannot be empty'')
      else if length d > maxSize then Inl (StatusErr GrpcInvalidArgument ''invalid argument'')
      else case old of
          None \<Rightarrow> Inr ()
        | Some x \<Rightarrow> if same_header x d then Inr () else Inl (StatusErr GrpcInternal ''internal server error''))"

definition put_map :: "string \<Rightarrow> byte list \<Rightarrow> chunk_map \<Rightarrow> chunk_map" where
  "put_map i d m = (if m i = None \<and> put_verdict i d None = Inr () then m(i \<mapsto> d) else m)"

definition get_verdict :: "string \<Rightarrow> byte list option \<Rightarrow> go_error + byte list" where
  "get_verdict i old =
     (if i = [] then Inl (StatusErr GrpcInvalidArgument ''chunk_id cannot be empty'')
      else case old of None \<Rightarrow> Inl (StatusErr GrpcNotFound ''not found'') | Some x \<Rightarrow> Inr x)"

definition delete_verdict :: "string \<Rightarrow> go_error + unit" where
  "delete_verdict i = (if i = [] then Inl (StatusErr GrpcInvalidArgument ''chunk_id cannot be empty'') else Inr ())"

definition delete_map :: "string \<Rightarrow> chunk_map \<Rightarrow> chunk_map" where
  "delete_map i m = (if i = [] then m else m(i := None))"

text \<open>Requests and answers, and a run of the abstract service.\<close>

datatype request = ReqPut string "byte list" | ReqGet string | ReqDelete string

datatype answer = AnsDone "go_error + unit" | AnsData "go_error + byte list"

fun request_id :: "request \<Rightarrow> string" where
  "request_id (ReqPut i d) = i"
| "request_id (ReqGet i) = i"
| "request_id (ReqDelete i) = i"

fun serve_map :: "request \<Rightarrow> chunk_map \<Rightarrow> answer \<times> chunk_map" where
  "serve_map (ReqPut i d) m = (AnsDone (put_verdict i d (m i)), put_map i d m)"
| "serve_map (ReqGet i) m = (AnsData (get_verdict i (m i)), m)"
| "serve_map (ReqDelete i) m = (AnsDone (delete_verdict i), delete_map i m)"

fun serve_all :: "(request \<Rightarrow> 's \<Rightarrow> answer \<times> 's) \<Rightarrow> request list \<Rightarrow> 's \<Rightarrow> answer list \<times> 's" where
  "serve_all serve [] s = ([], s)"
| "serve_all serve (q # qs) s =
     (let (x, s1) = serve q s; (xs, s2) = serve_all serve qs s1 in (x # xs, s2))"

text \<open>A request served by three operations on a state.\<close>

fun serve_with ::
  "(string \<Rightarrow> byte list \<Rightarrow> ('s, go_error, unit) op) \<Rightarrow> (string \<Rightarrow> ('s, go_error, byte list) op)
     \<Rightarrow> (string \<Rightarrow> ('s, go_error, unit) op) \<Rightarrow> request \<Rightarrow> 's \<Rightarrow> answer \<times> 's" where
  "serve_with put get del (ReqPut i d) s = (let (r, s1) = put i d s in (AnsDone r, s1))"
| "serve_with put get del (ReqGet i) s = (let (r, s1) = get i s in (AnsData r, s1))"
| "serve_with put get del (ReqDelete i) s = (let (r, s1) = del i s in (AnsDone r, s1))"

definition on_valid :: "(string \<Rightarrow> bool) \<Rightarrow> chunk_map \<Rightarrow> chunk_map" where
  "on_valid valid m i = (if valid i then m i else None)"

lemma on_valid_apply [simp]: "valid i \<Longrightarrow> on_valid valid m i = m i"
  by (simp add: on_valid_def)

lemma same_header_refl [simp]: "same_header x x"
  by (simp add: same_header_def)

lemma put_map_other [simp]: "j \<noteq> i \<Longrightarrow> put_map i d m j = m j"
  by (simp add: put_map_def)

lemma put_map_Inr: "put_verdict i d (m i) = Inr () \<Longrightarrow> \<exists>x. put_map i d m i = Some x \<and> same_header x d"
  by (auto simp: put_map_def put_verdict_def split: if_splits option.splits)

subsection \<open>The interface\<close>

locale chunk_service =
  fixes put :: "string \<Rightarrow> byte list \<Rightarrow> ('s, go_error, unit) op"
    and get :: "string \<Rightarrow> ('s, go_error, byte list) op"
    and del :: "string \<Rightarrow> ('s, go_error, unit) op"
    and contents :: "'s \<Rightarrow> chunk_map"
    and ok :: "'s \<Rightarrow> bool"
    and valid :: "string \<Rightarrow> bool"
  assumes put_law: "ok s \<Longrightarrow> valid i \<Longrightarrow> fst (put i d s) = put_verdict i d (contents s i) \<and> ok (snd (put i d s))
        \<and> on_valid valid (contents (snd (put i d s))) = put_map i d (on_valid valid (contents s))"
    and get_law: "ok s \<Longrightarrow> valid i \<Longrightarrow> fst (get i s) = get_verdict i (contents s i) \<and> ok (snd (get i s))
        \<and> contents (snd (get i s)) = contents s"
    and del_law: "ok s \<Longrightarrow> valid i \<Longrightarrow> fst (del i s) = delete_verdict i \<and> ok (snd (del i s))
        \<and> on_valid valid (contents (snd (del i s))) = delete_map i (on_valid valid (contents s))"
begin

lemma serve_simulates:
  assumes "ok s" "valid (request_id q)"
  shows "fst (serve_with put get del q s) = fst (serve_map q (on_valid valid (contents s))) \<and> ok (snd (serve_with put get del q s))
    \<and> on_valid valid (contents (snd (serve_with put get del q s))) = snd (serve_map q (on_valid valid (contents s)))"
  using assms put_law [of s] get_law [of s] del_law [of s] by (cases q) (simp_all add: case_prod_beta)

lemma serve_all_simulates:
  assumes "ok s" "\<forall>q \<in> set qs. valid (request_id q)"
  shows "fst (serve_all (serve_with put get del) qs s) = fst (serve_all serve_map qs (on_valid valid (contents s)))
    \<and> ok (snd (serve_all (serve_with put get del) qs s))
    \<and> on_valid valid (contents (snd (serve_all (serve_with put get del) qs s))) = snd (serve_all serve_map qs (on_valid valid (contents s)))"
  using assms
proof (induction qs arbitrary: s)
  case (Cons q qs)
  then show ?case
    using serve_simulates [of s q] by (simp add: case_prod_beta Let_def)
qed simp

lemma put_get:
  assumes "ok s" "valid i" "put i d s = (Inr (), s1)"
  shows "\<exists>x s2. get i s1 = (Inr x, s2) \<and> same_header x d"
proof -
  note p = put_law [OF assms(1,2), of d]
  from p assms have "put_verdict i d (on_valid valid (contents s) i) = Inr ()"
    by simp
  then have "i \<noteq> []" "\<exists>x. contents s1 i = Some x \<and> same_header x d"
    using put_map_Inr [of i d "on_valid valid (contents s)"] p assms
    by (auto simp: put_verdict_def dest: fun_cong [of _ _ i])
  then show ?thesis
    using get_law [of s1 i] p assms(2,3) by (cases "get i s1") (auto simp: get_verdict_def)
qed

lemma get_contents:
  assumes "ok s" "valid i" "get i s = (Inr x, s1)"
  shows "contents s i = Some x"
  using get_law [OF assms(1,2)] assms(3) by (auto simp: get_verdict_def split: if_splits option.splits)

end

text \<open>A client that pulls a chunk from one service and puts it into another.\<close>

locale chunk_copy =
  source: chunk_service put1 get1 del1 contents1 ok1 valid + target: chunk_service put2 get2 del2 contents2 ok2 valid
  for put1 :: "string \<Rightarrow> byte list \<Rightarrow> ('s, go_error, unit) op" and get1 del1 contents1 ok1
    and put2 :: "string \<Rightarrow> byte list \<Rightarrow> ('t, go_error, unit) op" and get2 del2 contents2 ok2 valid
begin

lemma copy_then_get:
  assumes "ok1 s" "ok2 t" "valid i" "get1 i s = (Inr d, s1)" "put2 i d t = (Inr (), t1)"
  shows "\<exists>x t2. get2 i t1 = (Inr x, t2) \<and> same_header x d \<and> contents1 s i = Some d"
  using source.get_contents [OF assms(1,3,4)] target.put_get [OF assms(2,3,5)] by blast

end

end
