(* ===== verification/Storage_Server.thy ===== *)
theory Storage_Server
  imports Chunk_Service
begin

text \<open>
  \<open>cmd/storaged/server.go\<close> and \<open>internal/storage/metrics/metrics.go\<close>: the storage daemon's state (its
  chunk store on its disk, and its metrics) and the four handlers of the storage service. A handler
  takes the fields of the request; \<open>ctx\<close> is the error of a context that is already done. The handlers
  implement the interface \<open>chunk_service\<close>.
\<close>

record storage_metrics =
  chunksStoredTotal :: nat
  chunksServedTotal :: nat
  availableBytes :: int64

record storaged =
  sd_chunks :: chunk_disk
  sd_metrics :: storage_metrics

definition IncChunksStored :: "storage_metrics \<Rightarrow> storage_metrics" where
  "IncChunksStored m = m\<lparr>chunksStoredTotal := Suc (chunksStoredTotal m)\<rparr>"

definition IncChunksServed :: "storage_metrics \<Rightarrow> storage_metrics" where
  "IncChunksServed m = m\<lparr>chunksServedTotal := Suc (chunksServedTotal m)\<rparr>"

definition SetAvailableBytes :: "int64 \<Rightarrow> storage_metrics \<Rightarrow> storage_metrics" where
  "SetAvailableBytes n m = m\<lparr>availableBytes := n\<rparr>"

lemmas storage_metrics_defs = IncChunksStored_def IncChunksServed_def SetAvailableBytes_def

definition with_storage_metrics :: "(storage_metrics \<Rightarrow> storage_metrics) \<Rightarrow> storaged \<Rightarrow> storaged" where
  "with_storage_metrics g s = s\<lparr>sd_metrics := g (sd_metrics s)\<rparr>"

definition on_chunks :: "(chunk_disk, 'e, 'a) op \<Rightarrow> (storaged, 'e, 'a) op" where
  "on_chunks m s = (let (r, c) = m (sd_chunks s) in (r, s\<lparr>sd_chunks := c\<rparr>))"

abbreviation sd_store :: "storaged \<Rightarrow> disk_store" where
  "sd_store s \<equiv> cs_store (sd_chunks s)"

definition mapError :: "go_error \<Rightarrow> go_error" where
  "mapError err =
     (if errors_Is err ErrNotFound then StatusErr GrpcNotFound ''not found''
      else if errors_Is err ErrInvalidArgument then StatusErr GrpcInvalidArgument ''invalid argument''
      else if errors_Is err ErrAlreadyExists then StatusErr GrpcAlreadyExists ''already exists''
      else StatusErr GrpcInternal ''internal server error'')"

definition server_PutChunk :: "os_env \<Rightarrow> go_error option \<Rightarrow> string \<Rightarrow> byte list \<Rightarrow> (storaged, go_error, unit) op" where
  "server_PutChunk os ctx chunkID data s =
     (if chunkID = [] then (Inl (StatusErr GrpcInvalidArgument ''chunk_id cannot be empty''), s)
      else if data = [] then (Inl (StatusErr GrpcInvalidArgument ''data cannot be empty''), s)
      else case on_chunks (Put os ctx chunkID (Inr data)) s of
          (Inl err, s1) \<Rightarrow> (Inl (mapError err), s1)
        | (Inr _, s1) \<Rightarrow>
            (let s2 = with_storage_metrics IncChunksStored s1
             in (Inr (), with_storage_metrics (SetAvailableBytes (AvailableBytes (sd_store s2))) s2)))"

definition server_GetChunk :: "os_env \<Rightarrow> go_error option \<Rightarrow> string \<Rightarrow> (storaged, go_error, byte list) op" where
  "server_GetChunk os ctx chunkID s =
     (if chunkID = [] then (Inl (StatusErr GrpcInvalidArgument ''chunk_id cannot be empty''), s)
      else case on_chunks (Get os ctx chunkID) s of
          (Inl err, s1) \<Rightarrow> (Inl (mapError err), s1)
        | (Inr rc, s1) \<Rightarrow>
            (case on_chunks (on_disk (\<lambda>d. case ReadAll os [] rc d of (r, v, d1) \<Rightarrow> (r, d1))) s1 of
               (Inl err, s2) \<Rightarrow> (Inl (StatusErr GrpcInternal ''failed to read chunk data''), s2)
             | (Inr data, s2) \<Rightarrow> (Inr data, with_storage_metrics IncChunksServed s2)))"

definition server_DeleteChunk :: "os_env \<Rightarrow> string \<Rightarrow> (storaged, go_error, unit) op" where
  "server_DeleteChunk os chunkID s =
     (if chunkID = [] then (Inl (StatusErr GrpcInvalidArgument ''chunk_id cannot be empty''), s)
      else case on_chunks (Delete os chunkID) s of
          (Inl err, s1) \<Rightarrow> (Inl (mapError err), s1)
        | (Inr _, s1) \<Rightarrow> (Inr (), with_storage_metrics (SetAvailableBytes (AvailableBytes (sd_store s1))) s1))"

definition server_Health :: "(storaged, go_error, bool) op" where
  "server_Health = retR True"

subsection \<open>The handlers in terms of the store\<close>

lemma with_storage_metrics_chunks [simp]: "sd_chunks (with_storage_metrics g s) = sd_chunks s"
  by (simp add: with_storage_metrics_def)

lemma on_chunks_eq: "on_chunks m s = (r, s1) \<longleftrightarrow> (\<exists>c. m (sd_chunks s) = (r, c) \<and> s1 = s\<lparr>sd_chunks := c\<rparr>)"
  by (auto simp: on_chunks_def split: prod.splits)

lemma server_GetChunk_reads:
  assumes "chunkID \<noteq> []" "read_chunk os chunkID (sd_chunks s) = (r, c)"
  shows "(\<forall>data. fst (server_GetChunk os None chunkID s) = Inr data \<longleftrightarrow> r = Inr data)
    \<and> sd_chunks (snd (server_GetChunk os None chunkID s)) = c"
  using assms
  by (auto simp: server_GetChunk_def read_chunk_def on_chunks_def on_disk_def split: prod.splits sum.splits)

lemma server_GetChunk_missing:
  assumes "os_ok os" "chunkID \<noteq> []" "resolve (Path (sd_store s) chunkID) (cs_nodes (sd_chunks s)) = Inl ENOENT"
  shows "fst (server_GetChunk os None chunkID s) = Inl (StatusErr GrpcNotFound ''not found'')"
  using assms
  by (simp add: server_GetChunk_def on_chunks_def Get_def Let_def bindR_def mapErrR_def on_disk_def Open_ok os_IsNotExist_def
      mapError_def New_error_def ErrNotFound_def)

lemma server_PutChunk_chunks:
  assumes "chunkID \<noteq> []" "data \<noteq> []" "Put os ctx chunkID (Inr data) (sd_chunks s) = (r, c)"
  shows "fst (server_PutChunk os ctx chunkID data s) = (case r of Inl err \<Rightarrow> Inl (mapError err) | Inr u \<Rightarrow> Inr ())
    \<and> sd_chunks (snd (server_PutChunk os ctx chunkID data s)) = c"
  using assms by (auto simp: server_PutChunk_def on_chunks_def Let_def split: sum.splits)

lemma server_DeleteChunk_chunks:
  assumes "chunkID \<noteq> []" "Delete os chunkID (sd_chunks s) = (r, c)"
  shows "fst (server_DeleteChunk os chunkID s) = (case r of Inl err \<Rightarrow> Inl (mapError err) | Inr u \<Rightarrow> Inr ())
    \<and> sd_chunks (snd (server_DeleteChunk os chunkID s)) = c"
  using assms by (auto simp: server_DeleteChunk_def on_chunks_def Let_def split: sum.splits)

subsection \<open>The daemon as a map from IDs to contents\<close>

text \<open>The content of a chunk is what its file unseals to.\<close>

definition sd_contents :: "storaged \<Rightarrow> chunk_map" where
  "sd_contents s i = Option.bind (cs_stored (sd_chunks s) i) unseal"

text \<open>Every chunk file is the seal of some bytes that \<open>Put\<close> would accept.\<close>

definition intact :: "chunk_disk \<Rightarrow> bool" where
  "intact c \<longleftrightarrow> (\<forall>i bs. valid_id i \<longrightarrow> cs_stored c i = Some bs \<longrightarrow> (\<exists>x. bs = seal x \<and> length x \<le> maxSize))"

definition storaged_ok :: "os_env \<Rightarrow> storaged \<Rightarrow> bool" where
  "storaged_ok os s \<longleftrightarrow> os_ok os \<and> cs_layout (sd_chunks s) \<and> intact (sd_chunks s)"

lemma intactD: "intact c \<Longrightarrow> valid_id i \<Longrightarrow> cs_stored c i = Some bs \<Longrightarrow> \<exists>x. bs = seal x \<and> length x \<le> maxSize"
  unfolding intact_def by blast

lemma contents_sealed:
  assumes "intact (sd_chunks s)" "valid_id i"
  shows "cs_stored (sd_chunks s) i = map_option seal (sd_contents s i)"
  using intactD [OF assms] by (cases "cs_stored (sd_chunks s) i") (auto simp: sd_contents_def)

lemma contents_bound:
  assumes "intact (sd_chunks s)" "valid_id i" "sd_contents s i = Some x"
  shows "length x \<le> maxSize"
  using intactD [OF assms(1,2)] contents_sealed [OF assms(1,2)] assms(3) by (auto simp: seal_inject)

lemma header_matches_same:
  assumes "length x \<le> maxSize" "length d \<le> maxSize"
  shows "header_matches (seal x) d \<longleftrightarrow> same_header x d"
proof -
  have "(word_of_nat (length x) :: uint64) = word_of_nat (length d) \<longleftrightarrow> length x = length d"
    using assms by (auto simp: maxSize_def word_of_nat_eq_iff take_bit_nat_eq_self)
  then show ?thesis
    unfolding header_matches_seal same_header_def by (metis (no_types))
qed

subsection \<open>The handlers follow the interface\<close>

lemma storaged_ok_read:
  assumes "storaged_ok os s" "valid_id i" "sd_contents s i = Some x"
  shows "\<exists>c. read_chunk os i (sd_chunks s) = (Inr x, c)"
  using assms read_stored [of os "sd_chunks s" i x] contents_sealed [of s i] by (simp add: storaged_ok_def)

lemma same_chunks_ok:
  assumes "storaged_ok os s" "cs_store (sd_chunks s1) = sd_store s" "cs_nodes (sd_chunks s1) = cs_nodes (sd_chunks s)"
  shows "storaged_ok os s1 \<and> sd_contents s1 = sd_contents s"
  using assms by (simp add: storaged_ok_def intact_def sd_contents_def fun_eq_iff)

lemma get_follows:
  assumes "storaged_ok os s" "valid_id i"
  shows "fst (server_GetChunk os None i s) = get_verdict i (sd_contents s i) \<and> storaged_ok os (snd (server_GetChunk os None i s))
    \<and> sd_contents (snd (server_GetChunk os None i s)) = sd_contents s"
proof (cases "i = []")
  case True
  with assms show ?thesis
    by (simp add: server_GetChunk_def get_verdict_def)
next
  case False
  obtain r c where rc: "read_chunk os i (sd_chunks s) = (r, c)"
    by (cases "read_chunk os i (sd_chunks s)")
  note reads = server_GetChunk_reads [OF False rc]
  have "fst (server_GetChunk os None i s) = get_verdict i (sd_contents s i)"
  proof (cases "sd_contents s i")
    case None
    then have "resolve (Path (sd_store s) i) (cs_nodes (sd_chunks s)) = Inl ENOENT"
      using assms contents_sealed [of s i] resolve_Path [of "sd_store s" "cs_nodes (sd_chunks s)" i]
      by (simp add: storaged_ok_def)
    with server_GetChunk_missing [of os i s] assms False None show ?thesis
      by (simp add: storaged_ok_def get_verdict_def)
  next
    case (Some x)
    with storaged_ok_read [OF assms this] rc reads False show ?thesis
      by (simp add: get_verdict_def)
  qed
  moreover have "storaged_ok os (snd (server_GetChunk os None i s)) \<and> sd_contents (snd (server_GetChunk os None i s)) = sd_contents s"
    by (rule same_chunks_ok [OF assms(1)]) (use reads read_chunk_state [OF rc] in simp_all)
  ultimately show ?thesis
    by blast
qed

lemma mapError_Put:
  "mapError (New_error CodeInvalidArgument m) = StatusErr GrpcInvalidArgument ''invalid argument''"
  "mapError (New_error CodeIntegrityViolation m) = StatusErr GrpcInternal ''internal server error''"
  by (simp_all add: mapError_def New_error_def ErrNotFound_def ErrInvalidArgument_def ErrAlreadyExists_def)

lemma Put_contents:
  assumes ok: "storaged_ok os s" and vid: "valid_id i" and put: "Put os None i (Inr d) (sd_chunks s) = (r, c)"
    and s1: "sd_chunks s1 = c"
  shows "r = (if length d > maxSize then Inl (New_error CodeInvalidArgument ''chunk size out of allowed range'')
      else case sd_contents s i of None \<Rightarrow> Inr ()
        | Some x \<Rightarrow> if same_header x d then Inr () else Inl (New_error CodeIntegrityViolation (''existing chunk mismatch for '' @ i)))"
    "storaged_ok os s1"
    "\<And>j. valid_id j \<Longrightarrow> sd_contents s1 j =
       (if j = i \<and> sd_contents s i = None \<and> length d \<le> maxSize then Some d else sd_contents s j)"
proof -
  let ?c = "sd_chunks s"
  from ok have os: "os_ok os" and lay: "cs_layout ?c" and int: "intact ?c"
    by (simp_all add: storaged_ok_def)
  have r: "r = put_result ?c i d" and lay1: "cs_layout c"
    and stored1: "\<And>j. valid_id j \<Longrightarrow> cs_stored c j = (if j = i \<and> writes_new ?c i d then Some (seal d) else cs_stored ?c j)"
    using Put_effect [OF os lay vid, of d] put by auto
  note sealed = contents_sealed [OF int]
  have new: "writes_new ?c i d \<longleftrightarrow> sd_contents s i = None \<and> length d \<le> maxSize"
    using sealed [OF vid] by (auto simp: writes_new_def)
  show "r = (if length d > maxSize then Inl (New_error CodeInvalidArgument ''chunk size out of allowed range'')
      else case sd_contents s i of None \<Rightarrow> Inr ()
        | Some x \<Rightarrow> if same_header x d then Inr () else Inl (New_error CodeIntegrityViolation (''existing chunk mismatch for '' @ i)))"
    using sealed [OF vid] header_matches_same contents_bound [OF int vid]
    by (simp add: r put_result_def split: option.splits)
  have "\<exists>x. bs = seal x \<and> length x \<le> maxSize" if j: "valid_id j" "cs_stored c j = Some bs" for j bs
  proof (cases "j = i \<and> writes_new ?c i d")
    case True
    with j stored1 [OF j(1)] show ?thesis
      by (auto simp: writes_new_def)
  next
    case False
    then have "cs_stored ?c j = Some bs"
      using j stored1 [OF j(1)] by (simp split: if_splits)
    from intactD [OF int j(1) this] show ?thesis .
  qed
  then show "storaged_ok os s1"
    using os lay1 s1 by (simp add: storaged_ok_def intact_def)
  show "sd_contents s1 j = (if j = i \<and> sd_contents s i = None \<and> length d \<le> maxSize then Some d else sd_contents s j)"
    if "valid_id j" for j
    using stored1 [OF that] s1 new by (simp add: sd_contents_def)
qed

lemma put_follows:
  assumes ok: "storaged_ok os s" and vid: "valid_id i"
  shows "fst (server_PutChunk os None i d s) = put_verdict i d (sd_contents s i) \<and> storaged_ok os (snd (server_PutChunk os None i d s))
    \<and> on_valid valid_id (sd_contents (snd (server_PutChunk os None i d s))) = put_map i d (on_valid valid_id (sd_contents s))"
proof (cases "i = [] \<or> d = []")
  case True
  with ok show ?thesis
    by (auto simp: server_PutChunk_def put_verdict_def put_map_def)
next
  case False
  obtain r c where put: "Put os None i (Inr d) (sd_chunks s) = (r, c)"
    by (cases "Put os None i (Inr d) (sd_chunks s)")
  note res = server_PutChunk_chunks [OF _ _ put]
  let ?s1 = "snd (server_PutChunk os None i d s)"
  have c: "sd_chunks ?s1 = c"
    using res False by simp
  note eff = Put_contents [OF ok vid put c]
  have "fst (server_PutChunk os None i d s) = put_verdict i d (sd_contents s i)"
    using res False eff(1) by (simp add: put_verdict_def mapError_Put split: option.splits)
  moreover have "on_valid valid_id (sd_contents ?s1) = put_map i d (on_valid valid_id (sd_contents s))"
    using eff(3) vid False by (auto simp: fun_eq_iff on_valid_def put_map_def put_verdict_def)
  ultimately show ?thesis
    using eff(2) by blast
qed

lemma delete_follows:
  assumes ok: "storaged_ok os s" and vid: "valid_id i"
  shows "fst (server_DeleteChunk os i s) = delete_verdict i \<and> storaged_ok os (snd (server_DeleteChunk os i s))
    \<and> on_valid valid_id (sd_contents (snd (server_DeleteChunk os i s))) = delete_map i (on_valid valid_id (sd_contents s))"
proof (cases "i = []")
  case True
  with ok show ?thesis
    by (simp add: server_DeleteChunk_def delete_verdict_def delete_map_def)
next
  case False
  let ?c = "sd_chunks s"
  from ok have os: "os_ok os" and lay: "cs_layout ?c" and int: "intact ?c"
    by (simp_all add: storaged_ok_def)
  obtain c1 where del: "Delete os i ?c = (Inr (), c1)"
    and eff: "case cs_stored ?c i of
       None \<Rightarrow> cs_nodes c1 = cs_nodes ?c \<and> cs_store c1 = cs_store ?c
     | Some bs \<Rightarrow> cs_nodes c1 = AList.delete (chunk_path ?c i) (cs_nodes ?c)
         \<and> cs_store c1 = (cs_store ?c)\<lparr>ds_usedBytes := ds_usedBytes (cs_store ?c) - word_of_nat (length bs)\<rparr>"
    using Delete_ok [OF os lay vid] by blast
  note res = server_DeleteChunk_chunks [OF False del]
  have "cs_layout c1 \<and> (\<forall>j. valid_id j \<longrightarrow> cs_stored c1 j = (if j = i then None else cs_stored ?c j))"
    using eff lay layout_delete [OF lay vid] stored_delete [OF lay vid] by (auto split: option.splits)
  then have lay1: "cs_layout c1" and stored1: "\<And>j. valid_id j \<Longrightarrow> cs_stored c1 j = (if j = i then None else cs_stored ?c j)"
    by blast+
  have "intact c1"
    unfolding intact_def
  proof (intro allI impI)
    fix j bs
    assume j: "valid_id j" "cs_stored c1 j = Some bs"
    then have "cs_stored ?c j = Some bs"
      using stored1 [OF j(1)] by (simp split: if_splits)
    from intactD [OF int j(1) this] show "\<exists>x. bs = seal x \<and> length x \<le> maxSize" .
  qed
  moreover have "on_valid valid_id (sd_contents (snd (server_DeleteChunk os i s))) = delete_map i (on_valid valid_id (sd_contents s))"
    using stored1 res False vid by (auto simp: fun_eq_iff on_valid_def delete_map_def sd_contents_def)
  ultimately show ?thesis
    using res os lay1 False by (simp add: storaged_ok_def delete_verdict_def)
qed

interpretation storage: chunk_service "server_PutChunk os None" "server_GetChunk os None" "server_DeleteChunk os"
  sd_contents "storaged_ok os" valid_id for os
  by unfold_locales (fact put_follows, fact get_follows, fact delete_follows)

interpretation pull: chunk_copy "server_PutChunk os1 None" "server_GetChunk os1 None" "server_DeleteChunk os1" sd_contents "storaged_ok os1"
  "server_PutChunk os2 None" "server_GetChunk os2 None" "server_DeleteChunk os2" sd_contents "storaged_ok os2" valid_id for os1 os2
  ..

end
