(* ===== verification/Node_Service.thy ===== *)
theory Node_Service
  imports Storage_Server
begin

text \<open>
  \<open>cmd/storaged/node_server.go\<close> and \<open>internal/node/client.go\<close>: how a chunk is copied from one storage node
  to another. The metadata daemon's client asks the target node, whose handler fetches the chunk from
  the source node and puts it into its own store. A \<open>cluster\<close> maps addresses to the storage daemons
  that listen there. TLS, dialling and the transport are not part of the repository: what they decide is
  the parameter \<open>net_env\<close>, which may refuse or lose any request and any reply.
\<close>

subsection \<open>Addresses\<close>

text \<open>\<open>net.SplitHostPort\<close> of the standard library; the port starts after the last colon.\<close>

definition before_char :: "char \<Rightarrow> string \<Rightarrow> string" where
  "before_char c s = takeWhile (\<lambda>x. x \<noteq> c) s"

definition after_last :: "char \<Rightarrow> string \<Rightarrow> string" where
  "after_last c s = rev (before_char c (rev s))"

definition addr_error :: "string \<Rightarrow> string \<Rightarrow> go_error" where
  "addr_error addr why = PlainErr ((if addr = [] then [] else ''address '' @ addr @ '': '') @ why)"

definition SplitHostPort :: "string \<Rightarrow> go_error + string \<times> string" where
  "SplitHostPort s =
     (let port = after_last (CHR '':'') s; i = length s - length port - 1; err = (\<lambda>why. Inl (addr_error s why))
      in if CHR '':'' \<notin> set s then err ''missing port in address''
      else if hd s = CHR ''['' then
        (let end = length (before_char (CHR '']'') s)
         in if CHR '']'' \<notin> set s then err ''missing ']' in address''
         else if end + 1 = length s then err ''missing port in address''
         else if end + 1 \<noteq> i then
           (if s ! (end + 1) = CHR '':'' then err ''too many colons in address'' else err ''missing port in address'')
         else if CHR ''['' \<in> set (tl s) then err ''unexpected '[' in address''
         else if CHR '']'' \<in> set (drop (end + 1) s) then err ''unexpected ']' in address''
         else Inr (drop 1 (take end s), port))
      else if CHR '':'' \<in> set (take i s) then err ''too many colons in address''
      else if CHR ''['' \<in> set s then err ''unexpected '[' in address''
      else if CHR '']'' \<in> set s then err ''unexpected ']' in address''
      else Inr (take i s, port))"

subsection \<open>The network\<close>

text \<open>What the library makes of the three files under \<open>/certs\<close>.\<close>

record tls_files =
  tls_keypair :: "go_error option"
  tls_ca_pem :: "go_error + string"
  tls_append :: "string \<Rightarrow> bool"

record net_env =
  net_tls :: "string \<Rightarrow> tls_files"
  net_metad_tls :: tls_files
  net_dial :: "string \<Rightarrow> string \<Rightarrow> go_error option"
  net_absent :: "string \<Rightarrow> go_error"
  net_request :: "nat \<Rightarrow> go_error option"
  net_reply :: "nat \<Rightarrow> go_error option"
  net_ctx :: "nat \<Rightarrow> go_error option"
  net_os :: "string \<Rightarrow> os_env"

record cluster =
  cl_daemons :: "string \<Rightarrow> storaged option"
  cl_calls :: nat

definition on_daemon :: "net_env \<Rightarrow> string \<Rightarrow> (storaged, go_error, 'a) op \<Rightarrow> (cluster, go_error, 'a) op" where
  "on_daemon net addr m w =
     (case cl_daemons w addr of
        None \<Rightarrow> (Inl (net_absent net addr), w)
      | Some s \<Rightarrow> (let (r, s1) = m s in (r, w\<lparr>cl_daemons := (cl_daemons w)(addr \<mapsto> s1)\<rparr>)))"

text \<open>A unary call: it may be lost before or after the handler ran.\<close>

definition rpc :: "net_env \<Rightarrow> string \<Rightarrow> (cluster, go_error, 'a) op \<Rightarrow> (cluster, go_error, 'a) op" where
  "rpc net addr handler w =
     (let t = cl_calls w; w1 = w\<lparr>cl_calls := Suc t\<rparr>
      in case net_request net t of
           Some err \<Rightarrow> (Inl err, w1)
         | None \<Rightarrow>
             if cl_daemons w1 addr = None then (Inl (net_absent net addr), w1)
             else (case handler w1 of
                     (r, w2) \<Rightarrow> (case net_reply net t of Some err \<Rightarrow> (Inl err, w2) | None \<Rightarrow> (r, w2))))"

text \<open>Loading the key pair and the CA pool; the two callers word the errors differently.\<close>

definition load_tls :: "(string \<Rightarrow> go_error \<Rightarrow> go_error) \<Rightarrow> (string \<Rightarrow> go_error) \<Rightarrow> tls_files \<Rightarrow> go_error + unit" where
  "load_tls wrap flat tls =
     (case tls_keypair tls of
        Some err \<Rightarrow> Inl (wrap ''failed to load client certificate/key'' err)
      | None \<Rightarrow>
          (case tls_ca_pem tls of
             Inl err \<Rightarrow> Inl (wrap ''failed to read CA certificate'' err)
           | Inr pem \<Rightarrow>
               if tls_append tls pem then Inr () else Inl (flat ''failed to append CA certificate to pool'')))"

subsection \<open>The handlers of the node service\<close>

definition node_Heartbeat :: "(storaged, go_error, unit) op" where
  "node_Heartbeat = retR ()"

text \<open>\<open>status.Errorf(code, "what: %v", err)\<close>.\<close>

definition status_error :: "grpc_code \<Rightarrow> string \<Rightarrow> go_error \<Rightarrow> go_error" where
  "status_error code what err = StatusErr code (what @ '': '' @ error_text err)"

definition node_CopyChunk :: "net_env \<Rightarrow> string \<Rightarrow> string \<Rightarrow> string \<Rightarrow> (cluster, go_error, bool) op" where
  "node_CopyChunk net self chunkID source =
     (if chunkID = [] then failR (StatusErr GrpcInvalidArgument ''chunk_id cannot be empty'')
      else if source = [] then failR (StatusErr GrpcInvalidArgument ''source_address cannot be empty'')
      else case SplitHostPort source of
          Inl err \<Rightarrow> failR (status_error GrpcInvalidArgument ''invalid source_address format'' err)
        | Inr (sourceHost, port) \<Rightarrow>
            (case load_tls (status_error GrpcInternal) (StatusErr GrpcInternal) (net_tls net self) of
               Inl err \<Rightarrow> failR err
             | Inr _ \<Rightarrow>
                 (case net_dial net source sourceHost of
                    Some err \<Rightarrow> failR (status_error GrpcUnavailable ''failed to connect to source node'' err)
                  | None \<Rightarrow> (\<lambda>w.
                      bindR (mapErrR (status_error GrpcInternal ''failed to get chunk from source'')
                              (rpc net source (on_daemon net source
                                 (server_GetChunk (net_os net source) (net_ctx net (cl_calls w)) chunkID))))
                        (\<lambda>data. bindR (mapErrR (status_error GrpcInternal ''failed to put chunk in local store'')
                              (on_daemon net self (on_chunks
                                 (Put (net_os net self) (net_ctx net (Suc (cl_calls w))) chunkID (Inr data)))))
                        (\<lambda>_. retR True)) w))))"

subsection \<open>The client of the metadata daemon\<close>

definition client_CopyChunk :: "net_env \<Rightarrow> string \<Rightarrow> string \<Rightarrow> string \<Rightarrow> (cluster, go_error, unit) op" where
  "client_CopyChunk net target source chunkID =
     (case SplitHostPort target of
        Inl err \<Rightarrow> failR (errorf_w (''invalid target address '' @ target) err)
      | Inr (targetHost, port) \<Rightarrow>
          (case load_tls errorf_w PlainErr (net_metad_tls net) of
             Inl err \<Rightarrow> failR err
           | Inr _ \<Rightarrow>
               (case net_dial net target targetHost of
                  Some err \<Rightarrow> failR (errorf_w (''failed to dial target node at '' @ target) err)
                | None \<Rightarrow>
                    bindR (mapErrR (errorf_w ''CopyChunk RPC failed'')
                             (rpc net target (node_CopyChunk net target chunkID source)))
                      (\<lambda>success. if success then retR ()
                         else failR (PlainErr (''CopyChunk failed on target node '' @ target))))))"

end
