(* ===== verification/Cluster.thy ===== *)
theory Cluster
  imports Node_Service
begin

text \<open>
  What a copy between storage nodes does to the contents of a cluster, whatever the operating systems and
  the network do: no node loses a chunk, every chunk file stays the seal of its content, and a copy
  that is reported to have succeeded left the content of the source, as far as a digest and a length
  can tell, on the target.
\<close>

subsection \<open>One node under any failures\<close>

definition daemon_safe :: "storaged \<Rightarrow> bool" where
  "daemon_safe s \<longleftrightarrow> based (ds_baseDir (sd_store s)) \<and> intact (sd_chunks s)"

lemma Put_store:
  assumes "Put os ctx i src s = (r, s1)"
  shows "\<exists>n. cs_store s1 = (cs_store s)\<lparr>ds_usedBytes := n\<rparr>"
proof -
  have eq: "cs_store s = (cs_store s)\<lparr>ds_usedBytes := ds_usedBytes (cs_store s)\<rparr>"
    by simp
  from assms show ?thesis
    by (auto simp: Put_def put_data_def bindR_def on_disk_def add_used_def split: option.splits sum.splits prod.splits if_splits
        intro: eq exI [of _ "ds_usedBytes (cs_store s)"])
qed

lemma Put_size: "Put os ctx i src s = (Inr u, s1) \<Longrightarrow> \<exists>data. src = Inr data \<and> length data \<le> maxSize"
  by (auto simp: Put_def put_data_def split: option.splits sum.splits if_splits)

lemma Put_other_chunk:
  assumes "Put os ctx i src s = (r, s1)" "based (ds_baseDir (cs_store s))" "valid_id i" "valid_id j"
    and "j \<noteq> i \<or> (\<exists>err. r = Inl err)"
  shows "cs_stored s1 j = cs_stored s j"
proof -
  obtain n where "cs_store s1 = (cs_store s)\<lparr>ds_usedBytes := n\<rparr>"
    using Put_store [OF assms(1)] ..
  moreover have "chunk_path s j \<noteq> chunk_path s i \<or> (\<exists>err. r = Inl err)"
    using Path_injective [OF assms(2,4,3)] assms(5) by blast
  note Put_others [OF assms(1) this]
  moreover have "chunk_path s j \<notin> range (temp_name (Dir_of (chunk_path s i)))"
    using temp_name_not_Path [OF assms(2,4)] based_shard [OF assms(2,3)] Dir_of_Path [OF assms(2,3)]
    by (metis rangeE)
  ultimately show ?thesis
    by (auto simp: stored_def)
qed

lemma Put_own_chunk:
  assumes put: "Put os ctx i src (sd_chunks s) = (Inr u, c)" and safe: "daemon_safe s" and vid: "valid_id i"
  shows "\<exists>data x. src = Inr data \<and> cs_stored c i = Some (seal x) \<and> length x \<le> maxSize \<and> same_header x data"
proof -
  obtain data where data: "src = Inr data" "length data \<le> maxSize"
    using Put_size [OF put] by blast
  obtain n where n: "cs_store c = (sd_store s)\<lparr>ds_usedBytes := n\<rparr>"
    using Put_store [OF put] ..
  obtain bs where bs: "cs_stored c i = Some bs" "header_matches bs data"
    "bs = seal data \<or> cs_stored (sd_chunks s) i = Some bs"
    using Put_success [OF put] data n by (auto simp: stored_def)
  show ?thesis
  proof (cases "bs = seal data")
    case True
    with bs data show ?thesis
      by (intro exI [of _ data]) simp
  next
    case False
    with bs(3) obtain x where "bs = seal x" "length x \<le> maxSize"
      using intactD [OF _ vid] safe unfolding daemon_safe_def by blast
    with bs data show ?thesis
      by (intro exI [of _ data] exI [of _ x]) (simp add: header_matches_same)
  qed
qed

lemma Put_safe:
  assumes put: "Put os ctx i src (sd_chunks s) = (r, c)" and safe: "daemon_safe s" and vid: "valid_id i"
    and s1: "sd_chunks s1 = c"
  shows "daemon_safe s1
    \<and> (\<forall>j. valid_id j \<longrightarrow> j \<noteq> i \<or> (\<exists>err. r = Inl err) \<longrightarrow> sd_contents s1 j = sd_contents s j)
    \<and> (\<forall>u. r = Inr u \<longrightarrow> (\<exists>data x. src = Inr data \<and> sd_contents s1 i = Some x \<and> same_header x data))"
proof -
  from safe have based: "based (ds_baseDir (sd_store s))" and int: "intact (sd_chunks s)"
    by (simp_all add: daemon_safe_def)
  obtain n where n: "cs_store c = (sd_store s)\<lparr>ds_usedBytes := n\<rparr>"
    using Put_store [OF put] ..
  note other = Put_other_chunk [OF put based vid]
  have "\<exists>x. bs = seal x \<and> length x \<le> maxSize" if "valid_id j" "cs_stored c j = Some bs" for j bs
  proof (cases "j \<noteq> i \<or> (\<exists>err. r = Inl err)")
    case True
    from other [OF that(1) this] that(2) have "cs_stored (sd_chunks s) j = Some bs"
      by simp
    from intactD [OF int that(1) this] show ?thesis .
  next
    case False
    then obtain u where "r = Inr u" "j = i"
      by (cases r) auto
    with Put_own_chunk [of os ctx i src s u c] put safe vid that(2) show ?thesis
      by auto
  qed
  then have "intact c"
    unfolding intact_def by blast
  then have "daemon_safe s1"
    using based n by (simp add: daemon_safe_def s1)
  moreover have "sd_contents s1 j = sd_contents s j" if "valid_id j" "j \<noteq> i \<or> (\<exists>err. r = Inl err)" for j
    using other [OF that] by (simp add: sd_contents_def s1)
  moreover have "\<exists>data x. src = Inr data \<and> sd_contents s1 i = Some x \<and> same_header x data" if "r = Inr u" for u
    using Put_own_chunk [of os ctx i src s u c] put safe vid that by (auto simp: sd_contents_def s1)
  ultimately show ?thesis
    by blast
qed

lemma GetChunk_safe:
  assumes get: "server_GetChunk os ctx i s = (r, s1)" and safe: "daemon_safe s" and vid: "valid_id i"
  shows "daemon_safe s1 \<and> sd_contents s1 = sd_contents s \<and> (\<forall>data. r = Inr data \<longrightarrow> sd_contents s i = Some data)"
proof (cases "i = [] \<or> ctx \<noteq> None")
  case True
  with get safe show ?thesis
    by (auto simp: server_GetChunk_def Get_def on_chunks_def split: if_splits)
next
  case False
  then have ctx: "ctx = None" and i: "i \<noteq> []"
    by simp_all
  obtain q c where rc: "read_chunk os i (sd_chunks s) = (q, c)"
    by (cases "read_chunk os i (sd_chunks s)")
  have s1: "sd_chunks s1 = c" and r: "\<And>data. r = Inr data \<longleftrightarrow> q = Inr data"
    using server_GetChunk_reads [OF i rc] get ctx by auto
  have same: "cs_store c = sd_store s" "cs_nodes c = cs_nodes (sd_chunks s)"
    using read_chunk_state [OF rc] by simp_all
  have "sd_contents s i = Some data" if q: "q = Inr data" for data
  proof -
    obtain bs where bs: "cs_stored (sd_chunks s) i = Some bs" "header_matches bs data" "prefix data (drop headerSize bs)"
      using read_chunk_verified [of os i "sd_chunks s" data c] rc q by (auto simp: stored_def)
    then obtain x where x: "bs = seal x" "length x \<le> maxSize"
      using intactD [OF _ vid] safe unfolding daemon_safe_def by blast
    with bs have "prefix data x"
      by (simp add: drop_seal)
    moreover from this have "length data \<le> maxSize"
      using x(2) prefix_length_le order_trans by blast
    with bs x have "length x = length data"
      by (simp add: header_matches_same same_header_def)
    ultimately have "x = data"
      by (auto simp: prefix_def)
    with bs x show ?thesis
      by (simp add: sd_contents_def)
  qed
  moreover have "daemon_safe s1 \<and> sd_contents s1 = sd_contents s"
    using safe same s1 by (simp add: daemon_safe_def intact_def sd_contents_def fun_eq_iff)
  ultimately show ?thesis
    using r by blast
qed

lemma Delete_nodes:
  assumes "Delete os i s = (r, s1)"
  shows "(\<exists>n. cs_store s1 = (cs_store s)\<lparr>ds_usedBytes := n\<rparr>) \<and> untouched {chunk_path s i} (cs_nodes s) (cs_nodes s1)
    \<and> map_of (cs_nodes s1) (chunk_path s i) \<in> {None, map_of (cs_nodes s) (chunk_path s i)}"
proof -
  have same: "\<exists>n. cs_store s = (cs_store s)\<lparr>ds_usedBytes := n\<rparr>"
    by (intro exI [of _ "ds_usedBytes (cs_store s)"]) simp
  let ?p = "chunk_path s i"
  have rm: "untouched {?p} (dk_nodes d) (dk_nodes d1) \<and> map_of (dk_nodes d1) ?p \<in> {None, map_of (dk_nodes d) ?p}"
    if "Remove os ?p d = (q, d1)" for q :: "os_error + unit" and d d1
    using that by (cases rule: sys_cases [of os "sys_remove ?p" d])
      (auto simp: Remove_def sys_remove_def untouched_def delete_conv' split: sum.splits node.splits if_splits)
  obtain q d where st: "Stat os ?p (cs_disk s) = (q, d)"
    by (cases "Stat os ?p (cs_disk s)")
  then have d: "dk_nodes d = cs_nodes s"
    by (metis Stat_nodes snd_conv)
  obtain q1 d1 where re: "Remove os ?p d = (q1, d1)"
    by (cases "Remove os ?p d")
  show ?thesis
    using assms st rm [OF re] re same d
    by (auto simp: Delete_def Let_def on_disk_def add_used_def split: sum.splits if_splits)
qed

lemma Delete_safe:
  assumes del: "Delete os i (sd_chunks s) = (r, c)" and safe: "daemon_safe s" and vid: "valid_id i" and s1: "sd_chunks s1 = c"
  shows "daemon_safe s1 \<and> (\<forall>j. valid_id j \<longrightarrow> j \<noteq> i \<longrightarrow> sd_contents s1 j = sd_contents s j)"
proof -
  from safe have based: "based (ds_baseDir (sd_store s))" and int: "intact (sd_chunks s)"
    by (simp_all add: daemon_safe_def)
  obtain n where n: "cs_store c = (sd_store s)\<lparr>ds_usedBytes := n\<rparr>"
    using Delete_nodes [OF del] by blast
  then have path: "chunk_path c j = chunk_path (sd_chunks s) j" for j
    by (simp add: Path_def)
  have other: "cs_stored c j = cs_stored (sd_chunks s) j" if "valid_id j" "j \<noteq> i" for j
  proof -
    have "chunk_path (sd_chunks s) j \<noteq> chunk_path (sd_chunks s) i"
      using Path_injective [OF based that(1) vid] that(2) by blast
    with Delete_nodes [OF del] path show ?thesis
      by (simp add: untouched_def stored_def)
  qed
  have own: "cs_stored c i \<in> {None, cs_stored (sd_chunks s) i}"
    using Delete_nodes [OF del] path by (auto simp: stored_def)
  have "intact c"
    unfolding intact_def
  proof (intro allI impI)
    fix j bs
    assume j: "valid_id j" "cs_stored c j = Some bs"
    then have "cs_stored (sd_chunks s) j = Some bs"
      using other own by (cases "j = i") auto
    from intactD [OF int j(1) this] show "\<exists>x. bs = seal x \<and> length x \<le> maxSize" .
  qed
  then show ?thesis
    using based n other by (simp add: daemon_safe_def s1 sd_contents_def)
qed

text \<open>A daemon that starts on the directory of an earlier one finds its chunks again.\<close>

lemma reopen_safe:
  assumes new: "New_store os dir cap (cs_disk (sd_chunks s)) = (Inr ds, d)" and dir: "ds_baseDir ds = ds_baseDir (sd_store s)"
    and safe: "daemon_safe s" and s1: "sd_chunks s1 = \<lparr>cs_store = ds, cs_disk = d\<rparr>"
  shows "daemon_safe s1 \<and> sd_contents s1 = sd_contents s"
proof -
  have path: "Path ds i = Path (sd_store s) i" for i
    by (simp add: Path_def dir)
  have "cs_stored (sd_chunks s1) i = cs_stored (sd_chunks s) i" for i
  proof -
    have "map_of (dk_nodes d) p = map_of (cs_nodes (sd_chunks s)) p
        \<or> map_of (cs_nodes (sd_chunks s)) p = None \<and> map_of (dk_nodes d) p = Some Dir" for p
      using New_store_spared [OF new] by (auto simp: spared_def)
    from this [of "Path (sd_store s) i"] show ?thesis
      by (auto simp: stored_def s1 path)
  qed
  with safe show ?thesis
    by (simp add: daemon_safe_def intact_def sd_contents_def fun_eq_iff s1 dir)
qed

subsection \<open>The cluster under any failures\<close>

text \<open>
  What a chunk must be, as far as a header tells: its digest and its length. A daemon serves a chunk when
  reading it would give bytes of that description.
\<close>

type_synonym description = "string \<Rightarrow> byte list \<times> nat"

definition describes :: "description \<Rightarrow> string \<Rightarrow> byte list \<Rightarrow> bool" where
  "describes descr i x \<longleftrightarrow> descr i = (sha256 x, length x)"

definition node_serves :: "description \<Rightarrow> storaged \<Rightarrow> string \<Rightarrow> bool" where
  "node_serves descr s i \<longleftrightarrow> (\<exists>x. sd_contents s i = Some x \<and> describes descr i x)"

definition node_keeps :: "description \<Rightarrow> storaged \<Rightarrow> storaged \<Rightarrow> bool" where
  "node_keeps descr s s1 \<longleftrightarrow> (\<forall>j. valid_id j \<longrightarrow> node_serves descr s j \<longrightarrow> node_serves descr s1 j)"

definition serves :: "description \<Rightarrow> cluster \<Rightarrow> string \<Rightarrow> string \<Rightarrow> bool" where
  "serves descr w addr i \<longleftrightarrow> (\<exists>s. cl_daemons w addr = Some s \<and> node_serves descr s i)"

definition cluster_safe :: "cluster \<Rightarrow> bool" where
  "cluster_safe w \<longleftrightarrow> (\<forall>addr s. cl_daemons w addr = Some s \<longrightarrow> daemon_safe s)"

definition still_serves :: "description \<Rightarrow> cluster \<Rightarrow> cluster \<Rightarrow> bool" where
  "still_serves descr w w1 \<longleftrightarrow>
     (cluster_safe w \<longrightarrow> cluster_safe w1) \<and> (\<forall>addr j. valid_id j \<longrightarrow> serves descr w addr j \<longrightarrow> serves descr w1 addr j)"

lemma same_header_describes: "same_header x y \<Longrightarrow> describes descr i y \<Longrightarrow> describes descr i x"
  by (simp add: same_header_def describes_def)

lemma node_keeps_contents [simp]: "sd_contents s1 = sd_contents s \<Longrightarrow> node_keeps descr s s1"
  by (simp add: node_keeps_def node_serves_def)

lemma same_chunks_keep:
  "sd_chunks s1 = sd_chunks s \<Longrightarrow> daemon_safe s1 = daemon_safe s \<and> node_serves descr s1 = node_serves descr s"
  by (simp add: daemon_safe_def node_serves_def sd_contents_def fun_eq_iff)

lemma still_serves_refl [simp]: "cl_daemons w1 = cl_daemons w \<Longrightarrow> still_serves descr w w1"
  by (simp add: still_serves_def cluster_safe_def serves_def)

lemma still_serves_trans: "still_serves descr w w1 \<Longrightarrow> still_serves descr w1 w2 \<Longrightarrow> still_serves descr w w2"
  by (simp add: still_serves_def)

lemma on_daemon_still_serves:
  assumes "on_daemon net addr m w = (r, w1)"
    and "\<And>s q s1. cl_daemons w addr = Some s \<Longrightarrow> m s = (q, s1) \<Longrightarrow> daemon_safe s \<Longrightarrow>
      daemon_safe s1 \<and> node_keeps descr s s1"
    and "cluster_safe w"
  shows "still_serves descr w w1"
proof (cases "cl_daemons w addr")
  case None
  with assms(1) show ?thesis
    by (simp add: on_daemon_def)
next
  case (Some s)
  obtain q s1 where m: "m s = (q, s1)"
    by (cases "m s")
  with Some assms(1) have w1: "w1 = w\<lparr>cl_daemons := (cl_daemons w)(addr \<mapsto> s1)\<rparr>"
    by (simp add: on_daemon_def)
  have safe: "daemon_safe s"
    using assms(3) Some by (simp add: cluster_safe_def)
  note step = assms(2) [OF Some m safe]
  have "cluster_safe w1"
    using assms(3) step by (simp add: w1 cluster_safe_def)
  moreover have "serves descr w1 a j" if j: "valid_id j" and old: "serves descr w a j" for a j
  proof (cases "a = addr")
    case True
    with old Some step j show ?thesis
      by (auto simp: serves_def node_keeps_def w1)
  next
    case False
    with old show ?thesis
      by (simp add: serves_def w1)
  qed
  ultimately show ?thesis
    by (simp add: still_serves_def)
qed

lemma rpc_still_serves:
  assumes "rpc net addr h w = (r, w1)"
    and "\<And>q w2. h (w\<lparr>cl_calls := Suc (cl_calls w)\<rparr>) = (q, w2) \<Longrightarrow>
      still_serves descr (w\<lparr>cl_calls := Suc (cl_calls w)\<rparr>) w2"
  shows "still_serves descr w w1"
proof -
  have "still_serves descr w (w\<lparr>cl_calls := Suc (cl_calls w)\<rparr>)"
    by simp
  with assms still_serves_trans [OF this] show ?thesis
    by (auto simp: rpc_def Let_def split: option.splits if_splits prod.splits)
qed

lemma rpc_Inr:
  assumes "rpc net addr h w = (Inr x, w1)"
  shows "h (w\<lparr>cl_calls := Suc (cl_calls w)\<rparr>) = (Inr x, w1)"
  using assms by (auto simp: rpc_def Let_def split: option.splits if_splits prod.splits)

lemma fetch_still_serves:
  assumes "rpc net addr (on_daemon net addr (server_GetChunk os ctx i)) w = (r, w1)" "cluster_safe w" "valid_id i"
  shows "still_serves descr w w1 \<and> cluster_safe w1
    \<and> (\<forall>data. r = Inr data \<longrightarrow> serves descr w addr i \<longrightarrow> describes descr i data)"
proof -
  let ?w = "w\<lparr>cl_calls := Suc (cl_calls w)\<rparr>"
  have "still_serves descr ?w w2" if "on_daemon net addr (server_GetChunk os ctx i) ?w = (q, w2)" for q w2
    using that assms(2) GetChunk_safe [OF _ _ assms(3)]
    by (intro on_daemon_still_serves [OF that]) (auto simp: cluster_safe_def)
  from rpc_still_serves [OF assms(1) this] have "still_serves descr w w1" .
  moreover have "describes descr i data" if data: "r = Inr data" and old: "serves descr w addr i" for data
  proof -
    obtain s x where s: "cl_daemons w addr = Some s" "sd_contents s i = Some x" "describes descr i x"
      using old by (auto simp: serves_def node_serves_def)
    then obtain s1 where "server_GetChunk os ctx i s = (Inr data, s1)"
      using rpc_Inr [OF assms(1) [unfolded data]] by (auto simp: on_daemon_def split: prod.splits)
    from GetChunk_safe [OF this _ assms(3)] s assms(2) show ?thesis
      by (auto simp: cluster_safe_def)
  qed
  ultimately show ?thesis
    using assms(2) by (simp add: still_serves_def)
qed

lemma Put_keeps:
  assumes run: "on_chunks (Put os ctx i (Inr data)) s = (q, s1)" and safe: "daemon_safe s" and vid: "valid_id i"
    and data: "describes descr i data"
  shows "daemon_safe s1 \<and> node_keeps descr s s1 \<and> (\<forall>u. q = Inr u \<longrightarrow> node_serves descr s1 i)"
proof -
  obtain c where c: "Put os ctx i (Inr data) (sd_chunks s) = (q, c)" "sd_chunks s1 = c"
    using run by (auto simp: on_chunks_eq)
  note safe = Put_safe [OF c(1) safe vid c(2)]
  then have own: "node_serves descr s1 i" if "q = Inr u" for u
    using that same_header_describes [OF _ data] unfolding node_serves_def by blast
  moreover have "node_serves descr s1 j" if "valid_id j" "node_serves descr s j" for j
    using safe own that unfolding node_serves_def by (cases q) (metis, metis)
  ultimately show ?thesis
    using safe by (simp add: node_keeps_def)
qed

lemma PutChunk_keeps:
  assumes run: "server_PutChunk os ctx i data s = (q, s1)" and safe: "daemon_safe s" and vid: "valid_id i"
    and data: "describes descr i data"
  shows "daemon_safe s1 \<and> node_keeps descr s s1 \<and> (\<forall>u. q = Inr u \<longrightarrow> node_serves descr s1 i)"
proof (cases "i = [] \<or> data = []")
  case True
  with run safe show ?thesis
    by (auto simp: server_PutChunk_def split: if_splits)
next
  case False
  obtain r c where put: "Put os ctx i (Inr data) (sd_chunks s) = (r, c)"
    by (cases "Put os ctx i (Inr data) (sd_chunks s)")
  then have "on_chunks (Put os ctx i (Inr data)) s = (r, s\<lparr>sd_chunks := c\<rparr>)"
    by (simp add: on_chunks_def)
  note put_keeps = Put_keeps [OF this safe vid data]
  have "sd_chunks s1 = c" "(\<exists>u. q = Inr u) \<longrightarrow> (\<exists>u. r = Inr u)"
    using server_PutChunk_chunks [of i data os ctx s r c] put run False by (auto split: sum.splits)
  with put_keeps show ?thesis
    using same_chunks_keep [of s1 "s\<lparr>sd_chunks := c\<rparr>"] by (auto simp: node_keeps_def)
qed

lemma store_still_serves:
  assumes "on_daemon net addr m w = (r, w1)" "cluster_safe w"
    and "\<And>s q s1. m s = (q, s1) \<Longrightarrow> daemon_safe s \<Longrightarrow>
      daemon_safe s1 \<and> node_keeps descr s s1 \<and> (\<forall>u. q = Inr u \<longrightarrow> node_serves descr s1 i)"
  shows "still_serves descr w w1 \<and> (\<forall>u. r = Inr u \<longrightarrow> serves descr w1 addr i)"
proof -
  have "still_serves descr w w1"
    by (rule on_daemon_still_serves [OF assms(1) _ assms(2)]) (use assms(3) in blast)
  moreover have "serves descr w1 addr i" if "r = Inr u" for u
  proof -
    from assms(1) that obtain s s1 where s: "cl_daemons w addr = Some s" "m s = (Inr u, s1)"
      "w1 = w\<lparr>cl_daemons := (cl_daemons w)(addr \<mapsto> s1)\<rparr>"
      by (auto simp: on_daemon_def split: option.splits prod.splits)
    with assms(3) [OF s(2)] assms(2) show ?thesis
      by (auto simp: serves_def cluster_safe_def)
  qed
  ultimately show ?thesis
    by blast
qed

lemma node_CopyChunk_still_serves:
  assumes "node_CopyChunk net self i source w = (r, w1)" "cluster_safe w" "valid_id i" "serves descr w source i"
  shows "still_serves descr w w1 \<and> (\<forall>u. r = Inr u \<longrightarrow> serves descr w1 self i)"
proof (cases "\<exists>host port. i \<noteq> [] \<and> source \<noteq> [] \<and> SplitHostPort source = Inr (host, port)
    \<and> load_tls (status_error GrpcInternal) (StatusErr GrpcInternal) (net_tls net self) = Inr ()
    \<and> net_dial net source host = None")
  case False
  with assms(1) have "w1 = w \<and> (\<forall>u. r \<noteq> Inr u)"
    by (auto simp: node_CopyChunk_def split: if_splits sum.splits prod.splits option.splits)
  then show ?thesis
    by simp
next
  case True
  let ?get = "rpc net source (on_daemon net source (server_GetChunk (net_os net source) (net_ctx net (cl_calls w)) i))"
  let ?put = "\<lambda>data. on_daemon net self (on_chunks (Put (net_os net self) (net_ctx net (Suc (cl_calls w))) i (Inr data)))"
  obtain q w2 where get: "?get w = (q, w2)"
    by (cases "?get w")
  note fetched = fetch_still_serves [OF get assms(2,3), of descr]
  show ?thesis
  proof (cases q)
    case (Inl err)
    with True get assms(1) fetched show ?thesis
      by (auto simp: node_CopyChunk_def bindR_def mapErrR_def)
  next
    case (Inr data)
    with fetched assms(4) have data: "describes descr i data"
      by blast
    obtain q' w3 where put: "?put data w2 = (q', w3)"
      by (cases "?put data w2")
    then have stored: "still_serves descr w2 w3 \<and> (\<forall>u. q' = Inr u \<longrightarrow> serves descr w3 self i)"
      by (rule store_still_serves) (use fetched Put_keeps [OF _ _ assms(3) data] in blast)+
    moreover have "w1 = w3" "\<And>u. r = Inr u \<Longrightarrow> q' = Inr ()"
      using True get Inr put assms(1) by (auto simp: node_CopyChunk_def bindR_def mapErrR_def split: sum.splits)
    ultimately show ?thesis
      using fetched still_serves_trans by blast
  qed
qed

lemma client_CopyChunk_still_serves:
  assumes "client_CopyChunk net target source i w = (r, w1)" "cluster_safe w" "valid_id i" "serves descr w source i"
  shows "still_serves descr w w1 \<and> (\<forall>u. r = Inr u \<longrightarrow> serves descr w1 target i)"
proof (cases "\<exists>host port. SplitHostPort target = Inr (host, port)
    \<and> load_tls errorf_w PlainErr (net_metad_tls net) = Inr () \<and> net_dial net target host = None")
  case False
  with assms(1) have "w1 = w \<and> (\<forall>u. r \<noteq> Inr u)"
    by (auto simp: client_CopyChunk_def split: sum.splits prod.splits option.splits)
  then show ?thesis
    by simp
next
  case True
  obtain q w2 where call: "rpc net target (node_CopyChunk net target i source) w = (q, w2)"
    by (cases "rpc net target (node_CopyChunk net target i source) w")
  let ?w = "w\<lparr>cl_calls := Suc (cl_calls w)\<rparr>"
  have node: "still_serves descr ?w w3 \<and> (\<forall>u. p = Inr u \<longrightarrow> serves descr w3 target i)"
    if "node_CopyChunk net target i source ?w = (p, w3)" for p w3
    using node_CopyChunk_still_serves [OF that _ assms(3), of descr] assms(2,4)
    by (simp add: cluster_safe_def serves_def)
  have "still_serves descr w w2"
    by (rule rpc_still_serves [OF call]) (use node in blast)
  moreover have "serves descr w2 target i" if "q = Inr b" for b
    using node rpc_Inr [of net target _ w b w2] call that by blast
  moreover have "w1 = w2 \<and> (\<forall>u. r = Inr u \<longrightarrow> (\<exists>b. q = Inr b))"
    using True call assms(1) by (auto simp: client_CopyChunk_def bindR_def mapErrR_def split: sum.splits if_splits)
  ultimately show ?thesis
    by blast
qed

end
