(* ===== verification/Repair.thy ===== *)
theory Repair
  imports Commit_Properties
begin

text \<open>
  \<open>internal/metadata/repair/manager.go\<close>: one cycle of the replication scanner. The RPC that makes
  the target node pull a chunk is a parameter \<open>copy target source chunk\<close> on the state \<open>'w\<close> of the
  rest of the world; the scanner only sees whether it reported an error. The state of the scanner
  is the daemon's and the world's. A read of the registry that fails is logged and skipped, as in
  the code; log lines are not modelled.
\<close>

type_synonym 'w copy_rpc = "string \<Rightarrow> string \<Rightarrow> string \<Rightarrow> ('w, go_error, unit) op"

definition on_md :: "(metad, 'e, 'a) op \<Rightarrow> (metad \<times> 'w, 'e, 'a) op" where
  "on_md m st = (let (r, s) = m (fst st) in (r, (s, snd st)))"

definition on_world :: "('w, 'e, 'a) op \<Rightarrow> (metad \<times> 'w, 'e, 'a) op" where
  "on_world m st = (let (r, w) = m (snd st) in (r, (fst st, w)))"

definition count_metric :: "(metad_metrics \<Rightarrow> metad_metrics) \<Rightarrow> metad \<times> 'w \<Rightarrow> metad \<times> 'w" where
  "count_metric g st = (with_metrics g (fst st), snd st)"

text \<open>The first loop of \<open>scanOnce\<close> over the locations of a chunk.\<close>

fun count_healthy :: "engine \<Rightarrow> location_row list \<Rightarrow> conn \<Rightarrow> nat \<times> conn" where
  "count_healthy e [] s = (0, s)"
| "count_healthy e (l # ls) s =
     (case IsNodeHealthy e (loc_node l) s of
        (Inr True, s1) \<Rightarrow> (let (k, s2) = count_healthy e ls s1 in (Suc k, s2))
      | (_, s1) \<Rightarrow> count_healthy e ls s1)"

text \<open>The first loop of \<open>repairChunk\<close>: the healthy replicas, with their addresses.\<close>

fun healthy_replicas :: "engine \<Rightarrow> location_row list \<Rightarrow> conn \<Rightarrow> (string \<times> string) list \<times> conn" where
  "healthy_replicas e [] s = ([], s)"
| "healthy_replicas e (l # ls) s =
     (case IsNodeHealthy e (loc_node l) s of
        (Inr True, s1) \<Rightarrow>
          (case registry_ListHealthyNodes e s1 of
             (Inl err, s2) \<Rightarrow> healthy_replicas e ls s2
           | (Inr nodes, s2) \<Rightarrow>
               (let (rs, s3) = healthy_replicas e ls s2
                in (case find (\<lambda>n. node_id n = loc_node l) nodes of
                      None \<Rightarrow> rs
                    | Some n \<Rightarrow> (node_id n, node_address n) # rs, s3)))
      | (_, s1) \<Rightarrow> healthy_replicas e ls s1)"

definition copy_and_record ::
  "engine \<Rightarrow> 'w copy_rpc \<Rightarrow> string \<Rightarrow> node_row \<Rightarrow> string \<Rightarrow> (metad \<times> 'w, go_error, unit) op" where
  "copy_and_record e copy chunkID target source st =
     (case on_world (copy (node_address target) source chunkID) (count_metric IncRepairAttempts st) of
        (Inl err, st1) \<Rightarrow> (Inl err, count_metric IncRepairFailures st1)
      | (Inr _, st1) \<Rightarrow>
          (case on_md (on_conn (AddChunkLocation e chunkID (node_id target))) st1 of
             (Inl err, st2) \<Rightarrow> (Inl err, count_metric IncRepairFailures st2)
           | (Inr _, st2) \<Rightarrow> (Inr (), count_metric IncRepairSuccess st2)))"

definition repairChunk ::
  "engine \<Rightarrow> 'w copy_rpc \<Rightarrow> string \<Rightarrow> location_row list \<Rightarrow> (metad \<times> 'w, go_error, unit) op" where
  "repairChunk e copy chunkID locations st =
     (case healthy_replicas e locations (md_conn (fst st)) of
        (rs, c) \<Rightarrow>
          (let st1 = ((fst st)\<lparr>md_conn := c\<rparr>, snd st)
           in if rs = [] then (Inr (), st1)
              else bindR (on_md (on_conn (registry_ListHealthyNodes e))) (\<lambda>healthyNodes.
                case find (\<lambda>n. node_id n \<notin> loc_node ` set locations) healthyNodes of
                  None \<Rightarrow> retR ()
                | Some target \<Rightarrow> copy_and_record e copy chunkID target (snd (hd rs))) st1))"

fun scan_loop :: "engine \<Rightarrow> 'w copy_rpc \<Rightarrow> int \<Rightarrow> chunk_row list \<Rightarrow> metad \<times> 'w \<Rightarrow> metad \<times> 'w" where
  "scan_loop e copy rf [] st = st"
| "scan_loop e copy rf (c # cs) st =
     (case on_md (on_conn (GetChunkLocations e (chunk_id c))) st of
        (Inl err, st1) \<Rightarrow> scan_loop e copy rf cs st1
      | (Inr locations, st1) \<Rightarrow>
          (case count_healthy e locations (md_conn (fst st1)) of
             (k, conn1) \<Rightarrow>
               (let st2 = ((fst st1)\<lparr>md_conn := conn1\<rparr>, snd st1)
                in if int k < rf
                   then scan_loop e copy rf cs (snd (repairChunk e copy (chunk_id c) locations st2))
                   else scan_loop e copy rf cs st2)))"

definition scanOnce :: "engine \<Rightarrow> 'w copy_rpc \<Rightarrow> int \<Rightarrow> metad \<times> 'w \<Rightarrow> metad \<times> 'w" where
  "scanOnce e copy rf st =
     (case on_md (on_conn (ListCommittedChunks e)) st of
        (Inl err, st1) \<Rightarrow> st1
      | (Inr chunks, st1) \<Rightarrow> scan_loop e copy rf chunks st1)"

subsection \<open>What the loops read\<close>

abbreviation st_tables :: "metad \<times> 'w \<Rightarrow> tables" where
  "st_tables st \<equiv> md_tables (fst st)"

lemma count_metric_simps [simp]:
  "md_conn (fst (count_metric g st)) = md_conn (fst st)"
  "snd (count_metric g st) = snd st"
  "md_metrics (fst (count_metric g st)) = g (md_metrics (fst st))"
  by (simp_all add: count_metric_def with_metrics_def)

lemma on_md_simps [simp]:
  "fst (on_md m st) = fst (m (fst st))" "snd (on_md m st) = (snd (m (fst st)), snd st)"
  by (simp_all add: on_md_def split: prod.splits)

lemma on_world_simps [simp]:
  "fst (on_world m st) = fst (m (snd st))" "snd (on_world m st) = (fst st, snd (m (snd st)))"
  by (simp_all add: on_world_def split: prod.splits)

lemma on_md_eq: "on_md m st = (r, st1) \<longleftrightarrow> (\<exists>s. m (fst st) = (r, s) \<and> st1 = (s, snd st))"
  by (auto simp: on_md_def split: prod.splits)

lemma on_world_eq: "on_world m st = (r, st1) \<longleftrightarrow> (\<exists>w. m (snd st) = (r, w) \<and> st1 = (fst st, w))"
  by (auto simp: on_world_def split: prod.splits)

lemma registry_ListHealthyNodes_tables [simp]:
  "conn_tables (snd (registry_ListHealthyNodes e s)) = conn_tables s"
  by (simp add: registry_ListHealthyNodes_def)

lemma count_healthy_tables: "conn_tables (snd (count_healthy e ls s)) = conn_tables s"
proof (induction ls arbitrary: s)
  case (Cons l ls)
  obtain r s1 where h: "IsNodeHealthy e (loc_node l) s = (r, s1)"
    by (cases "IsNodeHealthy e (loc_node l) s")
  then have "conn_tables s1 = conn_tables s"
    by (metis IsNodeHealthy_tables snd_conv)
  with h Cons [of s1] show ?case
    by (auto simp: case_prod_beta split: sum.splits bool.splits)
qed simp

lemma healthy_replicas_tables: "conn_tables (snd (healthy_replicas e ls s)) = conn_tables s"
proof (induction ls arbitrary: s)
  case (Cons l ls)
  obtain r s1 where h: "IsNodeHealthy e (loc_node l) s = (r, s1)"
    by (cases "IsNodeHealthy e (loc_node l) s")
  then have s1: "conn_tables s1 = conn_tables s"
    by (metis IsNodeHealthy_tables snd_conv)
  obtain q s2 where q: "registry_ListHealthyNodes e s1 = (q, s2)"
    by (cases "registry_ListHealthyNodes e s1")
  then have "conn_tables s2 = conn_tables s"
    by (metis registry_ListHealthyNodes_tables s1 snd_conv)
  with h s1 q Cons [of s1] Cons [of s2] show ?case
    by (auto simp: case_prod_beta split: sum.splits bool.splits)
qed simp

end
