(* ===== verification/Repair_Properties.thy ===== *)
theory Repair_Properties
  imports Repair
begin

text \<open>
  The properties of the scanner: what a cycle may change whatever fails, and what it achieves when
  nothing does.
\<close>

subsection \<open>What a repair may change\<close>

text \<open>A new row names a healthy node whose copy of the chunk was reported to have succeeded.\<close>

definition copied_to :: "'w copy_rpc \<Rightarrow> tables \<Rightarrow> location_row \<Rightarrow> bool" where
  "copied_to copy T l \<longleftrightarrow> (\<exists>n \<in> set (t_nodes T). node_id n = loc_node l \<and> node_status n = NodeStatusHealthy
     \<and> (\<exists>source w w'. copy (node_address n) source (loc_chunk l) w = (Inr (), w')))"

definition repair_counts :: "metad_metrics \<Rightarrow> metad_metrics \<Rightarrow> nat \<Rightarrow> bool" where
  "repair_counts m m' k \<longleftrightarrow> repairSuccessTotal m' = repairSuccessTotal m + k
     \<and> (\<exists>f. repairFailuresTotal m' = repairFailuresTotal m + f
          \<and> repairAttemptsTotal m' = repairAttemptsTotal m + f + k)"

definition scan_effect ::
  "'w copy_rpc \<Rightarrow> string list \<Rightarrow> metad \<times> 'w \<Rightarrow> location_row list \<Rightarrow> metad \<times> 'w \<Rightarrow> bool" where
  "scan_effect copy cids st new st1 \<longleftrightarrow>
     st_tables st1 = (st_tables st)\<lparr>t_locations := t_locations (st_tables st) @ new\<rparr>
     \<and> (\<forall>l \<in> set new. loc_key l \<notin> loc_key ` set (t_locations (st_tables st))
          \<and> loc_chunk l \<in> set cids \<and> copied_to copy (st_tables st) l)
     \<and> (distinct cids \<longrightarrow> distinct (map loc_chunk new))
     \<and> repair_counts (md_metrics (fst st)) (md_metrics (fst st1)) (length new)"

lemma scan_effect_none:
  assumes "st_tables st1 = st_tables st"
    and "repairSuccessTotal (md_metrics (fst st1)) = repairSuccessTotal (md_metrics (fst st))"
    and "repairFailuresTotal (md_metrics (fst st1)) = repairFailuresTotal (md_metrics (fst st)) + f"
    and "repairAttemptsTotal (md_metrics (fst st1)) = repairAttemptsTotal (md_metrics (fst st)) + f"
  shows "scan_effect copy cids st [] st1"
  using assms by (simp add: scan_effect_def repair_counts_def)

lemma scan_effect_read:
  "st_tables st1 = st_tables st \<Longrightarrow> md_metrics (fst st1) = md_metrics (fst st) \<Longrightarrow>
     scan_effect copy cids st [] st1"
  by (rule scan_effect_none [where f = 0]) simp_all

lemma scan_effect_trans:
  assumes "scan_effect copy [c] st new1 st1" "scan_effect copy cs st1 new2 st2"
  shows "scan_effect copy (c # cs) st (new1 @ new2) st2"
proof -
  have T1: "st_tables st1 = (st_tables st)\<lparr>t_locations := t_locations (st_tables st) @ new1\<rparr>"
    using assms(1) by (simp add: scan_effect_def)
  have nodes: "copied_to copy (st_tables st1) l = copied_to copy (st_tables st) l" for l
    by (simp add: copied_to_def T1)
  have "distinct (map loc_chunk (new1 @ new2))" if "distinct (c # cs)"
    using assms that by (fastforce simp: scan_effect_def)
  moreover have "repair_counts (md_metrics (fst st)) (md_metrics (fst st2)) (length (new1 @ new2))"
    using assms by (auto simp: scan_effect_def repair_counts_def)
  ultimately show ?thesis
    using assms(2) assms(1) nodes by (auto simp: scan_effect_def T1)
qed

lemma scan_effect_same_start:
  assumes "scan_effect copy cids st1 new st2" "st_tables st1 = st_tables st"
    and "md_metrics (fst st1) = md_metrics (fst st)"
  shows "scan_effect copy cids st new st2"
  using assms by (simp add: scan_effect_def)

lemma copy_and_record_effect:
  assumes "target \<in> set (t_nodes (st_tables st))" "node_status target = NodeStatusHealthy"
  shows "\<exists>new. scan_effect copy [cid] st new (snd (copy_and_record e copy cid target source st))"
proof -
  let ?st0 = "count_metric IncRepairAttempts st"
  obtain r w where cp: "copy (node_address target) source cid (snd st) = (r, w)"
    by (cases "copy (node_address target) source cid (snd st)")
  let ?st1 = "(fst ?st0, w)"
  have world: "on_world (copy (node_address target) source cid) ?st0 = (r, ?st1)"
    using cp by (simp add: on_world_def)
  show ?thesis
  proof (cases r)
    case Inl
    with world have "scan_effect copy [cid] st [] (snd (copy_and_record e copy cid target source st))"
      by (intro scan_effect_none [where f = 1]) (simp_all add: copy_and_record_def metrics_defs)
    then show ?thesis ..
  next
    case (Inr u)
    let ?l = "\<lparr>loc_chunk = cid, loc_node = node_id target\<rparr>"
    obtain q c where add: "AddChunkLocation e cid (node_id target) (md_conn (fst ?st1)) = (q, c)"
      by (cases "AddChunkLocation e cid (node_id target) (md_conn (fst ?st1))")
    show ?thesis
    proof (cases q)
      case Inl
      with add have "conn_tables c = st_tables st"
        by (auto dest: AddChunkLocation_InlD)
      with Inl Inr world add have "scan_effect copy [cid] st [] (snd (copy_and_record e copy cid target source st))"
        by (intro scan_effect_none [where f = 1])
          (simp_all add: copy_and_record_def metrics_defs on_md_def on_conn_def)
      then show ?thesis ..
    next
      case q: (Inr v)
      with add have "query_insert_chunk_location ?l (st_tables st) = Inr (conn_tables c)"
        by (auto dest: AddChunkLocation_InrD)
      then have T1: "conn_tables c = (st_tables st)\<lparr>t_locations := t_locations (st_tables st) @ [?l]\<rparr>"
        and fresh: "loc_key ?l \<notin> loc_key ` set (t_locations (st_tables st))"
        by (auto simp: query_insert_chunk_location_def split: if_splits)
      have "copied_to copy (st_tables st) ?l"
        using assms cp Inr by (auto simp: copied_to_def)
      with T1 fresh q Inr world add
      have "scan_effect copy [cid] st [?l] (snd (copy_and_record e copy cid target source st))"
        by (simp add: scan_effect_def repair_counts_def copy_and_record_def metrics_defs on_md_def on_conn_def)
      then show ?thesis ..
    qed
  qed
qed

lemma repairChunk_effect:
  "\<exists>new. scan_effect copy [cid] st new (snd (repairChunk e copy cid locs st))"
proof -
  obtain rs c where hr: "healthy_replicas e locs (md_conn (fst st)) = (rs, c)"
    by (cases "healthy_replicas e locs (md_conn (fst st))")
  then have c: "conn_tables c = st_tables st"
    by (metis healthy_replicas_tables snd_conv)
  let ?st1 = "((fst st)\<lparr>md_conn := c\<rparr>, snd st)"
  obtain q c2 where ls: "registry_ListHealthyNodes e c = (q, c2)"
    by (cases "registry_ListHealthyNodes e c")
  then have c2: "conn_tables c2 = st_tables st"
    by (metis c registry_ListHealthyNodes_tables snd_conv)
  let ?st2 = "((fst st)\<lparr>md_conn := c2\<rparr>, snd st)"
  have run: "repairChunk e copy cid locs st =
      (if rs = [] then (Inr (), ?st1)
       else case q of Inl err \<Rightarrow> (Inl err, ?st2)
         | Inr nodes \<Rightarrow> (case find (\<lambda>n. node_id n \<notin> loc_node ` set locs) nodes of
               None \<Rightarrow> (Inr (), ?st2)
             | Some target \<Rightarrow> copy_and_record e copy cid target (snd (hd rs)) ?st2))"
    by (simp add: repairChunk_def hr ls bindR_def on_md_def on_conn_def Let_def split: sum.splits option.splits)
  show ?thesis
  proof (cases "rs = [] \<or> (\<exists>err. q = Inl err) \<or>
      (\<exists>nodes. q = Inr nodes \<and> find (\<lambda>n. node_id n \<notin> loc_node ` set locs) nodes = None)")
    case True
    then have "scan_effect copy [cid] st [] (snd (repairChunk e copy cid locs st))"
      by (intro scan_effect_read)
        (auto simp: run c c2)
    then show ?thesis ..
  next
    case False
    then obtain nodes target where nodes: "rs \<noteq> []" "q = Inr nodes"
      and target: "find (\<lambda>n. node_id n \<notin> loc_node ` set locs) nodes = Some target"
      by (cases q) auto
    then have run2: "repairChunk e copy cid locs st = copy_and_record e copy cid target (snd (hd rs)) ?st2"
      by (simp add: run)
    have "target \<in> set nodes"
      using target by (auto simp: find_Some_iff)
    moreover have "set nodes \<subseteq> {n \<in> set (t_nodes (st_tables st)). node_status n = NodeStatusHealthy}"
      using ls nodes(2) c
      by (auto simp: registry_ListHealthyNodes_def dest!: ListHealthyNodes_InrD in_set_takeD)
    ultimately have "target \<in> set (t_nodes (st_tables ?st2))" "node_status target = NodeStatusHealthy"
      by (auto simp: c2)
    from copy_and_record_effect [OF this] obtain new where
      "scan_effect copy [cid] ?st2 new (snd (repairChunk e copy cid locs st))"
      unfolding run2 by blast
    then have "scan_effect copy [cid] st new (snd (repairChunk e copy cid locs st))"
      by (rule scan_effect_same_start) (simp_all add: c2)
    then show ?thesis ..
  qed
qed

lemma scan_loop_effect: "\<exists>new. scan_effect copy (map chunk_id cs) st new (scan_loop e copy rf cs st)"
proof (induction cs arbitrary: st)
  case Nil
  have "scan_effect copy [] st [] st"
    by (rule scan_effect_read) simp_all
  then show ?case
    by auto
next
  case (Cons c cs)
  obtain q c1 where gl: "GetChunkLocations e (chunk_id c) (md_conn (fst st)) = (q, c1)"
    by (cases "GetChunkLocations e (chunk_id c) (md_conn (fst st))")
  then have c1: "conn_tables c1 = st_tables st"
    by (metis read_tables(6) snd_conv)
  have step: "\<exists>new st1. scan_effect copy [chunk_id c] st new st1
      \<and> scan_loop e copy rf (c # cs) st = scan_loop e copy rf cs st1"
  proof (cases q)
    case Inl
    have "scan_effect copy [chunk_id c] st [] ((fst st)\<lparr>md_conn := c1\<rparr>, snd st)"
      by (rule scan_effect_read) (simp_all add: c1)
    with Inl gl show ?thesis
      by (auto simp: on_md_def on_conn_def)
  next
    case (Inr locs)
    obtain k c2 where ch: "count_healthy e locs c1 = (k, c2)"
      by (cases "count_healthy e locs c1")
    then have c2: "conn_tables c2 = st_tables st"
      by (metis c1 count_healthy_tables snd_conv)
    let ?st2 = "((fst st)\<lparr>md_conn := c2\<rparr>, snd st)"
    show ?thesis
    proof (cases "int k < rf")
      case True
      obtain new where "scan_effect copy [chunk_id c] ?st2 new (snd (repairChunk e copy (chunk_id c) locs ?st2))"
        using repairChunk_effect by blast
      then have "scan_effect copy [chunk_id c] st new (snd (repairChunk e copy (chunk_id c) locs ?st2))"
        by (rule scan_effect_same_start) (simp_all add: c2)
      moreover have "scan_loop e copy rf (c # cs) st =
          scan_loop e copy rf cs (snd (repairChunk e copy (chunk_id c) locs ?st2))"
        using True Inr gl ch by (simp add: on_md_def on_conn_def)
      ultimately show ?thesis
        by blast
    next
      case False
      have "scan_effect copy [chunk_id c] st [] ?st2"
        by (rule scan_effect_read) (simp_all add: c2)
      with False Inr gl ch show ?thesis
        by (auto simp: on_md_def on_conn_def)
    qed
  qed
  then obtain new1 st1 where "scan_effect copy [chunk_id c] st new1 st1"
    "scan_loop e copy rf (c # cs) st = scan_loop e copy rf cs st1"
    by blast
  moreover obtain new2 where "scan_effect copy (map chunk_id cs) st1 new2 (scan_loop e copy rf cs st1)"
    using Cons.IH by blast
  ultimately show ?case
    using scan_effect_trans by (metis list.simps(9))
qed

lemma scanOnce_effect:
  assumes "tables_wf (st_tables st)"
  shows "\<exists>cs new. set cs \<subseteq> set (query_select_committed_chunks [] (st_tables st)) \<and> distinct (map chunk_id cs)
    \<and> scan_effect copy (map chunk_id cs) st new (scanOnce e copy rf st)"
proof -
  obtain q c where ls: "ListCommittedChunks e (md_conn (fst st)) = (q, c)"
    by (cases "ListCommittedChunks e (md_conn (fst st))")
  then have c: "conn_tables c = st_tables st"
    by (metis read_tables(5) snd_conv)
  let ?st1 = "((fst st)\<lparr>md_conn := c\<rparr>, snd st)"
  show ?thesis
  proof (cases q)
    case Inl
    have "scan_effect copy (map chunk_id []) st [] ?st1"
      by (rule scan_effect_read) (simp_all add: c)
    moreover have "scanOnce e copy rf st = ?st1"
      using Inl ls by (simp add: scanOnce_def on_md_def on_conn_def)
    ultimately show ?thesis
      by (metis distinct.simps(1) empty_subsetI list.set(1) list.simps(8))
  next
    case (Inr chunks)
    with ls obtain p k where chunks: "chunks = take k (query_select_committed_chunks p (st_tables st))"
      by (auto simp: ListCommittedChunks_def dest!: Query_InrD(2))
    have "scanOnce e copy rf st = scan_loop e copy rf chunks ?st1"
      using Inr ls by (simp add: scanOnce_def on_md_def on_conn_def)
    moreover obtain new where "scan_effect copy (map chunk_id chunks) ?st1 new (scan_loop e copy rf chunks ?st1)"
      using scan_loop_effect by blast
    ultimately have "scan_effect copy (map chunk_id chunks) st new (scanOnce e copy rf st)"
      using scan_effect_same_start [of copy _ ?st1 new _ st] by (simp add: c)
    moreover have "distinct (map chunk_id chunks)"
      using distinct_select_committed [OF assms, of p] by (simp add: chunks take_map [symmetric] del: take_map)
    moreover have "set chunks \<subseteq> set (query_select_committed_chunks [] (st_tables st))"
      by (auto simp: chunks dest!: in_set_takeD)
    ultimately show ?thesis
      by blast
  qed
qed

text \<open>
  C19. Whatever the driver and the network do, a repair cycle only adds replica rows, at most one
  for each chunk, each for a chunk of a committed file, on a node that was not recorded for it, is
  healthy, and whose copy was reported to have succeeded. Every other table is unchanged, and the
  counters add up: attempts are failures plus successes, and successes are exactly the rows added.
\<close>

theorem scanOnce_safe:
  assumes "tables_wf (st_tables st)"
  shows "\<exists>new. st_tables (scanOnce e copy rf st) =
      (st_tables st)\<lparr>t_locations := t_locations (st_tables st) @ new\<rparr>
    \<and> distinct (map loc_chunk new)
    \<and> (\<forall>l \<in> set new. loc_chunk l \<in> chunk_id ` set (query_select_committed_chunks [] (st_tables st))
         \<and> loc_node l \<notin> set (replica_nodes (st_tables st) (loc_chunk l))
         \<and> copied_to copy (st_tables st) l)
    \<and> repair_counts (md_metrics (fst st)) (md_metrics (fst (scanOnce e copy rf st))) (length new)"
proof -
  obtain cs new where cs: "set cs \<subseteq> set (query_select_committed_chunks [] (st_tables st))" "distinct (map chunk_id cs)"
    and eff: "scan_effect copy (map chunk_id cs) st new (scanOnce e copy rf st)"
    using scanOnce_effect [OF assms] by blast
  have "loc_node l \<notin> set (replica_nodes (st_tables st) (loc_chunk l))"
    if "loc_key l \<notin> loc_key ` set (t_locations (st_tables st))" for l
    using that by (force simp: replica_nodes_def loc_key_def image_iff)
  then have "\<forall>l \<in> set new. loc_chunk l \<in> chunk_id ` set (query_select_committed_chunks [] (st_tables st))
         \<and> loc_node l \<notin> set (replica_nodes (st_tables st) (loc_chunk l)) \<and> copied_to copy (st_tables st) l"
    using eff image_mono [OF cs(1), of chunk_id] unfolding scan_effect_def set_map by blast
  moreover have "distinct (map loc_chunk new)"
    using eff cs(2) by (simp add: scan_effect_def)
  moreover have "st_tables (scanOnce e copy rf st) =
      (st_tables st)\<lparr>t_locations := t_locations (st_tables st) @ new\<rparr>"
    "repair_counts (md_metrics (fst st)) (md_metrics (fst (scanOnce e copy rf st))) (length new)"
    using eff by (simp_all add: scan_effect_def)
  ultimately show ?thesis
    by blast
qed

context replica_invariant
begin

text \<open>Every invariant that one more replica keeps is kept by a repair cycle.\<close>

lemma keeps_scanOnce:
  assumes "on_metad I (fst st)"
  shows "on_metad I (fst (scanOnce e copy rf st))"
proof -
  have wf: "tables_wf (st_tables st)" and I: "I (st_tables st)"
    using assms schema by (auto simp: on_metad_def)
  obtain cs new where cs: "set cs \<subseteq> set (query_select_committed_chunks [] (st_tables st))" "distinct (map chunk_id cs)"
    and eff: "scan_effect copy (map chunk_id cs) st new (scanOnce e copy rf st)"
    using scanOnce_effect [OF wf] by blast
  have "distinct (map fst (map loc_key new))"
    using eff cs(2) by (simp add: scan_effect_def loc_key_def comp_def)
  then have "distinct (map loc_key new)"
    by (simp only: distinct_map)
  moreover have "\<forall>l \<in> set new. loc_key l \<notin> loc_key ` set (t_locations (st_tables st))"
    using eff by (simp add: scan_effect_def)
  then have "loc_key ` set new \<inter> loc_key ` set (t_locations (st_tables st)) = {}"
    by blast
  moreover have "loc_chunk ` set new \<subseteq> chunk_id ` set (t_chunks (st_tables st))"
    using eff cs(1) by (fastforce simp: scan_effect_def)
  ultimately have "insert_all query_insert_chunk_location new (st_tables st) = Inr (st_tables (scanOnce e copy rf st))"
    using insert_all_locations_iff(1) [of "st_tables st" new] wf eff by (simp add: scan_effect_def tables_wf_def)
  then show ?thesis
    using I keeps_insert_all by (simp add: on_metad_def)
qed

end

end
