(* ===== verification/Repair_Progress.thy ===== *)
theory Repair_Progress
  imports Repair_Properties
begin

text \<open>
  What repair cycles achieve when the database answers and the copies they ask for succeed: each cycle
  adds one healthy replica to every committed chunk that is short of replicas and can be repaired, and
  enough cycles restore the replication factor. The locale \<open>repair_progress\<close> states what a cycle needs of
  its copies: only those from a healthy recorded holder to a healthy node without the chunk have to
  succeed, and only while an invariant of the tables and the world lasts. \<open>Cluster_Progress\<close> proves it of the
  storage nodes.
\<close>

definition named_nodes :: "tables \<Rightarrow> bool" where
  "named_nodes T \<longleftrightarrow> (\<forall>n \<in> set (t_nodes T). node_id n \<noteq> [])"

definition healthy_holders :: "tables \<Rightarrow> string \<Rightarrow> string list" where
  "healthy_holders T cid = filter (healthy_node T) (replica_nodes T cid)"

definition repairable :: "int \<Rightarrow> tables \<Rightarrow> string \<Rightarrow> bool" where
  "repairable rf T cid \<longleftrightarrow> healthy_holders T cid \<noteq> [] \<and> int (length (healthy_holders T cid)) < rf
     \<and> (\<exists>n. healthy_node T n \<and> n \<notin> set (replica_nodes T cid))"

lemma named_healthy: "named_nodes T \<Longrightarrow> \<not> healthy_node T []"
  by (auto simp: named_nodes_def healthy_node_def)

lemma IsNodeHealthy_answer:
  assumes "no_faults e" "complete_scans e" "named_nodes (conn_tables s)"
    and "IsNodeHealthy e nid s = (r, s1)"
  shows "r = Inr True \<longleftrightarrow> healthy_node (conn_tables s) nid" "conn_tables s1 = conn_tables s"
proof -
  show "conn_tables s1 = conn_tables s"
    using assms(4) by (metis IsNodeHealthy_tables snd_conv)
  show "r = Inr True \<longleftrightarrow> healthy_node (conn_tables s) nid"
  proof (cases "nid = []")
    case True
    with assms(3,4) named_healthy show ?thesis
      by (auto simp: IsNodeHealthy_def)
  next
    case False
    with IsNodeHealthy_ok [OF assms(1,2) False, of s] assms(4) show ?thesis
      by auto
  qed
qed

lemma count_healthy_ok:
  assumes "no_faults e" "complete_scans e"
  shows "named_nodes (conn_tables s) \<Longrightarrow>
    fst (count_healthy e ls s) = length (filter (\<lambda>l. healthy_node (conn_tables s) (loc_node l)) ls)"
proof (induction ls arbitrary: s)
  case (Cons l ls)
  obtain r s1 where h: "IsNodeHealthy e (loc_node l) s = (r, s1)"
    by (cases "IsNodeHealthy e (loc_node l) s")
  note ans = IsNodeHealthy_answer [OF assms Cons.prems h]
  have IH: "fst (count_healthy e ls s1) = length (filter (\<lambda>l. healthy_node (conn_tables s) (loc_node l)) ls)"
    using Cons ans(2) by simp
  show ?case
  proof (cases "healthy_node (conn_tables s) (loc_node l)")
    case True
    with ans(1) h IH show ?thesis
      by (simp add: case_prod_beta)
  next
    case False
    with ans(1) h IH show ?thesis
      by (simp split: sum.splits bool.splits)
  qed
qed simp

lemma healthy_replicas_ok:
  assumes "no_faults e" "complete_scans e"
  shows "named_nodes (conn_tables s) \<Longrightarrow>
    fst (healthy_replicas e ls s) = [] \<longleftrightarrow> (\<forall>l \<in> set ls. \<not> healthy_node (conn_tables s) (loc_node l))"
proof (induction ls arbitrary: s)
  case (Cons l ls)
  obtain r s1 where h: "IsNodeHealthy e (loc_node l) s = (r, s1)"
    by (cases "IsNodeHealthy e (loc_node l) s")
  note ans = IsNodeHealthy_answer [OF assms Cons.prems h]
  show ?case
  proof (cases "healthy_node (conn_tables s) (loc_node l)")
    case False
    with ans h Cons show ?thesis
      by (simp split: sum.splits bool.splits)
  next
    case True
    obtain p s2 where ls: "registry_ListHealthyNodes e s1 = (Inr (query_select_healthy_nodes p (conn_tables s1)), s2)"
      using ListHealthyNodes_ok [OF assms, of s1] by (auto simp: registry_ListHealthyNodes_def)
    have "find (\<lambda>n. node_id n = loc_node l) (query_select_healthy_nodes p (conn_tables s1)) \<noteq> None"
      using True ans(2) by (auto simp: find_None_iff healthy_node_def)
    with True ans(1) h ls show ?thesis
      by (auto simp: case_prod_beta)
  qed
qed simp

lemma healthy_set: "node_id ` set (query_select_healthy_nodes p T) = {n. healthy_node T n}"
  by (auto simp: healthy_node_def)

subsection \<open>Where the scanner takes its sources and targets from\<close>

lemma healthy_replicas_source:
  assumes "r \<in> set (fst (healthy_replicas e ls s))"
  shows "\<exists>l \<in> set ls. \<exists>n \<in> set (t_nodes (conn_tables s)). node_id n = loc_node l
    \<and> node_status n = NodeStatusHealthy \<and> r = (node_id n, node_address n)"
  using assms
proof (induction ls arbitrary: s)
  case (Cons l ls)
  obtain q s1 where h: "IsNodeHealthy e (loc_node l) s = (q, s1)"
    by (cases "IsNodeHealthy e (loc_node l) s")
  then have s1: "conn_tables s1 = conn_tables s"
    by (metis IsNodeHealthy_tables snd_conv)
  obtain p s2 where p: "registry_ListHealthyNodes e s1 = (p, s2)"
    by (cases "registry_ListHealthyNodes e s1")
  then have s2: "conn_tables s2 = conn_tables s"
    by (metis registry_ListHealthyNodes_tables s1 snd_conv)
  have later: ?case if "r \<in> set (fst (healthy_replicas e ls s'))" "conn_tables s' = conn_tables s" for s'
    using Cons.IH [OF that(1)] that(2) by auto
  show ?case
  proof (cases "q = Inr True \<and> (\<exists>nodes. p = Inr nodes)")
    case False
    with Cons.prems h p later [of s1] later [of s2] s1 s2 show ?thesis
      by (auto simp: case_prod_beta split: sum.splits bool.splits)
  next
    case True
    then obtain nodes where nodes: "p = Inr nodes"
      by blast
    then have real: "set nodes \<subseteq> {n \<in> set (t_nodes (conn_tables s)). node_status n = NodeStatusHealthy}"
      using p s1 by (auto simp: registry_ListHealthyNodes_def dest!: ListHealthyNodes_InrD in_set_takeD)
    have "r \<in> set (fst (healthy_replicas e ls s2))
        \<or> (\<exists>n. find (\<lambda>n. node_id n = loc_node l) nodes = Some n \<and> r = (node_id n, node_address n))"
      using Cons.prems True nodes h p by (auto simp: case_prod_beta split: option.splits)
    then show ?thesis
    proof
      assume "\<exists>n. find (\<lambda>n. node_id n = loc_node l) nodes = Some n \<and> r = (node_id n, node_address n)"
      with real show ?thesis
        by (auto dest!: find_SomeD)
    qed (use later [of s2] s2 in blast)
  qed
qed simp

subsection \<open>One repair\<close>

text \<open>What one repair call does to the replicas.\<close>

definition repaired_once :: "string \<Rightarrow> tables \<Rightarrow> tables \<Rightarrow> bool" where
  "repaired_once cid T T1 \<longleftrightarrow> (\<exists>n. healthy_node T n \<and> n \<notin> set (replica_nodes T cid)
     \<and> T1 = T\<lparr>t_locations := t_locations T @ [\<lparr>loc_chunk = cid, loc_node = n\<rparr>]\<rparr>)"

subsection \<open>One cycle\<close>

definition one_more :: "tables \<Rightarrow> string \<Rightarrow> tables \<Rightarrow> bool" where
  "one_more T cid T1 \<longleftrightarrow> (\<exists>n. healthy_node T n \<and> n \<notin> set (replica_nodes T cid)
     \<and> replica_nodes T1 cid = replica_nodes T cid @ [n])"

definition only_locations :: "tables \<Rightarrow> tables \<Rightarrow> bool" where
  "only_locations T T1 \<longleftrightarrow> foreign_keys T1 = foreign_keys T \<and> t_files T1 = t_files T
     \<and> t_chunks T1 = t_chunks T \<and> t_nodes T1 = t_nodes T \<and> t_sessions T1 = t_sessions T"

lemma only_locations_healthy: "only_locations T T1 \<Longrightarrow> healthy_node T1 = healthy_node T"
  by (simp add: only_locations_def healthy_node_def fun_eq_iff)

lemma only_locations_trans: "only_locations T T1 \<Longrightarrow> only_locations T1 T2 \<Longrightarrow> only_locations T T2"
  by (simp add: only_locations_def)

definition replica_step :: "int \<Rightarrow> string list \<Rightarrow> tables \<Rightarrow> tables \<Rightarrow> bool" where
  "replica_step rf cids T T1 \<longleftrightarrow> only_locations T T1 \<and> tables_wf T1
     \<and> (\<forall>cid. if cid \<in> set cids \<and> repairable rf T cid then one_more T cid T1
          else replica_nodes T1 cid = replica_nodes T cid)"

lemma healthy_node_locations [simp]: "healthy_node (T\<lparr>t_locations := ls\<rparr>) = healthy_node T"
  by (simp add: healthy_node_def fun_eq_iff)

lemma repairable_cong:
  assumes "replica_nodes T1 cid = replica_nodes T cid" "healthy_node T1 = healthy_node T"
  shows "repairable rf T1 cid = repairable rf T cid" "one_more T1 cid T2 = one_more T cid T2"
  using assms by (simp_all add: repairable_def healthy_holders_def one_more_def)

lemma replica_step_trans:
  assumes s1: "replica_step rf [c] T T1" and s2: "replica_step rf cs T1 T2" and c: "c \<notin> set cs"
  shows "replica_step rf (c # cs) T T2"
proof -
  have only: "only_locations T T1" "only_locations T1 T2" and wf2: "tables_wf T2"
    using s1 s2 by (simp_all add: replica_step_def)
  note h = only_locations_healthy [OF only(1)]
  have "if cid \<in> set (c # cs) \<and> repairable rf T cid then one_more T cid T2
      else replica_nodes T2 cid = replica_nodes T cid" for cid
  proof (cases "cid = c")
    case True
    have "replica_nodes T2 c = replica_nodes T1 c"
      using s2 c unfolding replica_step_def by (metis (full_types))
    then show ?thesis
      using s1 True unfolding replica_step_def one_more_def by (metis list.set_intros(1))
  next
    case False
    then have same: "replica_nodes T1 cid = replica_nodes T cid"
      using s1 unfolding replica_step_def by (metis empty_iff empty_set set_ConsD)
    have "if cid \<in> set cs \<and> repairable rf T1 cid then one_more T1 cid T2
        else replica_nodes T2 cid = replica_nodes T1 cid"
      using s2 unfolding replica_step_def by blast
    then show ?thesis
      using False by (auto simp: repairable_cong [OF same h] same split: if_splits)
  qed
  with only_locations_trans [OF only] wf2 show ?thesis
    unfolding replica_step_def by blast
qed

lemma replica_step_refl:
  assumes "tables_wf T" "\<And>cid. cid \<in> set cids \<Longrightarrow> \<not> repairable rf T cid"
  shows "replica_step rf cids T T"
  using assms by (auto simp: replica_step_def only_locations_def)

lemma repaired_once_step:
  assumes "repaired_once cid T T1" "tables_wf T" "cid \<in> chunk_id ` set (t_chunks T)" "repairable rf T cid"
  shows "replica_step rf [cid] T T1"
proof -
  obtain n where n: "healthy_node T n" "n \<notin> set (replica_nodes T cid)"
    and T1: "T1 = T\<lparr>t_locations := t_locations T @ [\<lparr>loc_chunk = cid, loc_node = n\<rparr>]\<rparr>"
    using assms(1) by (auto simp: repaired_once_def)
  have "query_insert_chunk_location \<lparr>loc_chunk = cid, loc_node = n\<rparr> T = Inr T1"
    using n(2) assms(3) by (auto simp: query_insert_chunk_location_def T1 replica_nodes_def loc_key_def image_iff)
  then have "tables_wf T1"
    by (rule tables_wf_insert_location [OF assms(2)])
  moreover have "replica_nodes T1 c = replica_nodes T c @ (if c = cid then [n] else [])" for c
    by (simp add: T1 replica_nodes_def)
  ultimately show ?thesis
    using n assms(4) by (auto simp: replica_step_def one_more_def only_locations_def T1)
qed

lemma healthy_count:
  assumes "locs = query_select_chunk_locations p cid T"
  shows "length (filter (\<lambda>l. healthy_node T (loc_node l)) locs) = length (healthy_holders T cid)"
proof -
  have "mset locs = mset (filter (\<lambda>l. loc_chunk l = cid) (t_locations T))"
    by (simp add: assms query_select_chunk_locations_def)
  then have "length (filter (\<lambda>l. healthy_node T (loc_node l)) locs) =
      length (filter (\<lambda>l. healthy_node T (loc_node l)) (filter (\<lambda>l. loc_chunk l = cid) (t_locations T)))"
    by (metis mset_filter size_mset)
  then show ?thesis
    by (simp add: healthy_holders_def replica_nodes_def filter_map comp_def)
qed

definition committed_ids :: "tables \<Rightarrow> string set" where
  "committed_ids T = chunk_id ` set (query_select_committed_chunks [] T)"

lemma holder_missing:
  assumes "tables_wf T" "int (length (healthy_holders T cid)) < rf"
    and "rf \<le> int (card {n. healthy_node T n})"
  shows "\<exists>n. healthy_node T n \<and> n \<notin> set (replica_nodes T cid)"
proof (rule ccontr)
  assume "\<not> ?thesis"
  then have "{n. healthy_node T n} \<subseteq> set (healthy_holders T cid)"
    by (auto simp: healthy_holders_def)
  then have "card {n. healthy_node T n} \<le> card (set (healthy_holders T cid))"
    by (intro card_mono) auto
  also have "\<dots> \<le> length (healthy_holders T cid)"
    by (rule card_length)
  finally show False
    using assms(2,3) by linarith
qed

subsection \<open>The contract of the copies\<close>

text \<open>
  \<open>I\<close> is an invariant of the tables and the world: while it holds the database answers, and a copy that the
  scanner may ask for succeeds and, once it is recorded, leaves the invariant.
\<close>

locale repair_progress =
  fixes e :: engine and copy :: "'w copy_rpc" and I :: "tables \<Rightarrow> 'w \<Rightarrow> bool"
  assumes answers: "I T w \<Longrightarrow> no_faults e \<and> complete_scans e \<and> tables_wf T \<and> named_nodes T"
    and copy_works: "I T w \<Longrightarrow> l \<in> set (t_locations T) \<Longrightarrow> n \<in> set (t_nodes T) \<Longrightarrow> node_id n = loc_node l
      \<Longrightarrow> node_status n = NodeStatusHealthy \<Longrightarrow> target \<in> set (t_nodes T) \<Longrightarrow> node_status target = NodeStatusHealthy
      \<Longrightarrow> node_id target \<notin> set (replica_nodes T (loc_chunk l)) \<Longrightarrow> loc_chunk l \<in> chunk_id ` set (t_chunks T)
      \<Longrightarrow> \<exists>w1. copy (node_address target) (node_address n) (loc_chunk l) w = (Inr (), w1)
            \<and> I (T\<lparr>t_locations := t_locations T @ [\<lparr>loc_chunk = loc_chunk l, loc_node = node_id target\<rparr>]\<rparr>) w1"
begin

abbreviation ready :: "metad \<times> 'w \<Rightarrow> bool" where
  "ready st \<equiv> I (st_tables st) (snd st)"

lemma readyD:
  assumes "ready st"
  shows "no_faults e" "complete_scans e" "tables_wf (st_tables st)" "named_nodes (st_tables st)"
  using answers [OF assms] by simp_all

lemma copy_and_record_ok:
  assumes ready: "ready st" and l: "l \<in> set (t_locations (st_tables st))" "loc_chunk l \<in> chunk_id ` set (t_chunks (st_tables st))"
    and n: "n \<in> set (t_nodes (st_tables st))" "node_id n = loc_node l" "node_status n = NodeStatusHealthy"
    and target: "target \<in> set (t_nodes (st_tables st))" "node_status target = NodeStatusHealthy"
      "node_id target \<notin> set (replica_nodes (st_tables st) (loc_chunk l))"
  shows "st_tables (snd (copy_and_record e copy (loc_chunk l) target (node_address n) st)) =
      (st_tables st)\<lparr>t_locations := t_locations (st_tables st) @ [\<lparr>loc_chunk = loc_chunk l, loc_node = node_id target\<rparr>]\<rparr>"
    and "ready (snd (copy_and_record e copy (loc_chunk l) target (node_address n) st))"
proof -
  let ?l = "\<lparr>loc_chunk = loc_chunk l, loc_node = node_id target\<rparr>" and ?T = "st_tables st"
  let ?T1 = "?T\<lparr>t_locations := t_locations ?T @ [?l]\<rparr>"
  obtain w where cp: "copy (node_address target) (node_address n) (loc_chunk l) (snd st) = (Inr (), w)" and inv: "I ?T1 w"
    using copy_works [OF ready l(1) n target l(2)] by blast
  have "loc_key ?l \<notin> loc_key ` set (t_locations ?T)"
    using target(3) by (auto simp: replica_nodes_def loc_key_def image_iff)
  then have ins: "query_insert_chunk_location ?l ?T = Inr ?T1"
    using l(2) by (simp add: query_insert_chunk_location_def)
  obtain c where run: "snd (copy_and_record e copy (loc_chunk l) target (node_address n) st) =
      count_metric IncRepairSuccess ((fst (count_metric IncRepairAttempts st))\<lparr>md_conn := c\<rparr>, w)" "conn_tables c = ?T1"
    using cp ins by (simp add: copy_and_record_def on_world_def on_md_def on_conn_def AddChunkLocation_def mapErrR_def
        exec_insert_ok [OF readyD(1) [OF ready]])
  then show "st_tables (snd (copy_and_record e copy (loc_chunk l) target (node_address n) st)) = ?T1"
    "ready (snd (copy_and_record e copy (loc_chunk l) target (node_address n) st))"
    using inv by simp_all
qed

lemma repairChunk_ok:
  assumes ready: "ready st" and T: "st_tables st = T" and cid: "cid \<in> chunk_id ` set (t_chunks T)"
    and locs: "locs = query_select_chunk_locations p cid T"
  shows "if healthy_holders T cid \<noteq> [] \<and> (\<exists>n. healthy_node T n \<and> n \<notin> set (replica_nodes T cid))
      then repaired_once cid T (st_tables (snd (repairChunk e copy cid locs st)))
      else st_tables (snd (repairChunk e copy cid locs st)) = T"
    and "ready (snd (repairChunk e copy cid locs st))"
proof -
  note nf = readyD(1,2) [OF ready] and wf = readyD(3,4) [OF ready, unfolded T]
  obtain rs c where hr: "healthy_replicas e locs (md_conn (fst st)) = (rs, c)"
    by (cases "healthy_replicas e locs (md_conn (fst st))")
  then have c: "conn_tables c = T"
    by (metis healthy_replicas_tables snd_conv T)
  obtain q c2 where ls: "registry_ListHealthyNodes e c = (Inr (query_select_healthy_nodes q T), c2)"
    and c2: "conn_tables c2 = T"
    using ListHealthyNodes_ok [OF nf, of c] by (auto simp: registry_ListHealthyNodes_def c)
  let ?nodes = "query_select_healthy_nodes q T" and ?st2 = "((fst st)\<lparr>md_conn := c2\<rparr>, snd st)"
  have held: "loc_node ` set locs = set (replica_nodes T cid)"
    by (auto simp: locs replica_nodes_def)
  have rs: "rs = [] \<longleftrightarrow> healthy_holders T cid = []"
  proof -
    have "rs = [] \<longleftrightarrow> (\<forall>l \<in> set locs. \<not> healthy_node T (loc_node l))"
      using healthy_replicas_ok [OF nf, of "md_conn (fst st)" locs] wf(2) T hr by simp
    also have "\<dots> \<longleftrightarrow> (\<forall>n \<in> loc_node ` set locs. \<not> healthy_node T n)"
      by blast
    also have "\<dots> \<longleftrightarrow> healthy_holders T cid = []"
      by (simp add: held healthy_holders_def filter_empty_conv)
    finally show ?thesis .
  qed
  have run: "rs \<noteq> [] \<Longrightarrow> repairChunk e copy cid locs st =
      (case find (\<lambda>n. node_id n \<notin> set (replica_nodes T cid)) ?nodes of
         None \<Rightarrow> (Inr (), ?st2)
       | Some target \<Rightarrow> copy_and_record e copy cid target (snd (hd rs)) ?st2)"
    by (simp add: repairChunk_def hr ls held bindR_def on_md_def on_conn_def Let_def split: option.splits)
  have "(if healthy_holders T cid \<noteq> [] \<and> (\<exists>n. healthy_node T n \<and> n \<notin> set (replica_nodes T cid))
      then repaired_once cid T (st_tables (snd (repairChunk e copy cid locs st)))
      else st_tables (snd (repairChunk e copy cid locs st)) = T) \<and> ready (snd (repairChunk e copy cid locs st))"
  proof (cases "rs = []")
    case True
    then show ?thesis
      using rs ready by (simp add: repairChunk_def hr c T)
  next
    case False
    show ?thesis
    proof (cases "find (\<lambda>n. node_id n \<notin> set (replica_nodes T cid)) ?nodes")
      case None
      have none: "\<not> (\<exists>n. healthy_node T n \<and> n \<notin> set (replica_nodes T cid))"
        using None by (auto simp: find_None_iff healthy_node_def)
      have "snd (repairChunk e copy cid locs st) = ?st2"
        using False None run by simp
      then have "st_tables (snd (repairChunk e copy cid locs st)) = T" "ready (snd (repairChunk e copy cid locs st))"
        using ready c2 T by simp_all
      with none show ?thesis
        by auto
    next
      case (Some target)
      then have target: "target \<in> set ?nodes" "node_id target \<notin> set (replica_nodes T cid)"
        using find_SomeD [OF Some] by blast+
      then have healthy: "healthy_node T (node_id target)"
        using healthy_set [of q T] by blast
      obtain l n where l: "l \<in> set locs" and n: "n \<in> set (t_nodes T)" "node_id n = loc_node l" "node_status n = NodeStatusHealthy"
        and source: "snd (hd rs) = node_address n"
        using healthy_replicas_source [of "hd rs" e locs "md_conn (fst st)"] hr False T by fastforce
      have l2: "l \<in> set (t_locations T)" "loc_chunk l = cid"
        using l by (auto simp: locs)
      have st2: "st_tables ?st2 = T" "ready ?st2"
        using ready T c2 by simp_all
      have "target \<in> set (t_nodes T)" "node_status target = NodeStatusHealthy"
        using target(1) by simp_all
      note done1 = copy_and_record_ok [OF st2(2), unfolded st2(1), OF l2(1) _ n this, unfolded l2(2), OF cid target(2), folded source]
      then have "repaired_once cid T (st_tables (snd (repairChunk e copy cid locs st)))"
        using healthy target(2) False Some run by (auto simp: repaired_once_def)
      moreover have "ready (snd (repairChunk e copy cid locs st))"
        using done1(2) False Some run by simp
      ultimately show ?thesis
        using False rs healthy target(2) by auto
    qed
  qed
  then show "if healthy_holders T cid \<noteq> [] \<and> (\<exists>n. healthy_node T n \<and> n \<notin> set (replica_nodes T cid))
      then repaired_once cid T (st_tables (snd (repairChunk e copy cid locs st)))
      else st_tables (snd (repairChunk e copy cid locs st)) = T" "ready (snd (repairChunk e copy cid locs st))"
    by (rule conjunct1, rule conjunct2)
qed

lemma scan_loop_ok:
  "ready st \<Longrightarrow> distinct (map chunk_id cs) \<Longrightarrow> set cs \<subseteq> set (t_chunks (st_tables st)) \<Longrightarrow>
    replica_step rf (map chunk_id cs) (st_tables st) (st_tables (scan_loop e copy rf cs st)) \<and> ready (scan_loop e copy rf cs st)"
proof (induction cs arbitrary: st)
  case Nil
  then show ?case
    using readyD(3) by (auto intro: replica_step_refl)
next
  case (Cons c cs)
  let ?T = "st_tables st" and ?c = "chunk_id c"
  note nf = readyD(1,2) [OF Cons.prems(1)] and wf = readyD(3,4) [OF Cons.prems(1)]
  obtain p c1 where gl: "GetChunkLocations e ?c (md_conn (fst st)) = (Inr (query_select_chunk_locations p ?c ?T), c1)"
    and c1: "conn_tables c1 = ?T"
    using nf by (auto simp: GetChunkLocations_def mapErrR_def Query_ok)
  let ?locs = "query_select_chunk_locations p ?c ?T"
  obtain k c2 where ch: "count_healthy e ?locs c1 = (k, c2)"
    by (cases "count_healthy e ?locs c1")
  have k: "k = length (healthy_holders ?T ?c)"
    using count_healthy_ok [OF nf, of c1 ?locs] ch wf(2) healthy_count [OF refl] by (simp add: c1)
  have c2: "conn_tables c2 = ?T"
    using ch c1 by (metis count_healthy_tables snd_conv)
  let ?st2 = "((fst st)\<lparr>md_conn := c2\<rparr>, snd st)"
  let ?st3 = "if int k < rf then snd (repairChunk e copy ?c ?locs ?st2) else ?st2"
  have run: "scan_loop e copy rf (c # cs) st = scan_loop e copy rf cs ?st3"
    using gl ch by (simp add: on_md_def on_conn_def)
  have cid: "?c \<in> chunk_id ` set (t_chunks ?T)"
    using Cons.prems(3) by auto
  have ready2: "ready ?st2" "st_tables ?st2 = ?T"
    using Cons.prems(1) c2 by simp_all
  note repair = repairChunk_ok [OF ready2 cid refl, of p]
  have ready3: "ready ?st3"
    using repair(2) ready2(1) by simp
  have step: "replica_step rf [?c] ?T (st_tables ?st3)"
  proof (cases "repairable rf ?T ?c")
    case True
    then have "repaired_once ?c ?T (st_tables ?st3)"
      using repair(1) k by (simp add: repairable_def)
    from repaired_once_step [OF this wf(1) cid True] show ?thesis .
  next
    case False
    then have "st_tables ?st3 = ?T"
      using repair(1) k c2 by (auto simp: repairable_def split: if_splits)
    with False wf(1) show ?thesis
      by (auto intro: replica_step_refl)
  qed
  then have "t_chunks (st_tables ?st3) = t_chunks ?T"
    by (simp only: replica_step_def only_locations_def)
  then have rest: "replica_step rf (map chunk_id cs) (st_tables ?st3) (st_tables (scan_loop e copy rf cs ?st3))"
    "ready (scan_loop e copy rf cs ?st3)"
    using Cons.IH [OF ready3] Cons.prems(2,3) by simp_all
  have "replica_step rf (?c # map chunk_id cs) ?T (st_tables (scan_loop e copy rf cs ?st3))"
    by (rule replica_step_trans [OF step rest(1)]) (use Cons.prems(2) in simp)
  with rest(2) show ?case
    unfolding run list.map by blast
qed

lemma scanOnce_step:
  assumes "ready st"
  shows "\<exists>cids. set cids = committed_ids (st_tables st)
      \<and> replica_step rf cids (st_tables st) (st_tables (scanOnce e copy rf st))"
    and "ready (scanOnce e copy rf st)"
proof -
  let ?T = "st_tables st"
  obtain p c where ls: "ListCommittedChunks e (md_conn (fst st)) = (Inr (query_select_committed_chunks p ?T), c)"
    and c: "conn_tables c = ?T"
    using readyD(1,2) [OF assms] by (auto simp: ListCommittedChunks_def mapErrR_def Query_ok)
  let ?cs = "query_select_committed_chunks p ?T" and ?st1 = "((fst st)\<lparr>md_conn := c\<rparr>, snd st)"
  have run: "scanOnce e copy rf st = scan_loop e copy rf ?cs ?st1"
    using ls by (simp add: scanOnce_def on_md_def on_conn_def)
  have "replica_step rf (map chunk_id ?cs) (st_tables ?st1) (st_tables (scan_loop e copy rf ?cs ?st1)) \<and> ready (scan_loop e copy rf ?cs ?st1)"
    using assms readyD(3) [OF assms] by (intro scan_loop_ok) (auto simp: c intro: distinct_select_committed)
  moreover have "set (map chunk_id ?cs) = committed_ids ?T"
    by (simp add: committed_ids_def)
  ultimately show "\<exists>cids. set cids = committed_ids ?T \<and> replica_step rf cids ?T (st_tables (scanOnce e copy rf st))"
    "ready (scanOnce e copy rf st)"
    unfolding run by (metis c fst_conv metad.select_convs(1) metad.surjective metad.update_convs(1), blast)
qed

lemma scanOnce_only_locations:
  assumes "ready st"
  shows "only_locations (st_tables st) (st_tables (scanOnce e copy rf st))"
    and "committed_ids (st_tables (scanOnce e copy rf st)) = committed_ids (st_tables st)"
proof -
  obtain cids where "replica_step rf cids (st_tables st) (st_tables (scanOnce e copy rf st))"
    using scanOnce_step [OF assms] by blast
  then show only: "only_locations (st_tables st) (st_tables (scanOnce e copy rf st))"
    by (simp_all only: replica_step_def)
  show "committed_ids (st_tables (scanOnce e copy rf st)) = committed_ids (st_tables st)"
    using only by (simp only: only_locations_def committed_ids_def set_select_committed)
qed

lemma scanOnce_adds:
  assumes "ready st"
  shows "if cid \<in> committed_ids (st_tables st) \<and> repairable rf (st_tables st) cid
    then one_more (st_tables st) cid (st_tables (scanOnce e copy rf st))
    else replica_nodes (st_tables (scanOnce e copy rf st)) cid = replica_nodes (st_tables st) cid"
  using scanOnce_step(1) [OF assms, of rf] unfolding replica_step_def by metis

text \<open>Repeated cycles.\<close>

lemma healthy_holders_step:
  assumes ready: "ready st" and cid: "cid \<in> committed_ids (st_tables st)" and some: "healthy_holders (st_tables st) cid \<noteq> []"
    and enough: "rf \<le> int (card {n. healthy_node (st_tables st) n})"
  shows "int (length (healthy_holders (st_tables (scanOnce e copy rf st)) cid)) =
    (if int (length (healthy_holders (st_tables st) cid)) < rf
     then int (length (healthy_holders (st_tables st) cid)) + 1
     else int (length (healthy_holders (st_tables st) cid)))"
proof -
  let ?T = "st_tables st" and ?T1 = "st_tables (scanOnce e copy rf st)"
  have h: "healthy_node ?T1 = healthy_node ?T"
    by (rule only_locations_healthy [OF scanOnce_only_locations(1) [OF ready]])
  note step = scanOnce_adds [OF ready, of cid rf]
  show ?thesis
  proof (cases "int (length (healthy_holders ?T cid)) < rf")
    case True
    then have "repairable rf ?T cid"
      using some holder_missing [OF readyD(3) [OF ready] True enough] by (simp add: repairable_def)
    with step cid obtain n where "healthy_node ?T n" "replica_nodes ?T1 cid = replica_nodes ?T cid @ [n]"
      by (auto simp: one_more_def)
    then show ?thesis
      using True by (simp add: healthy_holders_def h)
  next
    case False
    then have "\<not> repairable rf ?T cid"
      by (simp add: repairable_def)
    with step False show ?thesis
      by (simp add: healthy_holders_def h)
  qed
qed

lemma scans_keep:
  assumes "ready st"
  shows "ready (((scanOnce e copy rf) ^^ k) st)"
    and "only_locations (st_tables st) (st_tables (((scanOnce e copy rf) ^^ k) st))"
    and "committed_ids (st_tables (((scanOnce e copy rf) ^^ k) st)) = committed_ids (st_tables st)"
proof -
  have "ready (((scanOnce e copy rf) ^^ k) st) \<and> only_locations (st_tables st) (st_tables (((scanOnce e copy rf) ^^ k) st))
      \<and> committed_ids (st_tables (((scanOnce e copy rf) ^^ k) st)) = committed_ids (st_tables st)"
  proof (induction k)
    case 0
    then show ?case
      using assms by (simp add: only_locations_def)
  next
    case (Suc k)
    let ?st = "((scanOnce e copy rf) ^^ k) st"
    from Suc have ready: "ready ?st" and only: "only_locations (st_tables st) (st_tables ?st)"
      and ids: "committed_ids (st_tables ?st) = committed_ids (st_tables st)"
      by blast+
    from scanOnce_step(2) [OF ready] only_locations_trans [OF only scanOnce_only_locations(1) [OF ready]]
      scanOnce_only_locations(2) [OF ready] ids
    show ?case
      unfolding funpow.simps comp_apply by simp
  qed
  then show "ready (((scanOnce e copy rf) ^^ k) st)"
    "only_locations (st_tables st) (st_tables (((scanOnce e copy rf) ^^ k) st))"
    "committed_ids (st_tables (((scanOnce e copy rf) ^^ k) st)) = committed_ids (st_tables st)"
    by blast+
qed

lemma scans_reach:
  assumes ready: "ready st" and cid: "cid \<in> committed_ids (st_tables st)" and some: "healthy_holders (st_tables st) cid \<noteq> []"
    and enough: "rf \<le> int (card {n. healthy_node (st_tables st) n})"
  shows "min rf (1 + int k) \<le> int (length (healthy_holders (st_tables (((scanOnce e copy rf) ^^ k) st)) cid))
    \<and> healthy_holders (st_tables (((scanOnce e copy rf) ^^ k) st)) cid \<noteq> []"
proof (induction k)
  case 0
  have "1 \<le> int (length (healthy_holders (st_tables st) cid))"
    using some by (cases "healthy_holders (st_tables st) cid") auto
  then have "min rf (1 + int 0) \<le> int (length (healthy_holders (st_tables st) cid))"
    by linarith
  with some show ?case
    by simp
next
  case (Suc k)
  let ?st = "((scanOnce e copy rf) ^^ k) st"
  note kept = scans_keep [OF ready, where rf = rf and k = k]
  have "int (length (healthy_holders (st_tables (scanOnce e copy rf ?st)) cid)) =
    (if int (length (healthy_holders (st_tables ?st) cid)) < rf
     then int (length (healthy_holders (st_tables ?st) cid)) + 1
     else int (length (healthy_holders (st_tables ?st) cid)))"
    using Suc cid enough kept
    by (intro healthy_holders_step) (simp_all add: only_locations_healthy)
  then have "min rf (1 + int (Suc k)) \<le> int (length (healthy_holders (st_tables (scanOnce e copy rf ?st)) cid))"
    "0 < int (length (healthy_holders (st_tables (scanOnce e copy rf ?st)) cid))"
    using Suc by (auto simp: min_def split: if_splits)
  then show ?case
    by auto
qed

end

subsection \<open>Witnesses\<close>

definition one_replica :: metad where
  "one_replica = \<lparr>md_conn = \<lparr>conn_tables = \<lparr>foreign_keys = True,
     t_files = [\<lparr>file_id = ''f'', file_name = ''a'', file_size = 4, file_status = FileStatusCommitted, file_created = 1\<rparr>],
     t_chunks = [\<lparr>chunk_id = ''c'', chunk_file = ''f'', chunk_index = 0, chunk_size = 4\<rparr>],
     t_locations = [\<lparr>loc_chunk = ''c'', loc_node = ''n1''\<rparr>], t_nodes = three_nodes, t_sessions = []\<rparr>,
     conn_tick = 0\<rparr>, md_metrics = zero_metrics\<rparr>"

definition counting_copy :: "nat copy_rpc" where
  "counting_copy t c k = (\<lambda>w. (Inr (), Suc w))"

lemma one_replica_facts:
  "no_faults plain_engine" "tables_wf (md_tables one_replica)" "named_nodes (md_tables one_replica)"
  "''c'' \<in> committed_ids (md_tables one_replica)" "healthy_holders (md_tables one_replica) ''c'' = [''n1'']"
  "{n. healthy_node (md_tables one_replica) n} = {''n1'', ''n2'', ''n3''}"
  "replica_nodes (md_tables one_replica) ''c'' = [''n1'']"
proof -
  show "no_faults plain_engine"
    by simp
  show "tables_wf (md_tables one_replica)"
    using three_nodes_distinct by (simp add: tables_wf_def one_replica_def)
  show "named_nodes (md_tables one_replica)"
    by (simp add: named_nodes_def one_replica_def three_nodes_def)
  show "''c'' \<in> committed_ids (md_tables one_replica)"
    by (simp add: committed_ids_def one_replica_def query_select_committed_chunks_def reorder_def)
  show healthy: "{n. healthy_node (md_tables one_replica) n} = {''n1'', ''n2'', ''n3''}"
    by (auto simp: healthy_node_def one_replica_def three_nodes_def)
  show held: "replica_nodes (md_tables one_replica) ''c'' = [''n1'']"
    by (simp add: replica_nodes_def one_replica_def)
  have "healthy_node (md_tables one_replica) ''n1''"
    using healthy by blast
  then show "healthy_holders (md_tables one_replica) ''c'' = [''n1'']"
    by (simp add: healthy_holders_def held)
qed

theorem scanOnce_safe_witness:
  "\<exists>new. st_tables (scanOnce truncating_engine counting_copy 2 (one_replica, 0)) =
      (md_tables one_replica)\<lparr>t_locations := t_locations (md_tables one_replica) @ new\<rparr>"
  using scanOnce_safe [of "(one_replica, 0)" truncating_engine counting_copy 2] one_replica_facts(2)
  by auto

end
