(* ===== verification/Cluster_Repair.thy ===== *)
theory Cluster_Repair
  imports Cluster Repair_Progress
begin

text \<open>
  The scanner of the metadata daemon over the storage nodes: \<open>scanOnce\<close> with the node client of
  \<open>internal/node/client.go\<close> as its copy RPC. The locale states what the scanner relies on; the
  interpretation shows that the nodes provide it under any failures, so that a recorded replica
  really is one.
\<close>

subsection \<open>The interface the scanner relies on\<close>

locale copy_contract =
  fixes copy :: "'w copy_rpc"
    and I :: "tables \<Rightarrow> 'w \<Rightarrow> bool"
  assumes copy_law: "I T w \<Longrightarrow> l \<in> set (t_locations T) \<Longrightarrow> n \<in> set (t_nodes T) \<Longrightarrow> node_id n = loc_node l
      \<Longrightarrow> target \<in> set (t_nodes T) \<Longrightarrow> copy (node_address target) (node_address n) (loc_chunk l) w = (r, w1)
      \<Longrightarrow> I T w1 \<and> (\<forall>u T1. r = Inr u
            \<longrightarrow> query_insert_chunk_location \<lparr>loc_chunk = loc_chunk l, loc_node = node_id target\<rparr> T = Inr T1 \<longrightarrow> I T1 w1)"
begin

abbreviation holds :: "metad \<times> 'w \<Rightarrow> bool" where
  "holds st \<equiv> I (st_tables st) (snd st)"

lemma copy_and_record_holds:
  assumes "holds st" "l \<in> set (t_locations (st_tables st))" "n \<in> set (t_nodes (st_tables st))" "node_id n = loc_node l"
    and "target \<in> set (t_nodes (st_tables st))"
  shows "holds (snd (copy_and_record e copy (loc_chunk l) target (node_address n) st))"
proof -
  let ?st0 = "count_metric IncRepairAttempts st"
  obtain r w where cp: "copy (node_address target) (node_address n) (loc_chunk l) (snd st) = (r, w)"
    by (cases "copy (node_address target) (node_address n) (loc_chunk l) (snd st)")
  note law = copy_law [OF assms cp]
  obtain q c where add: "AddChunkLocation e (loc_chunk l) (node_id target) (md_conn (fst ?st0)) = (q, c)"
    by (cases "AddChunkLocation e (loc_chunk l) (node_id target) (md_conn (fst ?st0))")
  have "I (conn_tables c) w" if "r = Inr u" for u
    using law that add by (cases q) (auto dest: AddChunkLocation_InrD AddChunkLocation_InlD)
  with cp add law show ?thesis
    by (auto simp: copy_and_record_def on_world_def on_md_def on_conn_def split: sum.splits)
qed

lemma repairChunk_holds:
  assumes "holds st" "set locs \<subseteq> {l \<in> set (t_locations (st_tables st)). loc_chunk l = cid}"
  shows "holds (snd (repairChunk e copy cid locs st))"
proof -
  obtain rs c where hr: "healthy_replicas e locs (md_conn (fst st)) = (rs, c)"
    by (cases "healthy_replicas e locs (md_conn (fst st))")
  then have c: "conn_tables c = st_tables st"
    by (metis healthy_replicas_tables snd_conv)
  obtain q c2 where ls: "registry_ListHealthyNodes e c = (q, c2)"
    by (cases "registry_ListHealthyNodes e c")
  then have c2: "conn_tables c2 = st_tables st"
    by (metis registry_ListHealthyNodes_tables c snd_conv)
  let ?st2 = "((fst st)\<lparr>md_conn := c2\<rparr>, snd st)"
  have copied: "holds (snd (copy_and_record e copy cid target (snd (hd rs)) ?st2))"
    if q: "q = Inr nodes" and rs: "rs \<noteq> []" and t: "find (\<lambda>n. node_id n \<notin> loc_node ` set locs) nodes = Some target" for nodes target
  proof -
    have "target \<in> set (t_nodes (st_tables st))"
      using t q ls c by (auto simp: registry_ListHealthyNodes_def dest!: ListHealthyNodes_InrD in_set_takeD find_SomeD)
    moreover obtain l n where "l \<in> set locs" "n \<in> set (t_nodes (st_tables st))" "node_id n = loc_node l" "snd (hd rs) = node_address n"
      using healthy_replicas_source [of "hd rs" e locs "md_conn (fst st)"] hr rs by fastforce
    ultimately show ?thesis
      using copy_and_record_holds [of ?st2 l n target e] assms c2 by auto
  qed
  show ?thesis
    using assms(1) hr ls c c2 copied
    by (auto simp: repairChunk_def Let_def bindR_def on_md_def on_conn_def split: sum.splits option.splits)
qed

lemma scan_loop_holds: "holds st \<Longrightarrow> holds (scan_loop e copy rf cs st)"
proof (induction cs arbitrary: st)
  case (Cons c cs)
  obtain q c1 where gl: "GetChunkLocations e (chunk_id c) (md_conn (fst st)) = (q, c1)"
    by (cases "GetChunkLocations e (chunk_id c) (md_conn (fst st))")
  then have c1: "conn_tables c1 = st_tables st"
    by (metis read_tables(6) snd_conv)
  show ?case
  proof (cases q)
    case Inl
    with Cons gl c1 show ?thesis
      by (simp add: on_md_def on_conn_def)
  next
    case (Inr locs)
    obtain k c2 where ch: "count_healthy e locs c1 = (k, c2)"
      by (cases "count_healthy e locs c1")
    then have c2: "conn_tables c2 = st_tables st"
      by (metis c1 count_healthy_tables snd_conv)
    let ?st2 = "((fst st)\<lparr>md_conn := c2\<rparr>, snd st)"
    have "set locs \<subseteq> {l \<in> set (t_locations (st_tables st)). loc_chunk l = chunk_id c}"
      using gl Inr by (auto dest!: GetChunkLocations_InrD in_set_takeD)
    then have "holds (snd (repairChunk e copy (chunk_id c) locs ?st2))"
      using Cons.prems c2 by (intro repairChunk_holds) simp_all
    with Cons Inr gl ch c2 show ?thesis
      by (simp add: on_md_def on_conn_def Let_def)
  qed
qed simp

lemma scanOnce_holds: "holds st \<Longrightarrow> holds (scanOnce e copy rf st)"
proof -
  assume holds: "holds st"
  obtain q c where lc: "ListCommittedChunks e (md_conn (fst st)) = (q, c)"
    by (cases "ListCommittedChunks e (md_conn (fst st))")
  then have "conn_tables c = st_tables st"
    by (metis read_tables(5) snd_conv)
  with holds lc scan_loop_holds show ?thesis
    by (auto simp: scanOnce_def on_md_def on_conn_def split: sum.splits)
qed

lemma scans_hold: "holds st \<Longrightarrow> holds (fold (\<lambda>e. scanOnce e copy rf) es st)"
  by (induction es arbitrary: st) (simp_all add: scanOnce_holds)

end

subsection \<open>The node client provides it\<close>

text \<open>
  Every recorded replica on a registered node is served there, by a daemon that reading would tell the
  described bytes; chunk IDs are valid and node IDs are unique.
\<close>

definition replicas_hold :: "description \<Rightarrow> tables \<Rightarrow> cluster \<Rightarrow> bool" where
  "replicas_hold descr T w \<longleftrightarrow> cluster_safe w \<and> distinct (map node_id (t_nodes T))
     \<and> (\<forall>l \<in> set (t_locations T). valid_id (loc_chunk l)
          \<and> (\<forall>n \<in> set (t_nodes T). node_id n = loc_node l \<longrightarrow> serves descr w (node_address n) (loc_chunk l)))"

lemma replicas_hold_still:
  assumes "replicas_hold descr T w" "still_serves descr w w1"
  shows "replicas_hold descr T w1"
  using assms unfolding replicas_hold_def still_serves_def by blast

lemma replicas_hold_insert:
  assumes "replicas_hold descr T w" "query_insert_chunk_location \<lparr>loc_chunk = cid, loc_node = node_id target\<rparr> T = Inr T1"
    and "target \<in> set (t_nodes T)" "valid_id cid" "serves descr w (node_address target) cid"
  shows "replicas_hold descr T1 w"
proof -
  have T1: "T1 = T\<lparr>t_locations := t_locations T @ [\<lparr>loc_chunk = cid, loc_node = node_id target\<rparr>]\<rparr>"
    using assms(2) by (auto simp: query_insert_chunk_location_def split: if_splits)
  have "n = target" if "n \<in> set (t_nodes T)" "node_id n = node_id target" for n
    using assms(1,3) that distinct_map_inj_on_set [of node_id "t_nodes T"] unfolding replicas_hold_def by (metis inj_onD distinct_map)
  with assms show ?thesis
    unfolding T1 replicas_hold_def by (auto simp: serves_def)
qed

interpretation nodes: copy_contract "client_CopyChunk net" "replicas_hold descr" for net descr
proof
  fix T w l n target r w1
  assume hold: "replicas_hold descr T w" and l: "l \<in> set (t_locations T)" and n: "n \<in> set (t_nodes T)" "node_id n = loc_node l"
    and t: "target \<in> set (t_nodes T)"
    and run: "client_CopyChunk net (node_address target) (node_address n) (loc_chunk l) w = (r, w1)"
  have vid: "valid_id (loc_chunk l)" and src: "serves descr w (node_address n) (loc_chunk l)" and safe: "cluster_safe w"
    using hold l n unfolding replicas_hold_def by blast+
  note copied = client_CopyChunk_still_serves [OF run safe vid src]
  have still: "replicas_hold descr T w1"
    using replicas_hold_still [OF hold] copied by blast
  with replicas_hold_insert [OF still _ t vid] copied
  show "replicas_hold descr T w1 \<and> (\<forall>u T1. r = Inr u
      \<longrightarrow> query_insert_chunk_location \<lparr>loc_chunk = loc_chunk l, loc_node = node_id target\<rparr> T = Inr T1 \<longrightarrow> replicas_hold descr T1 w1)"
    by blast
qed

end
