(* ===== verification/Cluster_Properties.thy ===== *)
theory Cluster_Properties
  imports Cluster_Repair
begin

text \<open>
  The claims about the storage daemon's services and about the cluster, with an example of two nodes.
\<close>

subsection \<open>The storage service\<close>

text \<open>
  C5. The storage service is a map from chunk IDs to bytes: for a store in order and any sequence of
  PutChunk, GetChunk and DeleteChunk requests with valid IDs, every answer, status codes and messages
  included, is the one that the abstract map gives, and the files hold the contents of that map.
\<close>

theorem storage_service_refines:
  assumes "storaged_ok os s" "\<forall>q \<in> set qs. valid_id (request_id q)"
  shows "fst (serve_all (serve_with (server_PutChunk os None) (server_GetChunk os None) (server_DeleteChunk os)) qs s)
      = fst (serve_all serve_map qs (on_valid valid_id (sd_contents s)))
    \<and> on_valid valid_id (sd_contents (snd (serve_all (serve_with (server_PutChunk os None) (server_GetChunk os None)
          (server_DeleteChunk os)) qs s)))
      = snd (serve_all serve_map qs (on_valid valid_id (sd_contents s)))"
  using storage.serve_all_simulates [OF assms] by blast

subsection \<open>Copying a chunk\<close>

definition tls_works :: "tls_files \<Rightarrow> bool" where
  "tls_works tls \<longleftrightarrow> tls_keypair tls = None \<and> (\<exists>pem. tls_ca_pem tls = Inr pem \<and> tls_append tls pem)"

definition dials :: "net_env \<Rightarrow> string \<Rightarrow> bool" where
  "dials net addr \<longleftrightarrow> (case SplitHostPort addr of Inl err \<Rightarrow> False | Inr (host, port) \<Rightarrow> net_dial net addr host = None)"

definition net_works :: "net_env \<Rightarrow> string \<Rightarrow> string \<Rightarrow> bool" where
  "net_works net target source \<longleftrightarrow> (\<forall>t. net_request net t = None \<and> net_reply net t = None \<and> net_ctx net t = None)
     \<and> tls_works (net_metad_tls net) \<and> tls_works (net_tls net target) \<and> dials net target \<and> dials net source"

lemma load_tls_works: "tls_works tls \<Longrightarrow> load_tls wrap flat tls = Inr ()"
  by (auto simp: tls_works_def load_tls_def)

lemma dialsE:
  assumes "dials net addr"
  obtains host port where "SplitHostPort addr = Inr (host, port)" "net_dial net addr host = None" "addr \<noteq> []"
proof -
  have "SplitHostPort [] = Inl (addr_error [] ''missing port in address'')"
    by (simp add: SplitHostPort_def Let_def)
  then have "addr \<noteq> []"
    using assms by (auto simp: dials_def)
  with assms that show thesis
    by (auto simp: dials_def split: sum.splits)
qed

lemma rpc_works:
  assumes "net_request net (cl_calls w) = None" "net_reply net (cl_calls w) = None" "cl_daemons w addr \<noteq> None"
  shows "rpc net addr h w = h (w\<lparr>cl_calls := Suc (cl_calls w)\<rparr>)"
  using assms by (auto simp: rpc_def Let_def case_prod_beta)

lemma node_CopyChunk_works:
  assumes net: "net_works net target source" and i: "i \<noteq> []" and w: "cl_daemons w target = Some t" "cl_daemons w source = Some s"
  shows "node_CopyChunk net target i source w =
    (let w1 = w\<lparr>cl_calls := Suc (cl_calls w)\<rparr>; (q, s1) = server_GetChunk (net_os net source) None i s;
         w2 = w1\<lparr>cl_daemons := (cl_daemons w)(source \<mapsto> s1)\<rparr>
     in case q of
          Inl err \<Rightarrow> (Inl (status_error GrpcInternal ''failed to get chunk from source'' err), w2)
        | Inr data \<Rightarrow> (case on_daemon net target (on_chunks (Put (net_os net target) None i (Inr data))) w2 of
              (Inl err, w3) \<Rightarrow> (Inl (status_error GrpcInternal ''failed to put chunk in local store'' err), w3)
            | (Inr u, w3) \<Rightarrow> (Inr True, w3)))"
proof -
  from net obtain host port where src: "SplitHostPort source = Inr (host, port)" "net_dial net source host = None" "source \<noteq> []"
    unfolding net_works_def by (blast elim: dialsE)
  show ?thesis
    using net src i w
    by (auto simp: node_CopyChunk_def net_works_def load_tls_works rpc_works on_daemon_def bindR_def mapErrR_def Let_def
        split: prod.splits sum.splits)
qed

lemma client_CopyChunk_works:
  assumes net: "net_works net target source" and w: "cl_daemons w target \<noteq> None"
  shows "client_CopyChunk net target source i w =
      (case node_CopyChunk net target i source (w\<lparr>cl_calls := Suc (cl_calls w)\<rparr>) of
         (Inl err, w1) \<Rightarrow> (Inl (errorf_w ''CopyChunk RPC failed'' err), w1)
       | (Inr True, w1) \<Rightarrow> (Inr (), w1)
       | (Inr False, w1) \<Rightarrow> (Inl (PlainErr (''CopyChunk failed on target node '' @ target)), w1))"
proof -
  from net obtain host port where "SplitHostPort target = Inr (host, port)" "net_dial net target host = None"
    unfolding net_works_def by (blast elim: dialsE)
  moreover have "rpc net target h w = h (w\<lparr>cl_calls := Suc (cl_calls w)\<rparr>)" for h :: "(cluster, go_error, bool) op"
    using net w by (intro rpc_works) (simp_all add: net_works_def)
  ultimately show ?thesis
    using net
    by (auto simp: client_CopyChunk_def net_works_def load_tls_works bindR_def mapErrR_def split: prod.splits sum.splits)
qed

text \<open>
  C8. Copying decides on the contents: over a working network, between two stores in order, the copy
  succeeds exactly when the source has the chunk and the target has none under this ID or one with
  the same digest and length; then the target holds the source's bytes if it had none. Nothing else
  changes on the target, and nothing on the source.
\<close>

theorem CopyChunk_decides:
  assumes "net_works net target source" "valid_id i" "i \<noteq> []" "target \<noteq> source"
    and "cl_daemons w target = Some t" "storaged_ok (net_os net target) t"
    and "cl_daemons w source = Some s" "storaged_ok (net_os net source) s"
  shows "\<exists>r w1 t1 s1. client_CopyChunk net target source i w = (r, w1)
    \<and> ((\<exists>u. r = Inr u) \<longleftrightarrow> (\<exists>x. sd_contents s i = Some x \<and> (\<forall>y. sd_contents t i = Some y \<longrightarrow> same_header y x)))
    \<and> cl_daemons w1 target = Some t1 \<and> cl_daemons w1 source = Some s1 \<and> sd_contents s1 = sd_contents s
    \<and> (\<forall>j. valid_id j \<longrightarrow> sd_contents t1 j = (if j = i \<and> sd_contents t i = None then sd_contents s i else sd_contents t j))"
proof -
  let ?w = "w\<lparr>cl_calls := Suc (cl_calls w)\<rparr>"
  note run = client_CopyChunk_works [OF assms(1), of w i, simplified assms(5), simplified]
  obtain q s1 where get: "server_GetChunk (net_os net source) None i s = (q, s1)"
    by (cases "server_GetChunk (net_os net source) None i s")
  have q: "q = get_verdict i (sd_contents s i)" and s1: "sd_contents s1 = sd_contents s"
    using get_follows [OF assms(8,2)] get by simp_all
  note node = node_CopyChunk_works [OF assms(1,3), of ?w t s, unfolded get, simplified]
  show ?thesis
  proof (cases "sd_contents s i")
    case None
    then have "q = Inl (StatusErr GrpcNotFound ''not found'')"
      using q assms(3) by (simp add: get_verdict_def)
    with run node assms(4,5,7) None s1 show ?thesis
      by (simp add: Let_def)
  next
    case (Some x)
    then have q: "q = Inr x"
      using q assms(3) by (simp add: get_verdict_def)
    obtain r c where put: "Put (net_os net target) None i (Inr x) (sd_chunks t) = (r, c)"
      by (cases "Put (net_os net target) None i (Inr x) (sd_chunks t)")
    note eff = Put_contents [OF assms(6,2) put, of "t\<lparr>sd_chunks := c\<rparr>", simplified]
    have "length x \<le> maxSize"
      using contents_bound [OF _ assms(2) Some] assms(8) by (simp add: storaged_ok_def)
    with eff run node assms(4,5,7) Some s1 q put show ?thesis
      by (auto simp: Let_def on_daemon_def on_chunks_def split: sum.splits option.splits if_splits)
  qed
qed

subsection \<open>Repair over the cluster\<close>

text \<open>
  C4. The recorded replicas are real: if every recorded replica on a registered node is served there
  with its chunk's digest and length, then so it is after any number of repair cycles, whatever fails in
  the database, on the network and in the nodes' operating systems; and a GetChunk there that returns
  data returns data of that digest and length.
\<close>

theorem repaired_replicas_serve:
  assumes "replicas_hold descr (st_tables st) (snd st)"
    and "st1 = fold (\<lambda>e. scanOnce e (client_CopyChunk net) rf) es st"
    and "l \<in> set (t_locations (st_tables st1))" "n \<in> set (t_nodes (st_tables st1))" "node_id n = loc_node l"
  shows "\<exists>s x. cl_daemons (snd st1) (node_address n) = Some s \<and> sd_contents s (loc_chunk l) = Some x
    \<and> descr (loc_chunk l) = (sha256 x, length x)
    \<and> (\<forall>os ctx data s1. server_GetChunk os ctx (loc_chunk l) s = (Inr data, s1) \<longrightarrow> data = x)"
proof -
  have hold: "replicas_hold descr (st_tables st1) (snd st1)"
    unfolding assms(2) by (rule nodes.scans_hold [OF assms(1)])
  then have vid: "valid_id (loc_chunk l)" and srv: "serves descr (snd st1) (node_address n) (loc_chunk l)"
    and safe: "cluster_safe (snd st1)"
    using assms(3-5) unfolding replicas_hold_def by blast+
  then obtain s x where s: "cl_daemons (snd st1) (node_address n) = Some s" "sd_contents s (loc_chunk l) = Some x"
    "describes descr (loc_chunk l) x"
    by (auto simp: serves_def node_serves_def)
  then have "daemon_safe s"
    using safe by (simp add: cluster_safe_def)
  then have "data = x" if "server_GetChunk os ctx (loc_chunk l) s = (Inr data, s1)" for os ctx data s1
    using GetChunk_safe [OF that _ vid] s(2) by simp
  with s show ?thesis
    by (auto simp: describes_def)
qed

subsection \<open>An example\<close>

text \<open>Two nodes on the example store; the first has a chunk, and the metadata records only that replica.\<close>

definition empty_node :: storaged where
  "empty_node = \<lparr>sd_chunks = small_store, sd_metrics = \<lparr>chunksStoredTotal = 0, chunksServedTotal = 0, availableBytes = 0\<rparr>\<rparr>"

definition full_node :: storaged where
  "full_node = snd (server_PutChunk plain_os None ''chunk1'' [1, 2, 3] empty_node)"

definition plain_tls :: tls_files where
  "plain_tls = \<lparr>tls_keypair = None, tls_ca_pem = Inr [], tls_append = (\<lambda>pem. True)\<rparr>"

definition plain_net :: net_env where
  "plain_net = \<lparr>net_tls = (\<lambda>addr. plain_tls), net_metad_tls = plain_tls, net_dial = (\<lambda>addr host. None),
     net_absent = StatusErr GrpcUnavailable, net_request = (\<lambda>t. None), net_reply = (\<lambda>t. None),
     net_ctx = (\<lambda>t. None), net_os = (\<lambda>addr. plain_os)\<rparr>"

definition two_nodes :: cluster where
  "two_nodes = \<lparr>cl_daemons = [''a:1'' \<mapsto> full_node, ''b:1'' \<mapsto> empty_node], cl_calls = 0\<rparr>"

definition two_node_metad :: metad where
  "two_node_metad = \<lparr>md_conn = \<lparr>conn_tables = \<lparr>foreign_keys = True,
     t_files = [\<lparr>file_id = ''f'', file_name = ''a'', file_size = 3, file_status = FileStatusCommitted, file_created = 1\<rparr>],
     t_chunks = [\<lparr>chunk_id = ''chunk1'', chunk_file = ''f'', chunk_index = 0, chunk_size = 3\<rparr>],
     t_locations = [\<lparr>loc_chunk = ''chunk1'', loc_node = ''n1''\<rparr>],
     t_nodes = [\<lparr>node_id = ''n1'', node_address = ''a:1'', node_capacity = 10, node_available = 0,
         node_status = NodeStatusHealthy, node_heartbeat = 1\<rparr>,
       \<lparr>node_id = ''n2'', node_address = ''b:1'', node_capacity = 10, node_available = 10,
         node_status = NodeStatusHealthy, node_heartbeat = 1\<rparr>],
     t_sessions = []\<rparr>, conn_tick = 0\<rparr>, md_metrics = zero_metrics\<rparr>"

lemma small_stored: "stored small_ds (dk_nodes small_disk) i = None"
  by (auto simp: stored_def small_disk_def)

lemma empty_node_ok: "storaged_ok plain_os empty_node" "sd_contents empty_node i = None"
  using small_layout small_stored
  by (simp_all add: storaged_ok_def intact_def sd_contents_def empty_node_def)

lemma full_node_ok: "storaged_ok plain_os full_node" "sd_contents full_node ''chunk1'' = Some [1, 2, 3]"
proof -
  note put = put_follows [OF empty_node_ok(1) chunk1_valid, of "[1, 2, 3]", folded full_node_def]
  from put show "storaged_ok plain_os full_node"
    by blast
  have "on_valid valid_id (sd_contents full_node) ''chunk1'' = Some [1, 2, 3]"
    using put empty_node_ok(2) chunk1_valid by (simp add: put_map_def put_verdict_def maxSize_def)
  with chunk1_valid show "sd_contents full_node ''chunk1'' = Some [1, 2, 3]"
    by simp
qed

lemma plain_dials: "dials plain_net ''a:1''" "dials plain_net ''b:1''"
  by (simp_all add: dials_def SplitHostPort_def Let_def after_last_def before_char_def plain_net_def)

lemma plain_net_works: "net_works plain_net ''b:1'' ''a:1''"
  using plain_dials by (simp add: net_works_def tls_works_def) (simp add: plain_net_def plain_tls_def)

theorem storage_service_refines_witness:
  "fst (serve_all (serve_with (server_PutChunk plain_os None) (server_GetChunk plain_os None) (server_DeleteChunk plain_os))
      [ReqPut ''chunk1'' [1, 2, 3], ReqGet ''chunk1'', ReqDelete ''chunk1'', ReqGet ''chunk1''] empty_node)
   = [AnsDone (Inr ()), AnsData (Inr [1, 2, 3]), AnsDone (Inr ()), AnsData (Inl (StatusErr GrpcNotFound ''not found''))]"
  using storage_service_refines [OF empty_node_ok(1),
      of "[ReqPut ''chunk1'' [1, 2, 3], ReqGet ''chunk1'', ReqDelete ''chunk1'', ReqGet ''chunk1'']"] chunk1_valid
  by (simp add: empty_node_ok(2) put_map_def put_verdict_def get_verdict_def delete_verdict_def delete_map_def maxSize_def)

theorem CopyChunk_decides_witness:
  "\<exists>w1 t1. client_CopyChunk plain_net ''b:1'' ''a:1'' ''chunk1'' two_nodes = (Inr (), w1)
     \<and> cl_daemons w1 ''b:1'' = Some t1 \<and> sd_contents t1 ''chunk1'' = Some [1, 2, 3]"
  using CopyChunk_decides [OF plain_net_works chunk1_valid, of two_nodes empty_node full_node]
    empty_node_ok full_node_ok chunk1_valid
  by (auto simp: two_nodes_def plain_net_def)

lemma node_safe: "storaged_ok os s \<Longrightarrow> daemon_safe s"
  by (simp add: storaged_ok_def daemon_safe_def layout_ok_def)

theorem repaired_replicas_serve_witness:
  "\<exists>s. cl_daemons (snd (scanOnce plain_engine (client_CopyChunk plain_net) 2 (two_node_metad, two_nodes))) ''a:1'' = Some s
     \<and> (\<exists>x. sd_contents s ''chunk1'' = Some x \<and> sha256 x = sha256 [1, 2, 3] \<and> length x = 3)"
proof -
  let ?st = "(two_node_metad, two_nodes)" and ?descr = "\<lambda>i. (sha256 [1, 2, 3 :: byte], 3 :: nat)"
  let ?st1 = "scanOnce plain_engine (client_CopyChunk plain_net) 2 ?st"
  have "cluster_safe two_nodes"
    using node_safe [OF empty_node_ok(1)] node_safe [OF full_node_ok(1)] by (simp add: cluster_safe_def two_nodes_def)
  moreover have "serves ?descr two_nodes ''a:1'' ''chunk1''"
    using full_node_ok(2) by (simp add: serves_def node_serves_def two_nodes_def describes_def)
  ultimately have "replicas_hold ?descr (st_tables ?st) (snd ?st)"
    using chunk1_valid by (auto simp: replicas_hold_def two_node_metad_def)
  note serve = repaired_replicas_serve [OF this, of ?st1 plain_net 2 "[plain_engine]"]
  have wf: "tables_wf (st_tables ?st)"
    by (simp add: tables_wf_def two_node_metad_def loc_key_def)
  obtain new where "st_tables ?st1 = (st_tables ?st)\<lparr>t_locations := t_locations (st_tables ?st) @ new\<rparr>"
    using scanOnce_effect [where st = ?st and copy = "client_CopyChunk plain_net" and e = plain_engine and rf = 2] wf
    unfolding scan_effect_def by blast
  with serve [of "\<lparr>loc_chunk = ''chunk1'', loc_node = ''n1''\<rparr>" "hd (t_nodes (st_tables ?st))"] show ?thesis
    by (fastforce simp: two_node_metad_def)
qed

end
