(* ===== verification/Cluster_Progress.thy ===== *)
theory Cluster_Progress
  imports Cluster_Properties
begin

text \<open>
  What repair cycles achieve on the storage nodes themselves. \<open>repair_ready\<close> says when the cluster can
  repair: the database answers, the network delivers, every healthy node is up at an address of its own and
  can be dialled, and healthy nodes hold of the recorded chunks what they should. Then every copy that the
  scanner asks \<open>client_CopyChunk\<close> for succeeds, which is the contract of the locale \<open>repair_progress\<close>.
\<close>

subsection \<open>What a working cluster holds\<close>

definition net_delivers :: "net_env \<Rightarrow> bool" where
  "net_delivers net \<longleftrightarrow> (\<forall>t. net_request net t = None \<and> net_reply net t = None \<and> net_ctx net t = None)"

definition node_up :: "net_env \<Rightarrow> cluster \<Rightarrow> string \<Rightarrow> bool" where
  "node_up net w addr \<longleftrightarrow> (\<exists>s. cl_daemons w addr = Some s \<and> storaged_ok (net_os net addr) s)"

definition held :: "cluster \<Rightarrow> string \<Rightarrow> chunk_map" where
  "held w addr = (case cl_daemons w addr of None \<Rightarrow> Map.empty | Some s \<Rightarrow> on_valid valid_id (sd_contents s))"

lemma client_CopyChunk_ok:
  assumes net: "net_works net target source" and i: "valid_id i" "i \<noteq> []" and other: "target \<noteq> source"
    and up: "node_up net w target" "node_up net w source"
    and source: "held w source i = Some x" and target: "held w target i \<in> {None, Some x}"
  shows "\<exists>w1. client_CopyChunk net target source i w = (Inr (), w1) \<and> (\<forall>a. node_up net w a \<longrightarrow> node_up net w1 a)
    \<and> held w1 = (held w)(target := (held w target)(i \<mapsto> x))"
proof -
  obtain t s where t: "cl_daemons w target = Some t" "storaged_ok (net_os net target) t"
    and s: "cl_daemons w source = Some s" "storaged_ok (net_os net source) s"
    using up by (auto simp: node_up_def)
  let ?w = "w\<lparr>cl_calls := Suc (cl_calls w)\<rparr>"
  obtain q s1 where get: "server_GetChunk (net_os net source) None i s = (q, s1)"
    by (cases "server_GetChunk (net_os net source) None i s")
  note got = get_follows [OF s(2) i(1), unfolded get]
  have x: "sd_contents s i = Some x" and y: "sd_contents t i \<in> {None, Some x}"
    using source target s(1) t(1) i(1) by (simp_all add: held_def)
  have q: "q = Inr x" and s1: "storaged_ok (net_os net source) s1" "sd_contents s1 = sd_contents s"
    using got x i(2) by (simp_all add: get_verdict_def)
  obtain r c where put: "Put (net_os net target) None i (Inr x) (sd_chunks t) = (r, c)"
    by (cases "Put (net_os net target) None i (Inr x) (sd_chunks t)")
  let ?t1 = "t\<lparr>sd_chunks := c\<rparr>"
  note eff = Put_contents [OF t(2) i(1) put, of ?t1, simplified]
  have len: "length x \<le> maxSize"
    using contents_bound [OF _ i(1) x] s(2) by (simp add: storaged_ok_def)
  have r: "r = Inr ()"
    using eff(1) y len by (auto split: option.splits)
  let ?w1 = "\<lparr>cl_daemons = (cl_daemons w)(source \<mapsto> s1, target \<mapsto> ?t1), cl_calls = Suc (Suc (cl_calls w))\<rparr>"
  have "node_CopyChunk net target i source ?w = (Inr True, ?w1)"
    using node_CopyChunk_works [OF net i(2), of ?w t s] t(1) s(1) get q put r other
    by (simp add: Let_def on_daemon_def on_chunks_def)
  then have "client_CopyChunk net target source i w = (Inr (), ?w1)"
    using client_CopyChunk_works [OF net, of w i] t(1) by simp
  moreover have "node_up net ?w1 a" if "node_up net w a" for a
    using that s1(1) eff(2) by (simp add: node_up_def)
  moreover have "held ?w1 = (held w)(target := (held w target)(i \<mapsto> x))"
  proof
    fix a
    have "on_valid valid_id (sd_contents ?t1) = (on_valid valid_id (sd_contents t))(i \<mapsto> x)"
      using eff(3) y len i(1) by (auto simp: fun_eq_iff on_valid_def)
    then show "held ?w1 a = ((held w)(target := (held w target)(i \<mapsto> x))) a"
      using s(1) t(1) s1(2) other by (simp add: held_def)
  qed
  ultimately show ?thesis
    by blast
qed

subsection \<open>When the cluster can repair\<close>

text \<open>
  \<open>content\<close> gives the bytes of every chunk. Of a recorded chunk a healthy node holds nothing or these bytes,
  and the bytes if it is recorded as one of its nodes.
\<close>

definition holds_recorded :: "(string \<Rightarrow> byte list) \<Rightarrow> cluster \<Rightarrow> location_row \<Rightarrow> node_row \<Rightarrow> bool" where
  "holds_recorded content w l n \<longleftrightarrow>
     held w (node_address n) (loc_chunk l) \<in> {None, Some (content (loc_chunk l))}
     \<and> (node_id n = loc_node l \<longrightarrow> held w (node_address n) (loc_chunk l) = Some (content (loc_chunk l)))"

definition healthy_rows :: "tables \<Rightarrow> node_row set" where
  "healthy_rows T = {n \<in> set (t_nodes T). node_status n = NodeStatusHealthy}"

definition repair_ready :: "engine \<Rightarrow> net_env \<Rightarrow> (string \<Rightarrow> byte list) \<Rightarrow> tables \<Rightarrow> cluster \<Rightarrow> bool" where
  "repair_ready e net content T w \<longleftrightarrow> no_faults e \<and> complete_scans e \<and> tables_wf T \<and> named_nodes T
     \<and> net_delivers net \<and> tls_works (net_metad_tls net)
     \<and> (\<forall>n \<in> healthy_rows T. dials net (node_address n) \<and> tls_works (net_tls net (node_address n)) \<and> node_up net w (node_address n))
     \<and> inj_on node_address (healthy_rows T)
     \<and> (\<forall>l \<in> set (t_locations T). valid_id (loc_chunk l) \<and> loc_chunk l \<noteq> []
          \<and> (\<forall>n \<in> healthy_rows T. holds_recorded content w l n))"

lemma repair_readyD:
  assumes "repair_ready e net content T w"
  shows "no_faults e \<and> complete_scans e \<and> tables_wf T \<and> named_nodes T" "net_delivers net" "tls_works (net_metad_tls net)"
    and "n \<in> healthy_rows T \<Longrightarrow> dials net (node_address n) \<and> tls_works (net_tls net (node_address n)) \<and> node_up net w (node_address n)"
    and "inj_on node_address (healthy_rows T)"
    and "l \<in> set (t_locations T) \<Longrightarrow> valid_id (loc_chunk l) \<and> loc_chunk l \<noteq> []"
    and "l \<in> set (t_locations T) \<Longrightarrow> n \<in> healthy_rows T \<Longrightarrow> holds_recorded content w l n"
  using assms unfolding repair_ready_def by simp_all

lemma same_row: "tables_wf T \<Longrightarrow> n \<in> set (t_nodes T) \<Longrightarrow> m \<in> set (t_nodes T) \<Longrightarrow> node_id n = node_id m \<Longrightarrow> n = m"
  by (auto simp: tables_wf_def distinct_map dest: inj_onD)

lemma repair_ready_copied:
  assumes ready: "repair_ready e net content T w" and l: "l \<in> set (t_locations T)" and target: "target \<in> healthy_rows T"
    and up: "\<forall>a. node_up net w a \<longrightarrow> node_up net w1 a"
    and held: "held w1 = (held w)(node_address target := (held w (node_address target))(loc_chunk l \<mapsto> content (loc_chunk l)))"
    and ins: "query_insert_chunk_location \<lparr>loc_chunk = loc_chunk l, loc_node = node_id target\<rparr> T = Inr T1"
  shows "repair_ready e net content T1 w1"
proof -
  note R = repair_readyD [OF ready]
  let ?l = "\<lparr>loc_chunk = loc_chunk l, loc_node = node_id target\<rparr>"
  have T1: "T1 = T\<lparr>t_locations := t_locations T @ [?l]\<rparr>"
    using ins by (auto simp: query_insert_chunk_location_def split: if_splits)
  then have rows: "healthy_rows T1 = healthy_rows T" "named_nodes T1 = named_nodes T"
    by (simp_all add: healthy_rows_def named_nodes_def)
  have wf1: "tables_wf T1"
    using ins R(1) by (blast intro: tables_wf_insert_location)
  have held1: "held w1 (node_address n) j = (if n = target \<and> j = loc_chunk l then Some (content j) else held w (node_address n) j)"
    if "n \<in> healthy_rows T" for n j
    using R(5) that target by (auto simp: held dest: inj_onD)
  have "holds_recorded content w1 k n" if n: "n \<in> healthy_rows T" and k: "k \<in> set (t_locations T1)" for k n
  proof (cases "k \<in> set (t_locations T)")
    case True
    with R(7) [OF True n] held1 [OF n] show ?thesis
      by (auto simp: holds_recorded_def)
  next
    case False
    then have "k = ?l"
      using k by (simp add: T1)
    moreover have "node_id n = node_id target \<Longrightarrow> n = target"
      using same_row [of T n target] R(1) n target by (simp add: healthy_rows_def)
    ultimately show ?thesis
      using R(7) [OF l n] held1 [OF n] by (auto simp: holds_recorded_def)
  qed
  moreover have "valid_id (loc_chunk k) \<and> loc_chunk k \<noteq> []" if "k \<in> set (t_locations T1)" for k
    using that R(6) l by (auto simp: T1)
  ultimately show ?thesis
    unfolding repair_ready_def rows using R(1-5) wf1 up by blast
qed

text \<open>The storage nodes meet the contract of the scanner.\<close>

interpretation repairing: repair_progress e "client_CopyChunk net" "repair_ready e net content" for e net content
proof
  fix T w
  assume "repair_ready e net content T w"
  then show "no_faults e \<and> complete_scans e \<and> tables_wf T \<and> named_nodes T"
    by (rule repair_readyD)
next
  fix T w l n target
  assume ready: "repair_ready e net content T w" and l: "l \<in> set (t_locations T)"
    and n: "n \<in> set (t_nodes T)" "node_id n = loc_node l" "node_status n = NodeStatusHealthy"
    and target: "target \<in> set (t_nodes T)" "node_status target = NodeStatusHealthy" "node_id target \<notin> set (replica_nodes T (loc_chunk l))"
    and cid: "loc_chunk l \<in> chunk_id ` set (t_chunks T)"
  note R = repair_readyD [OF ready]
  let ?i = "loc_chunk l" and ?t = "node_address target" and ?s = "node_address n"
  let ?l = "\<lparr>loc_chunk = ?i, loc_node = node_id target\<rparr>"
  have rows: "n \<in> healthy_rows T" "target \<in> healthy_rows T"
    using n target by (simp_all add: healthy_rows_def)
  have "node_id n \<in> set (replica_nodes T ?i)"
    using l n(2) by (auto simp: replica_nodes_def)
  then have "n \<noteq> target"
    using target(3) by blast
  then have other: "?t \<noteq> ?s"
    using inj_onD [OF R(5) _ rows] by auto
  have net: "net_works net ?t ?s"
    using R(2,3) R(4) [OF rows(1)] R(4) [OF rows(2)] by (simp add: net_works_def net_delivers_def)
  obtain w1 where w1: "client_CopyChunk net ?t ?s ?i w = (Inr (), w1)" "\<forall>a. node_up net w a \<longrightarrow> node_up net w1 a"
    "held w1 = (held w)(?t := (held w ?t)(?i \<mapsto> content ?i))"
    using client_CopyChunk_ok [OF net _ _ other, of ?i w "content ?i"] R(4) [OF rows(1)] R(4) [OF rows(2)] R(6) [OF l]
      R(7) [OF l rows(1)] R(7) [OF l rows(2)] n(2) by (auto simp: holds_recorded_def)
  have "loc_key ?l \<notin> loc_key ` set (t_locations T)"
    using target(3) by (auto simp: replica_nodes_def loc_key_def image_iff)
  then have "query_insert_chunk_location ?l T = Inr (T\<lparr>t_locations := t_locations T @ [?l]\<rparr>)"
    using cid by (simp add: query_insert_chunk_location_def)
  from w1(1) repair_ready_copied [OF ready l rows(2) w1(2,3) this]
  show "\<exists>w1. client_CopyChunk net ?t ?s ?i w = (Inr (), w1) \<and> repair_ready e net content (T\<lparr>t_locations := t_locations T @ [?l]\<rparr>) w1"
    by blast
qed

lemma recorded_held:
  assumes "repair_ready e net content T w" "n \<in> set (t_nodes T)" "node_status n = NodeStatusHealthy"
    and "node_id n \<in> set (replica_nodes T cid)"
  shows "held w (node_address n) cid = Some (content cid)"
proof -
  obtain l where l: "l \<in> set (t_locations T)" "loc_chunk l = cid" "loc_node l = node_id n"
    using assms(4) by (auto simp: replica_nodes_def)
  with repair_readyD(7) [OF assms(1) l(1), of n] assms(2,3) show ?thesis
    by (simp add: healthy_rows_def holds_recorded_def)
qed

text \<open>
  C25. One repair cycle over a cluster that can repair: for every chunk of a committed file that has at least
  one healthy replica, fewer than the replication factor, and a healthy node without one, it records one
  more replica, on a healthy node that had none; the replicas of every other chunk are left as they are.
  Afterwards the cluster can still repair, and every healthy node that is recorded for a chunk holds its
  bytes, the new one included.
\<close>

theorem scanOnce_progress:
  assumes "repair_ready e net content (st_tables st) (snd st)" and "st1 = scanOnce e (client_CopyChunk net) rf st"
  shows "(if cid \<in> committed_ids (st_tables st) \<and> repairable rf (st_tables st) cid
      then one_more (st_tables st) cid (st_tables st1)
      else replica_nodes (st_tables st1) cid = replica_nodes (st_tables st) cid)
    \<and> repair_ready e net content (st_tables st1) (snd st1)
    \<and> (\<forall>n \<in> set (t_nodes (st_tables st1)). node_status n = NodeStatusHealthy \<longrightarrow> node_id n \<in> set (replica_nodes (st_tables st1) cid)
        \<longrightarrow> held (snd st1) (node_address n) cid = Some (content cid))"
proof -
  note ready1 = repairing.scanOnce_step(2) [OF assms(1), of rf, folded assms(2)]
  show ?thesis
    using repairing.scanOnce_adds [OF assms(1), of cid rf, folded assms(2)] ready1 recorded_held [OF ready1] by blast
qed

text \<open>
  C7. Repair converges on the storage nodes. From a cluster that can repair, and while no node changes its
  status, a chunk of a committed file with at least one healthy replica has as many healthy replicas as
  the replication factor after that many cycles less one, provided there are that many healthy nodes, and
  it keeps them in every later cycle. The replicas are on pairwise different nodes, and each of these nodes
  holds the bytes of the chunk.
\<close>

theorem scans_restore_replication:
  assumes "repair_ready e net content (st_tables st) (snd st)"
    and "cid \<in> committed_ids (st_tables st)" "healthy_holders (st_tables st) cid \<noteq> []"
    and "rf \<le> int (card {n. healthy_node (st_tables st) n})" "rf \<le> 1 + int k"
    and "st1 = ((scanOnce e (client_CopyChunk net) rf) ^^ k) st"
  shows "rf \<le> int (length (healthy_holders (st_tables st1) cid)) \<and> distinct (healthy_holders (st_tables st1) cid)
    \<and> (\<forall>h \<in> set (healthy_holders (st_tables st1) cid). \<exists>n \<in> set (t_nodes (st_tables st1)). node_id n = h
        \<and> node_status n = NodeStatusHealthy \<and> held (snd st1) (node_address n) cid = Some (content cid))"
proof (intro conjI ballI)
  note ready1 = repairing.scans_keep(1) [OF assms(1), where rf = rf and k = k, folded assms(6)]
  show "rf \<le> int (length (healthy_holders (st_tables st1) cid))"
    using repairing.scans_reach [OF assms(1-4), where k = k] assms(5) by (simp add: assms(6))
  show "distinct (healthy_holders (st_tables st1) cid)"
    using distinct_replica_nodes repair_readyD(1) [OF ready1] by (simp add: healthy_holders_def)
  fix h
  assume h: "h \<in> set (healthy_holders (st_tables st1) cid)"
  then obtain n where "n \<in> set (t_nodes (st_tables st1))" "node_id n = h" "node_status n = NodeStatusHealthy"
    "h \<in> set (replica_nodes (st_tables st1) cid)"
    by (auto simp: healthy_holders_def healthy_node_def)
  with recorded_held [OF ready1, of n cid] show "\<exists>n \<in> set (t_nodes (st_tables st1)). node_id n = h
        \<and> node_status n = NodeStatusHealthy \<and> held (snd st1) (node_address n) cid = Some (content cid)"
    by blast
qed

subsection \<open>An example\<close>

lemma two_nodes_ready:
  "repair_ready plain_engine plain_net (\<lambda>i. [1, 2, 3]) (md_tables two_node_metad) two_nodes"
proof -
  let ?T = "md_tables two_node_metad"
  have rows: "healthy_rows ?T = {\<lparr>node_id = ''n1'', node_address = ''a:1'', node_capacity = 10, node_available = 0,
         node_status = NodeStatusHealthy, node_heartbeat = 1\<rparr>,
       \<lparr>node_id = ''n2'', node_address = ''b:1'', node_capacity = 10, node_available = 10,
         node_status = NodeStatusHealthy, node_heartbeat = 1\<rparr>}"
    by (auto simp: healthy_rows_def two_node_metad_def)
  have wf: "tables_wf ?T" "named_nodes ?T"
    by (simp_all add: tables_wf_def named_nodes_def two_node_metad_def loc_key_def)
  have net: "net_delivers plain_net" "tls_works plain_tls"
    by (simp_all add: net_delivers_def plain_net_def tls_works_def plain_tls_def)
  have held: "held two_nodes ''a:1'' ''chunk1'' = Some [1, 2, 3]" "held two_nodes ''b:1'' ''chunk1'' = None"
    using empty_node_ok(2) full_node_ok(2) chunk1_valid by (simp_all add: held_def two_nodes_def)
  have up: "node_up plain_net two_nodes ''a:1''" "node_up plain_net two_nodes ''b:1''"
    using empty_node_ok(1) full_node_ok(1) by (simp_all add: node_up_def two_nodes_def plain_net_def)
  have locs: "set (t_locations ?T) = {\<lparr>loc_chunk = ''chunk1'', loc_node = ''n1''\<rparr>}"
    by (simp add: two_node_metad_def)
  show ?thesis
    unfolding repair_ready_def rows locs
    using wf net held up plain_dials chunk1_valid
    by (simp add: holds_recorded_def inj_on_def) (simp add: plain_net_def)
qed

lemma two_node_facts:
  "''chunk1'' \<in> committed_ids (md_tables two_node_metad)" "replica_nodes (md_tables two_node_metad) ''chunk1'' = [''n1'']"
  "{n. healthy_node (md_tables two_node_metad) n} = {''n1'', ''n2''}" "healthy_holders (md_tables two_node_metad) ''chunk1'' = [''n1'']"
proof -
  show "''chunk1'' \<in> committed_ids (md_tables two_node_metad)"
    by (simp add: committed_ids_def two_node_metad_def query_select_committed_chunks_def reorder_def)
  show held: "replica_nodes (md_tables two_node_metad) ''chunk1'' = [''n1'']"
    by (simp add: replica_nodes_def two_node_metad_def)
  show healthy: "{n. healthy_node (md_tables two_node_metad) n} = {''n1'', ''n2''}"
    by (auto simp: healthy_node_def two_node_metad_def)
  then have "healthy_node (md_tables two_node_metad) ''n1''"
    by blast
  then show "healthy_holders (md_tables two_node_metad) ''chunk1'' = [''n1'']"
    by (simp add: healthy_holders_def held)
qed

theorem scanOnce_progress_witness:
  "one_more (md_tables two_node_metad) ''chunk1''
     (st_tables (scanOnce plain_engine (client_CopyChunk plain_net) 2 (two_node_metad, two_nodes)))"
proof -
  have "healthy_node (md_tables two_node_metad) ''n2''"
    using two_node_facts(3) by blast
  then have "repairable 2 (md_tables two_node_metad) ''chunk1''"
    using two_node_facts by (auto simp: repairable_def)
  with scanOnce_progress [OF _ refl, of plain_engine plain_net "\<lambda>i. [1, 2, 3]" "(two_node_metad, two_nodes)" "''chunk1''" 2]
    two_nodes_ready two_node_facts(1) show ?thesis
    by simp
qed

theorem scans_restore_replication_witness:
  "\<exists>st1. st1 = scanOnce plain_engine (client_CopyChunk plain_net) 2 (two_node_metad, two_nodes)
     \<and> 2 \<le> int (length (healthy_holders (st_tables st1) ''chunk1''))
     \<and> (\<forall>h \<in> set (healthy_holders (st_tables st1) ''chunk1''). \<exists>n \<in> set (t_nodes (st_tables st1)). node_id n = h
         \<and> held (snd st1) (node_address n) ''chunk1'' = Some [1, 2, 3])"
proof -
  let ?st1 = "scanOnce plain_engine (client_CopyChunk plain_net) 2 (two_node_metad, two_nodes)"
  have "repair_ready plain_engine plain_net (\<lambda>i. [1, 2, 3]) (st_tables (two_node_metad, two_nodes)) (snd (two_node_metad, two_nodes))"
    using two_nodes_ready by simp
  note restored = scans_restore_replication [OF this, of "''chunk1''" 2 1 ?st1]
  have "2 \<le> int (length (healthy_holders (st_tables ?st1) ''chunk1'')) \<and> distinct (healthy_holders (st_tables ?st1) ''chunk1'')
    \<and> (\<forall>h \<in> set (healthy_holders (st_tables ?st1) ''chunk1''). \<exists>n \<in> set (t_nodes (st_tables ?st1)). node_id n = h
        \<and> node_status n = NodeStatusHealthy \<and> held (snd ?st1) (node_address n) ''chunk1'' = Some [1, 2, 3])"
    by (rule restored) (simp_all add: two_node_facts)
  then show ?thesis
    by blast
qed

end
