(* ===== verification/Chunk_Threads.thy ===== *)
theory Chunk_Threads
  imports Chunk_Usage
begin

text \<open>
  \<open>Put\<close> and \<open>Delete\<close> one system call at a time: a call that is under way is its program counter, and
  \<open>put_step\<close> and \<open>delete_step\<close> make its next system call. Run alone, the steps are \<open>Put\<close> and \<open>Delete\<close>. The reads of
  the check of an existing file are one step with the opening: they are made on the open file, which no
  other call changes.
\<close>

subsection \<open>The steps of Put\<close>

datatype put_pc =
    Checking
  | Making "string list"
  | Naming nat
  | Writing string "(string \<times> byte list) list"
  | Syncing string
  | Closing string
  | Renaming string
  | Abandoning string go_error
  | Dropping string go_error
  | Counting
  | Returned "go_error + unit"

definition put_start :: "go_error option \<Rightarrow> go_error + byte list \<Rightarrow> put_pc" where
  "put_start ctx src =
     (case ctx of
        Some err \<Rightarrow> Returned (Inl (internal ''put cancelled'' err))
      | None \<Rightarrow>
          (case src of
             Inl err \<Rightarrow> Returned (Inl (internal ''failed to read input data'' err))
           | Inr data \<Rightarrow>
               if length data > maxSize
               then Returned (Inl (New_error CodeInvalidArgument ''chunk size out of allowed range''))
               else Checking))"

definition temp_parts :: "byte list \<Rightarrow> (string \<times> byte list) list" where
  "temp_parts data =
     [(''failed to write checksum'', sha256 data),
      (''failed to write length header'', PutUint64 (word_of_nat (length data))),
      (''failed to write chunk data'', data)]"

text \<open>One call, and where its result leads.\<close>

definition branch :: "('s, 'e, 'a) op \<Rightarrow> ('e \<Rightarrow> 'pc) \<Rightarrow> ('a \<Rightarrow> 'pc) \<Rightarrow> 's \<Rightarrow> 'pc \<times> 's" where
  "branch m bad good s = (case m s of (Inl err, s1) \<Rightarrow> (bad err, s1) | (Inr x, s1) \<Rightarrow> (good x, s1))"

fun put_step :: "os_env \<Rightarrow> string \<Rightarrow> string \<Rightarrow> byte list \<Rightarrow> put_pc \<Rightarrow> chunk_disk \<Rightarrow> put_pc \<times> chunk_disk" where
  "put_step os final i data Checking s =
     branch (on_disk (check_existing os final i (sha256 data) (word_of_nat (length data))))
       (\<lambda>err. Returned (Inl err))
       (\<lambda>present. if present then Returned (Inr ()) else Making (ancestors (Dir_of final) @ [Dir_of final])) s"
| "put_step os final i data (Making []) s = (Naming 10000, s)"
| "put_step os final i data (Making (p # ps)) s =
     branch (on_disk (sys os (sys_mkdir p)))
       (\<lambda>err. Returned (Inl (internal ''failed to create shard directory'' (path_error ''mkdir'' (Dir_of final) err))))
       (\<lambda>_. Making ps) s"
| "put_step os final i data (Naming 0) s =
     (Returned (Inl (internal ''failed to create temp file'' (path_error ''createtemp'' (Dir_of final) EEXIST))), s)"
| "put_step os final i data (Naming (Suc tries)) s =
     (let name = temp_name (Dir_of final) (os_random os (dk_tick (cs_disk s)))
      in branch (on_disk (sys os (sys_create name)))
           (\<lambda>err. if os_IsExist err then Naming tries
             else Returned (Inl (internal ''failed to create temp file'' (path_error ''open'' (Dir_of final) err))))
           (\<lambda>_. Writing name (temp_parts data)) s)"
| "put_step os final i data (Writing temp []) s = (Syncing temp, s)"
| "put_step os final i data (Writing temp ((what, bs) # parts)) s =
     branch (on_disk (Write os temp bs))
       (\<lambda>err. Abandoning temp (internal what (path_error ''write'' temp err))) (\<lambda>_. Writing temp parts) s"
| "put_step os final i data (Syncing temp) s =
     branch (on_disk (no_change os))
       (\<lambda>err. Abandoning temp (internal ''failed to fsync temp file'' (path_error ''sync'' temp err))) (\<lambda>_. Closing temp) s"
| "put_step os final i data (Closing temp) s =
     branch (on_disk (no_change os))
       (\<lambda>err. Dropping temp (internal ''failed to close temp file'' (path_error ''close'' temp err))) (\<lambda>_. Renaming temp) s"
| "put_step os final i data (Renaming temp) s =
     branch (on_disk (Rename os temp final))
       (\<lambda>err. Dropping temp (internal ''failed to rename temp file'' (path_error (''rename '' @ temp) final err))) (\<lambda>_. Counting) s"
| "put_step os final i data (Abandoning temp err) s =
     branch (on_disk (no_change os)) (\<lambda>_. Dropping temp err) (\<lambda>_. Dropping temp err) s"
| "put_step os final i data (Dropping temp err) s =
     branch (on_disk (Remove os temp)) (\<lambda>_. Returned (Inl err)) (\<lambda>_. Returned (Inl err)) s"
| "put_step os final i data Counting s =
     branch (add_used (word_of_nat headerSize + word_of_nat (length data))) (\<lambda>err. Returned (Inl err)) (\<lambda>u. Returned (Inr u)) s"
| "put_step os final i data (Returned r) s = (Returned r, s)"

subsection \<open>Run alone\<close>

definition pc_result :: "put_pc \<Rightarrow> (go_error + unit) option" where
  "pc_result pc = (case pc of Returned r \<Rightarrow> Some r | _ \<Rightarrow> None)"

lemma pc_result_simps [simp]:
  "pc_result (Returned r) = Some r" "pc_result Checking = None" "pc_result (Making ps) = None" "pc_result (Naming n) = None"
  "pc_result (Writing temp parts) = None" "pc_result (Syncing temp) = None" "pc_result (Closing temp) = None"
  "pc_result (Renaming temp) = None" "pc_result (Abandoning temp err) = None" "pc_result (Dropping temp err) = None"
  "pc_result Counting = None" "pc_result pc = Some r \<longleftrightarrow> pc = Returned r"
  by (auto simp: pc_result_def split: put_pc.splits)

text \<open>A bound on the steps left.\<close>

fun put_left :: "string \<Rightarrow> put_pc \<Rightarrow> nat" where
  "put_left final Checking = 10012 + length (ancestors (Dir_of final))"
| "put_left final (Making ps) = 10010 + length ps"
| "put_left final (Naming n) = 9 + n"
| "put_left final (Writing temp parts) = 5 + length parts"
| "put_left final (Syncing temp) = 4"
| "put_left final (Closing temp) = 3"
| "put_left final (Renaming temp) = 2"
| "put_left final (Abandoning temp err) = 2"
| "put_left final (Dropping temp err) = 1"
| "put_left final Counting = 1"
| "put_left final (Returned r) = 0"

lemma branch_fst: "fst (branch m bad good s) = (case fst (m s) of Inl err \<Rightarrow> bad err | Inr x \<Rightarrow> good x)"
  by (simp add: branch_def split: prod.splits sum.splits)

lemma put_step_less: "pc_result pc = None \<Longrightarrow> put_left final (fst (put_step os final i data pc s)) < put_left final pc"
  by (cases "(os, final, i, data, pc, s)" rule: put_step.cases)
    (simp_all add: branch_fst temp_parts_def Let_def split: sum.splits)

function put_run :: "os_env \<Rightarrow> string \<Rightarrow> string \<Rightarrow> byte list \<Rightarrow> put_pc \<Rightarrow> (chunk_disk, go_error, unit) op" where
  "put_run os final i data pc s =
     (case pc_result pc of
        Some r \<Rightarrow> (r, s)
      | None \<Rightarrow> (case put_step os final i data pc s of (pc1, s1) \<Rightarrow> put_run os final i data pc1 s1))"
  by pat_completeness auto
termination
  by (relation "measure (\<lambda>(os, final, i, data, pc, s). put_left final pc)")
    (use put_step_less in \<open>auto dest!: sym [of "(_, _)"], metis fst_conv\<close>)

declare put_run.simps [simp del]

lemma put_run_Returned [simp]: "put_run os final i data (Returned r) s = (r, s)"
  by (simp add: put_run.simps)

lemma put_run_branch:
  assumes "put_step os final i data pc s = branch m bad good s" "pc_result pc = None"
  shows "put_run os final i data pc s = (case m s of
      (Inl err, s1) \<Rightarrow> put_run os final i data (bad err) s1 | (Inr x, s1) \<Rightarrow> put_run os final i data (good x) s1)"
  by (subst put_run.simps) (simp add: assms branch_def split: prod.splits sum.splits)

lemma on_disk_bindR: "on_disk (bindR m f) = bindR (on_disk m) (\<lambda>x. on_disk (f x))"
  by (rule ext) (simp add: on_disk_def bindR_def split: prod.splits sum.splits)

lemma bindR_assoc: "bindR (bindR m f) g = bindR m (\<lambda>x. bindR (f x) g)"
  by (rule ext) (simp add: bindR_def split: prod.splits sum.splits)

lemma run_Dropping: "put_run os final i data (Dropping temp err) s = (Inl err, s\<lparr>cs_disk := drop_temp os temp (cs_disk s)\<rparr>)"
  by (subst put_run_branch [OF put_step.simps(12)]) (simp_all add: on_disk_def drop_temp_def split: prod.splits sum.splits)

lemma run_Abandoning: "put_run os final i data (Abandoning temp err) s = (Inl err, s\<lparr>cs_disk := close_and_drop os temp (cs_disk s)\<rparr>)"
  by (subst put_run_branch [OF put_step.simps(11)])
    (simp_all add: run_Dropping on_disk_def close_and_drop_def split: prod.splits sum.splits)

text \<open>A call whose failure is undone, and what follows it.\<close>

lemma run_or_undo:
  assumes "put_step os final i data pc s = branch (on_disk m) bad (\<lambda>u. good) s" "pc_result pc = None"
    and "\<And>err s1. put_run os final i data (bad err) s1 = (Inl (internal what (wrap err)), s1\<lparr>cs_disk := undo (cs_disk s1)\<rparr>)"
    and "\<And>s1. put_run os final i data good s1 = rest s1"
  shows "put_run os final i data pc s = bindR (on_disk (or_undo undo what wrap m)) (\<lambda>_. rest) s"
  by (subst put_run_branch [OF assms(1,2)])
    (simp add: assms(3,4) bindR_def on_disk_def or_undo_def split: prod.splits sum.splits)

abbreviation count_chunk :: "byte list \<Rightarrow> (chunk_disk, go_error, unit) op" where
  "count_chunk data \<equiv> add_used (word_of_nat headerSize + word_of_nat (length data))"

lemma run_Counting: "put_run os final i data Counting s = count_chunk data s"
  by (subst put_run_branch [OF put_step.simps(13)]) (simp_all add: add_used_def)

lemma run_write_temp:
  "put_run os final i data (Writing temp (temp_parts data)) s
   = bindR (on_disk (write_temp os temp final (sha256 data) data)) (\<lambda>_. count_chunk data) s"
proof -
  note run = run_or_undo [where os = os and final = final and i = i and data = data]
  note abandon = run_Abandoning [of os final i data] and drop = run_Dropping [of os final i data]
  note renaming = run [OF put_step.simps(10) pc_result_simps(8) drop run_Counting]
  note closing = run [OF put_step.simps(9) pc_result_simps(7) drop renaming]
  note syncing = run [OF put_step.simps(8) pc_result_simps(6) abandon closing]
  have written: "put_run os final i data (Writing temp []) s1 = put_run os final i data (Syncing temp) s1" for s1
    by (simp add: put_run.simps [of os final i data "Writing temp []"])
  note third = run [OF put_step.simps(7) pc_result_simps(5) abandon trans [OF written syncing]]
  note second = run [OF put_step.simps(7) pc_result_simps(5) abandon third]
  note first = run [OF put_step.simps(7) pc_result_simps(5) abandon second]
  show ?thesis
    unfolding temp_parts_def write_temp_def by (subst first) (simp only: on_disk_bindR bindR_assoc)
qed

lemma run_create_temp:
  "put_run os final i data (Naming n) s =
   bindR (on_disk (mapErrR (\<lambda>err. internal ''failed to create temp file''
       (path_error (if err = EEXIST then ''createtemp'' else ''open'') (Dir_of final) err)) (create_temp os (Dir_of final) n)))
     (\<lambda>temp. bindR (on_disk (write_temp os temp final (sha256 data) data)) (\<lambda>_. count_chunk data)) s"
proof (induction n arbitrary: s)
  case 0
  then show ?case
    by (simp add: put_run.simps [of os final i data "Naming 0"] bindR_def on_disk_def mapErrR_def)
next
  case (Suc n)
  let ?name = "temp_name (Dir_of final) (os_random os (dk_tick (cs_disk s)))"
  obtain r d where r: "sys os (sys_create ?name) (cs_disk s) = (r, d)"
    by (cases "sys os (sys_create ?name) (cs_disk s)")
  have step: "put_run os final i data (Naming (Suc n)) s = (case r of
      Inl err \<Rightarrow> put_run os final i data (if os_IsExist err then Naming n
        else Returned (Inl (internal ''failed to create temp file'' (path_error ''open'' (Dir_of final) err)))) (s\<lparr>cs_disk := d\<rparr>)
    | Inr u \<Rightarrow> put_run os final i data (Writing ?name (temp_parts data)) (s\<lparr>cs_disk := d\<rparr>))"
    by (subst put_run.simps) (simp add: Let_def branch_def on_disk_def r split: sum.splits)
  show ?case
  proof (cases r)
    case (Inl err)
    with r step Suc.IH [of "s\<lparr>cs_disk := d\<rparr>"] show ?thesis
      by (cases "os_IsExist err") (simp_all add: bindR_def on_disk_def mapErrR_def Let_def os_IsExist_def)
  next
    case (Inr u)
    with r step show ?thesis
      by (simp add: run_write_temp) (simp add: bindR_def on_disk_def mapErrR_def Let_def)
  qed
qed

lemma run_mkdirs:
  "put_run os final i data (Making ps) s =
   bindR (on_disk (mapErrR (\<lambda>err. internal ''failed to create shard directory'' (path_error ''mkdir'' (Dir_of final) err)) (mkdirs os ps)))
     (\<lambda>_. put_run os final i data (Naming 10000)) s"
proof (induction ps arbitrary: s)
  case Nil
  then show ?case
    by (simp add: put_run.simps [of os final i data "Making []"] bindR_def on_disk_def mapErrR_def)
next
  case (Cons p ps)
  obtain r d where r: "sys os (sys_mkdir p) (cs_disk s) = (r, d)"
    by (cases "sys os (sys_mkdir p) (cs_disk s)")
  with Cons.IH [of "s\<lparr>cs_disk := d\<rparr>"] show ?case
    by (cases r; subst put_run_branch [OF put_step.simps(3)]) (simp_all add: bindR_def on_disk_def mapErrR_def)
qed

lemma run_write_chunk:
  "put_run os final i data (Making (ancestors (Dir_of final) @ [Dir_of final])) s
   = bindR (on_disk (write_chunk os final (sha256 data) data)) (\<lambda>_. count_chunk data) s"
  unfolding run_mkdirs ext [OF run_create_temp] write_chunk_def Let_def MkdirAll_def CreateTemp_def on_disk_bindR bindR_assoc ..

subsection \<open>The steps of Delete\<close>

datatype delete_pc = Stating | Unlinking int64 | Uncounting int64 | Deleted "go_error + unit"

fun delete_step :: "os_env \<Rightarrow> string \<Rightarrow> delete_pc \<Rightarrow> chunk_disk \<Rightarrow> delete_pc \<times> chunk_disk" where
  "delete_step os final Stating s =
     branch (on_disk (Stat os final))
       (\<lambda>err. Deleted (if os_IsNotExist err then Inr () else Inl (internal ''failed to stat chunk'' (path_error ''stat'' final err))))
       Unlinking s"
| "delete_step os final (Unlinking fileSize) s =
     branch (on_disk (Remove os final))
       (\<lambda>err. Deleted (if os_IsNotExist err then Inr () else Inl (internal ''failed to delete chunk'' (path_error ''remove'' final err))))
       (\<lambda>_. Uncounting fileSize) s"
| "delete_step os final (Uncounting fileSize) s =
     branch (add_used (- fileSize)) (\<lambda>err. Deleted (Inl err)) (\<lambda>u. Deleted (Inr u)) s"
| "delete_step os final (Deleted r) s = (Deleted r, s)"

definition delete_run :: "os_env \<Rightarrow> string \<Rightarrow> chunk_disk \<Rightarrow> delete_pc \<times> chunk_disk" where
  "delete_run os final s =
     (case delete_step os final Stating s of
        (pc1, s1) \<Rightarrow> (case delete_step os final pc1 s1 of (pc2, s2) \<Rightarrow> delete_step os final pc2 s2))"

lemma Put_as_steps:
  "Put os ctx i src s = put_run os (Path (cs_store s) i) i (case src of Inl err \<Rightarrow> [] | Inr data \<Rightarrow> data) (put_start ctx src) s"
proof -
  have "put_run os final i data Checking s1 = bindR (on_disk (check_existing os final i (sha256 data) (word_of_nat (length data)))) (\<lambda>present.
      if present then retR () else bindR (on_disk (write_chunk os final (sha256 data) data)) (\<lambda>_. count_chunk data)) s1" for final data s1
    by (subst put_run_branch [OF put_step.simps(1)])
      (simp_all add: run_write_chunk bindR_def [of "on_disk (check_existing _ _ _ _ _)"] retR_def split: prod.split sum.split)
  then show ?thesis
    by (simp add: Put_def put_start_def put_data_def failR_def split: option.split sum.split)
qed

lemma Delete_as_steps: "Delete os i s = (r, s1) \<Longrightarrow> delete_run os (Path (cs_store s) i) s = (Deleted r, s1)"
  by (auto simp: Delete_def delete_run_def Let_def branch_def add_used_def split: prod.splits sum.splits)

end
