(* ===== verification/Chunk_Crowd.thy ===== *)
theory Chunk_Crowd
  imports Chunk_Threads
begin

text \<open>
  Many calls on one chunk store at once. Every call is a task that makes its next system call whenever it is
  scheduled (\<open>Chunk_Threads\<close>), reads come in between, any system call may fail at any time, and a crash
  ends all tasks where they are, leaves the disk as it is and opens the store again. The last section
  shows how two Puts of one new chunk can both be acknowledged.
\<close>

subsection \<open>Tasks\<close>

datatype task = PutTask string "byte list" put_pc | DeleteTask string delete_pc

fun task_step :: "os_env \<Rightarrow> task \<Rightarrow> chunk_disk \<Rightarrow> task \<times> chunk_disk" where
  "task_step os (PutTask i data pc) s =
     (case put_step os (Path (cs_store s) i) i data pc s of (pc1, s1) \<Rightarrow> (PutTask i data pc1, s1))"
| "task_step os (DeleteTask i pc) s =
     (case delete_step os (Path (cs_store s) i) pc s of (pc1, s1) \<Rightarrow> (DeleteTask i pc1, s1))"

text \<open>The requests so far and the Puts that reported success are recorded.\<close>

record crowd =
  cw_chunks :: chunk_disk
  cw_tasks :: "task list"
  cw_puts :: "(string \<times> byte list) set"
  cw_dels :: "string set"
  cw_acked :: "(string \<times> byte list) set"

definition newly_acked :: "task \<Rightarrow> (string \<times> byte list) set" where
  "newly_acked t = (case t of PutTask i data (Returned (Inr u)) \<Rightarrow> {(i, data)} | _ \<Rightarrow> {})"

inductive crowd_step :: "crowd \<Rightarrow> crowd \<Rightarrow> bool" where
  crowd_run: "k < length (cw_tasks st) \<Longrightarrow> task_step os (cw_tasks st ! k) (cw_chunks st) = (t, s1) \<Longrightarrow>
     crowd_step st (st\<lparr>cw_chunks := s1, cw_tasks := (cw_tasks st)[k := t], cw_acked := newly_acked t \<union> cw_acked st\<rparr>)"
| crowd_put: "valid_id i \<Longrightarrow>
     crowd_step st (st\<lparr>cw_tasks := cw_tasks st @ [PutTask i data (put_start ctx (Inr data))], cw_puts := insert (i, data) (cw_puts st)\<rparr>)"
| crowd_delete: "valid_id i \<Longrightarrow>
     crowd_step st (st\<lparr>cw_tasks := cw_tasks st @ [DeleteTask i Stating], cw_dels := insert i (cw_dels st)\<rparr>)"
| crowd_read: "read_chunk os i (cw_chunks st) = (r, s1) \<Longrightarrow> crowd_step st (st\<lparr>cw_chunks := s1\<rparr>)"
| crowd_crash: "New_store os dir cap (cs_disk (cw_chunks st)) = (Inr ds, d) \<Longrightarrow> ds_baseDir ds = ds_baseDir (cs_store (cw_chunks st)) \<Longrightarrow>
     crowd_step st (st\<lparr>cw_chunks := \<lparr>cs_store = ds, cs_disk = d\<rparr>, cw_tasks := []\<rparr>)"

inductive crowd_reachable :: "chunk_disk \<Rightarrow> crowd \<Rightarrow> bool" for s0 where
  crowd_start: "crowd_reachable s0 \<lparr>cw_chunks = s0, cw_tasks = [], cw_puts = {}, cw_dels = {}, cw_acked = {}\<rparr>"
| crowd_next: "crowd_reachable s0 st \<Longrightarrow> crowd_step st st1 \<Longrightarrow> crowd_reachable s0 st1"

subsection \<open>What one step of a Put does to the files\<close>

fun temp_of :: "put_pc \<Rightarrow> string option" where
  "temp_of (Writing temp parts) = Some temp"
| "temp_of (Syncing temp) = Some temp"
| "temp_of (Closing temp) = Some temp"
| "temp_of (Renaming temp) = Some temp"
| "temp_of (Abandoning temp err) = Some temp"
| "temp_of (Dropping temp err) = Some temp"
| "temp_of pc = None"

text \<open>What the temporary file holds at each point.\<close>

fun holds :: "byte list \<Rightarrow> put_pc \<Rightarrow> byte list \<Rightarrow> bool" where
  "holds data (Writing temp parts) c \<longleftrightarrow> c @ concat (map snd parts) = seal data"
| "holds data (Syncing temp) c \<longleftrightarrow> c = seal data"
| "holds data (Closing temp) c \<longleftrightarrow> c = seal data"
| "holds data (Renaming temp) c \<longleftrightarrow> c = seal data"
| "holds data pc c \<longleftrightarrow> True"

definition owned :: "nodes \<Rightarrow> string \<Rightarrow> byte list \<Rightarrow> put_pc \<Rightarrow> bool" where
  "owned ns dir data pc \<longleftrightarrow>
     (\<forall>t. temp_of pc = Some t \<longrightarrow> t \<in> range (temp_name dir) \<and> (\<exists>c. map_of ns t = Some (Reg c) \<and> holds data pc c))"

lemma branch_cases:
  assumes "branch m bad good s = (pc1, s1)"
  obtains (bad) err where "m s = (Inl err, s1)" "pc1 = bad err"
  | (good) x where "m s = (Inr x, s1)" "pc1 = good x"
  using assms by (cases "m s" rule: prod.exhaust, cases "fst (m s)") (auto simp: branch_def)

lemma on_disk_D: "on_disk m s = (r, s1) \<Longrightarrow> m (cs_disk s) = (r, cs_disk s1) \<and> cs_store s1 = cs_store s"
  by (auto simp: on_disk_eq)

lemma branch_no_change:
  assumes "branch (on_disk (no_change os)) bad (\<lambda>u. good) s = (pc1, s1)"
  shows "cs_nodes s1 = cs_nodes s \<and> (pc1 = good \<or> (\<exists>err. pc1 = bad err))"
  using assms by (cases rule: branch_cases) (auto dest!: on_disk_D dest: no_change_InrD)

lemma Write_InlD: "Write os p bs d = (Inl err, d1) \<Longrightarrow> \<exists>bs1. dk_nodes d1 = append_to p bs1 (dk_nodes d)"
  by (auto simp: Write_def Let_def split: option.splits)

lemma put_step_cases:
  assumes "put_step os final i data pc s = (pc1, s1)" "owned (cs_nodes s) (Dir_of final) data pc"
  obtains
    (quiet) "cs_nodes s1 = cs_nodes s" "temp_of pc1 = temp_of pc" "\<And>c. holds data pc c \<Longrightarrow> holds data pc1 c"
      "pc1 = Returned (Inr ()) \<Longrightarrow> pc = pc1 \<or> pc = Counting
         \<or> (\<exists>bs. map_of (cs_nodes s) final = Some (Reg bs) \<and> header_matches bs data)"
      "pc1 \<noteq> Counting"
  | (making) "spared {} (cs_nodes s) (cs_nodes s1)" "temp_of pc = None" "temp_of pc1 = None" "pc1 \<noteq> Returned (Inr ())" "pc1 \<noteq> Counting"
  | (naming) t where "temp_of pc = None" "map_of (cs_nodes s) t = None" "t \<in> range (temp_name (Dir_of final))"
      "cs_nodes s1 = AList.update t (Reg []) (cs_nodes s)" "pc1 = Writing t (temp_parts data)"
  | (writing) t c where "temp_of pc = Some t" "temp_of pc1 = Some t" "untouched {t} (cs_nodes s) (cs_nodes s1)"
      "map_of (cs_nodes s1) t = Some (Reg c)" "holds data pc1 c"
  | (renaming) t where "temp_of pc = Some t" "pc1 = Counting"
      "cs_nodes s1 = AList.update final (Reg (seal data)) (AList.delete t (cs_nodes s))"
  | (dropping) t err where "temp_of pc = Some t" "pc1 = Returned (Inl err)" "untouched {t} (cs_nodes s) (cs_nodes s1)"
proof (cases "(os, final, i, data, pc, s)" rule: put_step.cases)
  case (1 os final i data s)
  then show thesis
    using assms(1) check_existing_nodes [of os final i data "cs_disk s"]
    by (auto intro!: quiet elim!: branch_cases dest!: on_disk_D split: if_splits)
next
  case (3 os final i data p ps s)
  have "spared {} (cs_nodes s) (dk_nodes (snd (mkdirs os [p] (cs_disk s))))"
    by (rule mkdirs_spared)
  with 3 assms(1) show thesis
    by (intro making) (auto simp: bindR_def elim!: branch_cases dest!: on_disk_D split: sum.splits)
next
  case (5 os final i data tries s)
  let ?name = "temp_name (Dir_of final) (os_random os (dk_tick (cs_disk s)))"
  from 5 assms(1) have "branch (on_disk (sys os (sys_create ?name)))
      (\<lambda>err. if os_IsExist err then Naming tries
        else Returned (Inl (internal ''failed to create temp file'' (path_error ''open'' (Dir_of final) err))))
      (\<lambda>_. Writing ?name (temp_parts data)) s = (pc1, s1)"
    by (simp add: Let_def)
  then show thesis
  proof (cases rule: branch_cases)
    case (bad err)
    with 5 sys_InlD show thesis
      by (intro quiet) (auto dest!: on_disk_D split: if_splits)
  next
    case (good x)
    then have "sys_create ?name (cs_nodes s) = Inr (x, cs_nodes s1)"
      by (auto dest!: on_disk_D sys_InrD)
    with 5 good(2) show thesis
      by (intro naming [of ?name]) (auto simp: sys_create_def split: option.splits)
  qed
next
  case (7 os final i data temp what bs parts s)
  with assms(2) obtain c where c: "map_of (cs_nodes s) temp = Some (Reg c)" "c @ bs @ concat (map snd parts) = seal data"
    by (auto simp: owned_def)
  from 7 assms(1) have "branch (on_disk (Write os temp bs))
       (\<lambda>err. Abandoning temp (internal what (path_error ''write'' temp err))) (\<lambda>_. Writing temp parts) s = (pc1, s1)"
    by simp
  then show thesis
  proof (cases rule: branch_cases)
    case (bad err)
    then have "Write os temp bs (cs_disk s) = (Inl err, cs_disk s1)"
      by (auto dest: on_disk_D)
    then obtain bs1 where "cs_nodes s1 = AList.update temp (Reg (c @ bs1)) (cs_nodes s)"
      using Write_InlD append_to_simp [OF c(1)] by metis
    with 7 bad(2) show thesis
      by (intro writing [of temp "c @ bs1"]) (auto simp: untouched_def update_conv')
  next
    case (good x)
    then have "cs_nodes s1 = AList.update temp (Reg (c @ bs)) (cs_nodes s)"
      using Write_nodes(2) append_to_simp [OF c(1)] by (metis on_disk_D)
    with 7 good(2) c(2) show thesis
      by (intro writing [of temp "c @ bs"]) (auto simp: untouched_def update_conv')
  qed
next
  case (10 os final i data temp s)
  with assms(2) have c: "map_of (cs_nodes s) temp = Some (Reg (seal data))"
    by (auto simp: owned_def)
  from 10 assms(1) have "branch (on_disk (Rename os temp final))
       (\<lambda>err. Dropping temp (internal ''failed to rename temp file'' (path_error (''rename '' @ temp) final err))) (\<lambda>_. Counting) s = (pc1, s1)"
    by simp
  then show thesis
  proof (cases rule: branch_cases)
    case (bad err)
    with 10 Rename_InlD show thesis
      by (intro quiet) (auto dest!: on_disk_D)
  next
    case (good x)
    then have "Rename os temp final (cs_disk s) = (Inr x, cs_disk s1)"
      by (auto dest: on_disk_D)
    from Rename_InrD [OF this] 10 good(2) c show thesis
      by (intro renaming [of temp]) auto
  qed
next
  case (12 os final i data temp err s)
  with assms(1) drop_temp_untouched [of temp "cs_disk s" os] show thesis
    by (intro dropping [of temp err]) (auto simp: drop_temp_def elim!: branch_cases dest!: on_disk_D)
next
  case (13 os final i data s)
  with assms(1) show thesis
    by (intro quiet) (auto simp: branch_def add_used_def)
next
  case (8 os final i data temp s)
  with assms(1) have "branch (on_disk (no_change os)) (\<lambda>err. Abandoning temp (internal ''failed to fsync temp file'' (path_error ''sync'' temp err))) (\<lambda>_. Closing temp) s = (pc1, s1)"
    by simp
  from branch_no_change [OF this] 8 show thesis
    by (intro quiet) auto
next
  case (9 os final i data temp s)
  with assms(1) have "branch (on_disk (no_change os)) (\<lambda>err. Dropping temp (internal ''failed to close temp file'' (path_error ''close'' temp err))) (\<lambda>_. Renaming temp) s = (pc1, s1)"
    by simp
  from branch_no_change [OF this] 9 show thesis
    by (intro quiet) auto
next
  case (11 os final i data temp err s)
  with assms(1) have "branch (on_disk (no_change os)) (\<lambda>_. Dropping temp err) (\<lambda>_. Dropping temp err) s = (pc1, s1)"
    by simp
  from branch_no_change [OF this] 11 show thesis
    by (intro quiet) auto
next
  case (2 os final i data s)
  with assms(1) show thesis
    by (intro quiet) auto
next
  case (4 os final i data s)
  with assms(1) show thesis
    by (intro quiet) auto
next
  case (6 os final i data temp s)
  with assms(1) show thesis
    by (intro quiet) auto
next
  case (14 os final i data r s)
  with assms(1) show thesis
    by (intro quiet) auto
qed


lemma task_step_store:
  assumes "task_step os t s = (t1, s1)"
  shows "ds_baseDir (cs_store s1) = ds_baseDir (cs_store s)"
proof -
  have branch: "branch (on_disk m) bad good s2 = (pc1, s3) \<Longrightarrow> cs_store s3 = cs_store s2"
    for m :: "(disk, 'e, 'a) op" and bad :: "'e \<Rightarrow> 'pc" and good s2 pc1 s3
    by (auto elim!: branch_cases dest!: on_disk_D)
  show ?thesis
  proof (cases t)
    case (PutTask i data pc)
    with assms show ?thesis
      by (cases "(os, Path (cs_store s) i, i, data, pc, s)" rule: put_step.cases)
        (auto simp: Let_def branch branch_def [of "add_used _"] add_used_def split: prod.splits)
  next
    case (DeleteTask i pc)
    with assms show ?thesis
      by (cases pc) (auto simp: branch branch_def [of "add_used _"] add_used_def split: prod.splits)
  qed
qed

subsection \<open>The invariant\<close>

definition came_from :: "disk_store \<Rightarrow> nodes \<Rightarrow> (string \<times> byte list) set \<Rightarrow> string \<Rightarrow> byte list \<Rightarrow> bool" where
  "came_from ds ns0 puts i bs \<longleftrightarrow> map_of ns0 (Path ds i) = Some (Reg bs)
     \<or> (\<exists>data. (i, data) \<in> puts \<and> length data \<le> maxSize \<and> bs = seal data)"

definition chunk_kept :: "disk_store \<Rightarrow> nodes \<Rightarrow> (string \<times> byte list) set \<Rightarrow> string set \<Rightarrow> string \<Rightarrow> byte list \<Rightarrow> bool" where
  "chunk_kept ds ns puts dels i data \<longleftrightarrow> (\<forall>b. (i, b) \<in> puts \<longrightarrow> b = data) \<longrightarrow> i \<notin> dels \<longrightarrow>
     (\<exists>bs. map_of ns (Path ds i) = Some (Reg bs) \<and> header_matches bs data)"

fun task_ok :: "disk_store \<Rightarrow> nodes \<Rightarrow> (string \<times> byte list) set \<Rightarrow> string set \<Rightarrow> task \<Rightarrow> bool" where
  "task_ok ds ns puts dels (PutTask i data pc) \<longleftrightarrow> valid_id i \<and> (i, data) \<in> puts
     \<and> (length data \<le> maxSize \<or> (\<exists>err. pc = Returned (Inl err))) \<and> owned ns (shard ds i) data pc
     \<and> (pc = Counting \<or> pc = Returned (Inr ()) \<longrightarrow> chunk_kept ds ns puts dels i data)"
| "task_ok ds ns puts dels (DeleteTask i pc) \<longleftrightarrow> valid_id i \<and> i \<in> dels"

fun task_temp :: "task \<Rightarrow> string option" where
  "task_temp (PutTask i data pc) = temp_of pc"
| "task_temp (DeleteTask i pc) = None"

abbreviation cw_nodes :: "crowd \<Rightarrow> nodes" where
  "cw_nodes st \<equiv> cs_nodes (cw_chunks st)"

definition temps_apart :: "task list \<Rightarrow> bool" where
  "temps_apart ts \<longleftrightarrow> (\<forall>j k t. j < length ts \<longrightarrow> k < length ts \<longrightarrow> task_temp (ts ! j) = Some t \<longrightarrow> task_temp (ts ! k) = Some t \<longrightarrow> j = k)"

definition crowd_ok :: "disk_store \<Rightarrow> nodes \<Rightarrow> crowd \<Rightarrow> bool" where
  "crowd_ok ds ns0 st \<longleftrightarrow> ds_baseDir (cs_store (cw_chunks st)) = ds_baseDir ds
     \<and> (\<forall>i bs. valid_id i \<longrightarrow> map_of (cw_nodes st) (Path ds i) = Some (Reg bs) \<longrightarrow> came_from ds ns0 (cw_puts st) i bs)
     \<and> (\<forall>t \<in> set (cw_tasks st). task_ok ds (cw_nodes st) (cw_puts st) (cw_dels st) t)
     \<and> temps_apart (cw_tasks st)
     \<and> (\<forall>(i, data) \<in> cw_acked st. valid_id i \<and> chunk_kept ds (cw_nodes st) (cw_puts st) (cw_dels st) i data)"

text \<open>
  The files after a step that may touch the file of \<open>i\<close> and the paths \<open>X\<close>: it leaves every other entry
  alone, and gives no chunk new content but \<open>i\<close>, and \<open>i\<close> only the sealed \<open>D\<close>.
\<close>

definition touches :: "disk_store \<Rightarrow> string \<Rightarrow> byte list set \<Rightarrow> string set \<Rightarrow> nodes \<Rightarrow> nodes \<Rightarrow> bool" where
  "touches ds i D X ns ns1 \<longleftrightarrow>
     (\<forall>q. q \<noteq> Path ds i \<longrightarrow> q \<notin> X \<longrightarrow> map_of ns q \<noteq> None \<longrightarrow> map_of ns1 q = map_of ns q)
     \<and> (\<forall>j bs. valid_id j \<longrightarrow> map_of ns1 (Path ds j) = Some (Reg bs) \<longrightarrow>
          map_of ns (Path ds j) = Some (Reg bs) \<or> j = i \<and> bs \<in> seal ` D)"

definition chunk_stays :: "disk_store \<Rightarrow> string \<Rightarrow> byte list set \<Rightarrow> nodes \<Rightarrow> nodes \<Rightarrow> bool" where
  "chunk_stays ds i D ns ns1 \<longleftrightarrow> (\<forall>bs. map_of ns (Path ds i) = Some (Reg bs) \<longrightarrow>
     map_of ns1 (Path ds i) = Some (Reg bs) \<or> (\<exists>data \<in> D. map_of ns1 (Path ds i) = Some (Reg (seal data))))"

lemma spared_touches: "spared {} ns ns1 \<Longrightarrow> touches ds i {} {} ns ns1 \<and> chunk_stays ds i {} ns ns1"
  unfolding touches_def chunk_stays_def spared_def by (metis empty_iff node.distinct(1) option.inject option.distinct(1))

lemma came_from_step:
  assumes "touches ds i D X ns ns1" "D \<subseteq> {data. (i, data) \<in> puts \<and> length data \<le> maxSize}"
    and "\<forall>j bs. valid_id j \<longrightarrow> map_of ns (Path ds j) = Some (Reg bs) \<longrightarrow> came_from ds ns0 puts j bs"
  shows "valid_id j \<Longrightarrow> map_of ns1 (Path ds j) = Some (Reg bs) \<Longrightarrow> came_from ds ns0 puts j bs"
  using assms unfolding touches_def came_from_def by blast

lemma kept_step:
  assumes based: "based (ds_baseDir ds)" and vid: "valid_id i" "valid_id j"
    and touch: "touches ds i D X ns ns1" "D \<subseteq> {data. (i, data) \<in> puts}" "i \<in> dels \<or> chunk_stays ds i D ns ns1"
    and temps: "X \<subseteq> range (temp_name (shard ds i))" and kept: "chunk_kept ds ns puts dels j data"
  shows "chunk_kept ds ns1 puts dels j data"
  unfolding chunk_kept_def
proof (intro impI)
  assume agree: "\<forall>b. (j, b) \<in> puts \<longrightarrow> b = data" and dels: "j \<notin> dels"
  then obtain bs where bs: "map_of ns (Path ds j) = Some (Reg bs)" "header_matches bs data"
    using kept by (auto simp: chunk_kept_def)
  show "\<exists>bs. map_of ns1 (Path ds j) = Some (Reg bs) \<and> header_matches bs data"
  proof (cases "j = i")
    case True
    with touch(2,3) dels agree bs show ?thesis
      by (auto simp: chunk_stays_def header_matches_seal)
  next
    case False
    have "Path ds j \<notin> X"
    proof
      assume "Path ds j \<in> X"
      with temps obtain r where "temp_name (shard ds i) r = Path ds j"
        by force
      with temp_name_not_Path [OF based vid(2) based_shard [OF based vid(1)]] show False
        by blast
    qed
    moreover have "Path ds j \<noteq> Path ds i"
      using Path_injective [OF based vid(2,1)] False by auto
    ultimately show ?thesis
      using touch(1) bs by (simp add: touches_def)
  qed
qed

lemma owned_step:
  assumes based: "based (ds_baseDir ds)" and vid: "valid_id i" "valid_id j" and touch: "touches ds i D X ns ns1"
    and owned: "owned ns (shard ds j) data pc" "\<And>t. temp_of pc = Some t \<Longrightarrow> t \<notin> X"
  shows "owned ns1 (shard ds j) data pc"
  unfolding owned_def
proof (intro allI impI conjI)
  fix t
  assume t: "temp_of pc = Some t"
  with owned(1) obtain c where c: "t \<in> range (temp_name (shard ds j))" "map_of ns t = Some (Reg c)" "holds data pc c"
    by (auto simp: owned_def)
  then have "t \<noteq> Path ds i"
    using temp_name_not_Path [OF based vid(1) based_shard [OF based vid(2)]] by auto
  with owned(2) [OF t] touch c show "t \<in> range (temp_name (shard ds j))" "\<exists>c. map_of ns1 t = Some (Reg c) \<and> holds data pc c"
    by (auto simp: touches_def)
qed

lemma task_ok_step:
  assumes based: "based (ds_baseDir ds)" and vid: "valid_id i" and touch: "touches ds i D X ns ns1"
    "D \<subseteq> {data. (i, data) \<in> puts}" "i \<in> dels \<or> chunk_stays ds i D ns ns1" and temps: "X \<subseteq> range (temp_name (shard ds i))"
    and ok: "task_ok ds ns puts dels t" "\<And>p. task_temp t = Some p \<Longrightarrow> p \<notin> X"
  shows "task_ok ds ns1 puts dels t"
proof (cases t)
  case (PutTask j data pc)
  with ok have t: "valid_id j" "owned ns (shard ds j) data pc" "\<And>p. temp_of pc = Some p \<Longrightarrow> p \<notin> X"
    "pc = Counting \<or> pc = Returned (Inr ()) \<Longrightarrow> chunk_kept ds ns puts dels j data"
    by auto
  have "owned ns1 (shard ds j) data pc"
    using owned_step [OF based vid t(1) touch(1) t(2)] t(3) by blast
  moreover have "chunk_kept ds ns1 puts dels j data" if "pc = Counting \<or> pc = Returned (Inr ())"
    using kept_step [OF based vid t(1) touch temps t(4) [OF that]] .
  ultimately show ?thesis
    using ok(1) PutTask by simp
qed (use ok in simp)

text \<open>What the steps of both kinds of task touch.\<close>

lemma put_step_files:
  assumes step: "put_step os (Path ds i) i data pc s = (pc1, s1)" and own: "owned (cs_nodes s) (shard ds i) data pc"
    and based: "based (ds_baseDir ds)" and vid: "valid_id i"
  shows "touches ds i {data} (set_option (temp_of pc)) (cs_nodes s) (cs_nodes s1)"
    and "chunk_stays ds i {data} (cs_nodes s) (cs_nodes s1)"
    and "owned (cs_nodes s1) (shard ds i) data pc1"
    and "temp_of pc1 = Some t \<Longrightarrow> temp_of pc = Some t \<or> map_of (cs_nodes s) t = None"
    and "pc1 = Counting \<or> pc1 = Returned (Inr ()) \<Longrightarrow> pc = Counting \<or> pc = Returned (Inr ())
      \<or> (\<exists>bs. map_of (cs_nodes s1) (Path ds i) = Some (Reg bs) \<and> header_matches bs data)"
proof -
  let ?ns = "cs_nodes s" and ?ns1 = "cs_nodes s1" and ?X = "set_option (temp_of pc)"
  note dir = Dir_of_Path [OF based vid]
  have apart: "Path ds j \<noteq> t \<and> t \<noteq> Path ds j" if t: "t \<in> range (temp_name (shard ds i))" and j: "valid_id j" for t j
  proof -
    from t obtain r where "t = temp_name (shard ds i) r"
      by blast
    with temp_name_not_Path [OF based j based_shard [OF based vid], of r] show ?thesis
      by auto
  qed
  have mine: "t \<in> range (temp_name (shard ds i))" if "temp_of pc = Some t" for t
    using own that by (simp add: owned_def)
  have injective: "valid_id j \<Longrightarrow> Path ds j = Path ds i \<Longrightarrow> j = i" for j
    using Path_injective [OF based _ vid] by blast
  have all: "touches ds i {data} ?X ?ns ?ns1 \<and> chunk_stays ds i {data} ?ns ?ns1 \<and> owned ?ns1 (shard ds i) data pc1
      \<and> (\<forall>t. temp_of pc1 = Some t \<longrightarrow> temp_of pc = Some t \<or> map_of ?ns t = None)
      \<and> (pc1 = Counting \<or> pc1 = Returned (Inr ()) \<longrightarrow> pc = Counting \<or> pc = Returned (Inr ())
        \<or> (\<exists>bs. map_of ?ns1 (Path ds i) = Some (Reg bs) \<and> header_matches bs data))"
    using step own [folded dir]
  proof (cases rule: put_step_cases)
    case quiet
    with own show ?thesis
      by (auto simp: touches_def chunk_stays_def owned_def)
  next
    case making
    with spared_touches [OF making(1), of ds i] show ?thesis
      by (auto simp: touches_def chunk_stays_def owned_def)
  next
    case (naming t)
    with apart [of t] dir vid show ?thesis
      by (auto simp: touches_def chunk_stays_def owned_def update_conv' temp_parts_def seal_def)
  next
    case (writing t c)
    with mine apart [of t] vid show ?thesis
      by (auto simp: touches_def chunk_stays_def owned_def untouched_def split: if_splits)
  next
    case (renaming t)
    with mine apart [of t] injective vid show ?thesis
      by (auto simp: touches_def chunk_stays_def owned_def update_conv' delete_conv' header_matches_seal split: if_splits)
  next
    case (dropping t err)
    with mine apart [of t] vid show ?thesis
      by (auto simp: touches_def chunk_stays_def owned_def untouched_def)
  qed
  note rest = all [THEN conjunct2] and rest2 = all [THEN conjunct2, THEN conjunct2, THEN conjunct2]
  show "touches ds i {data} ?X ?ns ?ns1"
    by (rule all [THEN conjunct1])
  show "chunk_stays ds i {data} ?ns ?ns1"
    by (rule rest [THEN conjunct1])
  show "owned ?ns1 (shard ds i) data pc1"
    by (rule rest [THEN conjunct2, THEN conjunct1])
  show "temp_of pc = Some t \<or> map_of ?ns t = None" if "temp_of pc1 = Some t"
    by (rule rest2 [THEN conjunct1, rule_format, OF that])
  show "pc = Counting \<or> pc = Returned (Inr ()) \<or> (\<exists>bs. map_of ?ns1 (Path ds i) = Some (Reg bs) \<and> header_matches bs data)"
    if "pc1 = Counting \<or> pc1 = Returned (Inr ())"
    by (rule rest2 [THEN conjunct2, rule_format, OF that])
qed

lemma Remove_gone: "map_of (dk_nodes (snd (Remove os p d))) p \<in> {None, map_of (dk_nodes d) p}"
  by (cases rule: sys_cases [of os "sys_remove p" d])
    (auto simp: Remove_def sys_remove_def delete_conv' split: sum.splits node.splits if_splits)

lemma delete_step_files:
  assumes "delete_step os (Path ds i) pc s = (pc1, s1)" "based (ds_baseDir ds)" "valid_id i"
  shows "touches ds i {} {} (cs_nodes s) (cs_nodes s1)"
proof -
  let ?p = "Path ds i"
  have injective: "valid_id j \<Longrightarrow> Path ds j = ?p \<Longrightarrow> j = i" for j
    using Path_injective [OF assms(2) _ assms(3)] by blast
  have "untouched {?p} (cs_nodes s) (cs_nodes s1) \<and> map_of (cs_nodes s1) ?p \<in> {None, map_of (cs_nodes s) ?p}"
  proof (cases pc)
    case Stating
    have "dk_nodes d1 = dk_nodes d" if "Stat os ?p d = (r, d1)" for r d d1
      using that Stat_nodes [of os ?p d] by simp
    with Stating assms(1) show ?thesis
      by (auto elim!: branch_cases dest!: on_disk_D)
  next
    case (Unlinking n)
    then have "cs_nodes s1 = dk_nodes (snd (Remove os ?p (cs_disk s)))"
      using assms(1) by (auto elim!: branch_cases dest!: on_disk_D)
    then show ?thesis
      using drop_temp_untouched [of ?p "cs_disk s" os] Remove_gone [of os ?p "cs_disk s"] by (simp add: drop_temp_def)
  qed (use assms(1) in \<open>auto simp: branch_def add_used_def\<close>)
  then show ?thesis
    unfolding touches_def untouched_def by (metis empty_iff insert_iff option.distinct(1))
qed

subsection \<open>The invariant holds in every reachable state\<close>

lemma crowd_okD:
  assumes "crowd_ok ds ns0 st"
  shows "ds_baseDir (cs_store (cw_chunks st)) = ds_baseDir ds"
    and "\<forall>i bs. valid_id i \<longrightarrow> map_of (cw_nodes st) (Path ds i) = Some (Reg bs) \<longrightarrow> came_from ds ns0 (cw_puts st) i bs"
    and "t \<in> set (cw_tasks st) \<Longrightarrow> task_ok ds (cw_nodes st) (cw_puts st) (cw_dels st) t"
    and "temps_apart (cw_tasks st)"
    and "(i, data) \<in> cw_acked st \<Longrightarrow> valid_id i \<and> chunk_kept ds (cw_nodes st) (cw_puts st) (cw_dels st) i data"
  using assms by (auto simp: crowd_ok_def)

lemma task_ok_acked:
  "task_ok ds ns puts dels t \<Longrightarrow> (i, data) \<in> newly_acked t \<Longrightarrow> valid_id i \<and> chunk_kept ds ns puts dels i data"
  by (auto simp: newly_acked_def split: task.splits put_pc.splits sum.splits)

lemma task_ok_temp: "task_ok ds ns puts dels t \<Longrightarrow> task_temp t = Some p \<Longrightarrow> map_of ns p \<noteq> None"
  by (cases t) (auto simp: owned_def)

lemma temps_apart_update:
  assumes "temps_apart ts" "k < length ts"
    and "\<And>j p. j < length ts \<Longrightarrow> j \<noteq> k \<Longrightarrow> task_temp (ts ! j) = Some p \<Longrightarrow> task_temp t \<noteq> Some p"
  shows "temps_apart (ts[k := t])"
  unfolding temps_apart_def
proof (intro allI impI)
  fix j l p
  assume "j < length (ts[k := t])" "l < length (ts[k := t])"
    and temp: "task_temp (ts[k := t] ! j) = Some p" "task_temp (ts[k := t] ! l) = Some p"
  then have len: "j < length ts" "l < length ts"
    by simp_all
  show "j = l"
  proof (cases "j = k \<or> l = k")
    case True
    with temp assms(2) assms(3) [OF len(1), of p] assms(3) [OF len(2), of p] show ?thesis
      by (cases "j = k"; cases "l = k") simp_all
  next
    case False
    with temp have "task_temp (ts ! j) = Some p" "task_temp (ts ! l) = Some p"
      by simp_all
    with assms(1) len show ?thesis
      unfolding temps_apart_def by blast
  qed
qed

text \<open>The task at position \<open>k\<close> makes a step.\<close>

lemma crowd_ok_update:
  assumes ok: "crowd_ok ds ns0 st" and based: "based (ds_baseDir ds)" and vid: "valid_id i" and k: "k < length (cw_tasks st)"
    and base: "ds_baseDir (cs_store s1) = ds_baseDir ds"
    and touch: "touches ds i D X (cw_nodes st) (cs_nodes s1)" "i \<in> cw_dels st \<or> chunk_stays ds i D (cw_nodes st) (cs_nodes s1)"
    and D: "D \<subseteq> {data. (i, data) \<in> cw_puts st \<and> length data \<le> maxSize}"
    and X: "X \<subseteq> set_option (task_temp (cw_tasks st ! k))" "X \<subseteq> range (temp_name (shard ds i))"
    and t: "(\<And>data. chunk_kept ds (cw_nodes st) (cw_puts st) (cw_dels st) i data \<Longrightarrow> chunk_kept ds (cs_nodes s1) (cw_puts st) (cw_dels st) i data)
      \<Longrightarrow> task_ok ds (cs_nodes s1) (cw_puts st) (cw_dels st) t"
    and fresh: "\<And>p. task_temp t = Some p \<Longrightarrow> task_temp (cw_tasks st ! k) = Some p \<or> map_of (cw_nodes st) p = None"
  shows "crowd_ok ds ns0 (st\<lparr>cw_chunks := s1, cw_tasks := (cw_tasks st)[k := t], cw_acked := newly_acked t \<union> cw_acked st\<rparr>)"
proof -
  let ?ts = "cw_tasks st" and ?ns1 = "cs_nodes s1" and ?puts = "cw_puts st" and ?dels = "cw_dels st"
  note old = crowd_okD [OF ok]
  have D': "D \<subseteq> {data. (i, data) \<in> ?puts}"
    using D by blast
  note kept = kept_step [OF based vid _ touch(1) D' touch(2) X(2)]
  have other_temp: "task_temp (?ts ! j) \<noteq> Some p" if "j < length ?ts" "j \<noteq> k" "task_temp (?ts ! k) = Some p" for j p
    using old(4) that k by (auto simp: temps_apart_def)
  have t_ok: "task_ok ds ?ns1 ?puts ?dels t"
    by (rule t [OF kept [OF vid]])
  have "task_ok ds ?ns1 ?puts ?dels u" if u: "u \<in> set (?ts[k := t])" for u
  proof -
    from u obtain j where j: "j < length ?ts" "u = ?ts[k := t] ! j"
      by (auto simp: in_set_conv_nth)
    show ?thesis
    proof (cases "j = k")
      case True
      with j t_ok show ?thesis
        by simp
    next
      case False
      have "task_ok ds ?ns1 ?puts ?dels (?ts ! j)"
        using task_ok_step [OF based vid touch(1) D' touch(2) X(2) old(3)] j(1) other_temp [OF j(1) False] X(1) by (meson elem_set nth_mem subsetD)
      with j False show ?thesis
        by simp
    qed
  qed
  moreover have "temps_apart (?ts[k := t])"
  proof (rule temps_apart_update [OF old(4) k])
    fix j p
    assume j: "j < length ?ts" "j \<noteq> k" "task_temp (?ts ! j) = Some p"
    then have "map_of (cw_nodes st) p \<noteq> None"
      using task_ok_temp [OF old(3) [OF nth_mem]] by blast
    with fresh [of p] other_temp [OF j(1,2)] j(3) show "task_temp t \<noteq> Some p"
      by blast
  qed
  moreover have "valid_id j \<and> chunk_kept ds ?ns1 ?puts ?dels j data" if "(j, data) \<in> newly_acked t \<union> cw_acked st" for j data
    using that task_ok_acked [OF t_ok] old(5) kept by blast
  ultimately show ?thesis
    using came_from_step [OF touch(1) D old(2)] base by (auto simp: crowd_ok_def)
qed

text \<open>A read or a crash.\<close>

lemma crowd_ok_spared:
  assumes ok: "crowd_ok ds ns0 st" and based: "based (ds_baseDir ds)"
    and same: "spared {} (cw_nodes st) (cs_nodes s1)" "ds_baseDir (cs_store s1) = ds_baseDir ds" and ts: "ts \<in> {[], cw_tasks st}"
  shows "crowd_ok ds ns0 (st\<lparr>cw_chunks := s1, cw_tasks := ts\<rparr>)"
proof -
  note old = crowd_okD [OF ok] and touch = spared_touches [OF same(1), of ds "[]"]
  have vid: "valid_id []"
    by (simp add: valid_id_def)
  have "task_ok ds (cs_nodes s1) (cw_puts st) (cw_dels st) t" if "t \<in> set ts" for t
    using task_ok_step [OF based vid touch [THEN conjunct1] _ _ _ old(3)] touch that ts by auto
  moreover have "temps_apart ts"
    using ts old(4) by (auto simp: temps_apart_def)
  moreover have "valid_id j \<and> chunk_kept ds (cs_nodes s1) (cw_puts st) (cw_dels st) j data" if "(j, data) \<in> cw_acked st" for j data
    using kept_step [OF based vid _ touch [THEN conjunct1]] touch old(5) [OF that] by auto
  ultimately show ?thesis
    using came_from_step [OF touch [THEN conjunct1] _ old(2)] same(2) by (auto simp: crowd_ok_def)
qed

lemma crowd_ok_run:
  assumes ok: "crowd_ok ds ns0 st" and based: "based (ds_baseDir ds)" and k: "k < length (cw_tasks st)"
    and step: "task_step os (cw_tasks st ! k) (cw_chunks st) = (t, s1)"
  shows "crowd_ok ds ns0 (st\<lparr>cw_chunks := s1, cw_tasks := (cw_tasks st)[k := t], cw_acked := newly_acked t \<union> cw_acked st\<rparr>)"
proof -
  note old = crowd_okD [OF ok]
  have path: "Path (cs_store (cw_chunks st)) i = Path ds i" for i
    by (simp add: Path_def old(1))
  have base: "ds_baseDir (cs_store s1) = ds_baseDir ds"
    using task_step_store [OF step] old(1) by simp
  have now: "task_ok ds (cw_nodes st) (cw_puts st) (cw_dels st) (cw_tasks st ! k)"
    using old(3) k by simp
  note update = crowd_ok_update [OF ok based _ k base]
  show ?thesis
  proof (cases "cw_tasks st ! k")
    case (PutTask i data pc)
    with now have i: "valid_id i" "(i, data) \<in> cw_puts st" "length data \<le> maxSize \<or> (\<exists>err. pc = Returned (Inl err))"
      "owned (cw_nodes st) (shard ds i) data pc"
      "pc = Counting \<or> pc = Returned (Inr ()) \<Longrightarrow> chunk_kept ds (cw_nodes st) (cw_puts st) (cw_dels st) i data"
      by auto
    from step PutTask path obtain pc1 where pc1: "put_step os (Path ds i) i data pc (cw_chunks st) = (pc1, s1)" "t = PutTask i data pc1"
      by (auto split: prod.splits)
    show ?thesis
    proof (cases "\<exists>r. pc = Returned r")
      case True
      with pc1 PutTask have same: "s1 = cw_chunks st" "t = cw_tasks st ! k"
        by auto
      have "spared {} (cw_nodes st) (cs_nodes s1)"
        by (simp add: same)
      from spared_touches [OF this, of ds i] i(1) now show ?thesis
        by (intro update [of i "{}" "{}"]) (auto simp: same)
    next
      case False
      note files = put_step_files [OF pc1(1) i(4) based i(1)]
      have temp: "set_option (temp_of pc) \<subseteq> range (temp_name (shard ds i))"
        using i(4) by (auto simp: owned_def)
      have size: "length data \<le> maxSize"
        using i(3) False by blast
      show ?thesis
      proof (rule update [OF i(1) files(1) disjI2 [OF files(2)] _ _ temp])
        show "{data} \<subseteq> {data. (i, data) \<in> cw_puts st \<and> length data \<le> maxSize}"
          using i(2) size by simp
        show "set_option (temp_of pc) \<subseteq> set_option (task_temp (cw_tasks st ! k))"
          by (simp add: PutTask)
        show "task_temp (cw_tasks st ! k) = Some p \<or> map_of (cw_nodes st) p = None" if "task_temp t = Some p" for p
          using files(4) [of p] that by (simp add: PutTask pc1(2))
        assume "\<And>data. chunk_kept ds (cw_nodes st) (cw_puts st) (cw_dels st) i data
          \<Longrightarrow> chunk_kept ds (cs_nodes s1) (cw_puts st) (cw_dels st) i data"
        then have "chunk_kept ds (cs_nodes s1) (cw_puts st) (cw_dels st) i data" if "pc1 = Counting \<or> pc1 = Returned (Inr ())"
          using files(5) [OF that] i(5) unfolding chunk_kept_def [of ds "cs_nodes s1"] by blast
        with i(1,2) size files(3) show "task_ok ds (cs_nodes s1) (cw_puts st) (cw_dels st) t"
          by (simp add: pc1(2))
      qed
    qed
  next
    case (DeleteTask i pc)
    with now have i: "valid_id i" "i \<in> cw_dels st"
      by auto
    from step DeleteTask path obtain pc1 where pc1: "delete_step os (Path ds i) pc (cw_chunks st) = (pc1, s1)" "t = DeleteTask i pc1"
      by (auto split: prod.splits)
    from delete_step_files [OF pc1(1) based i(1)] i show ?thesis
      by (intro update [of i "{}" "{}"]) (simp_all add: pc1(2))
  qed
qed

text \<open>A new task.\<close>

lemma chunk_kept_mono:
  "chunk_kept ds ns puts dels i data \<Longrightarrow> puts \<subseteq> puts1 \<Longrightarrow> dels \<subseteq> dels1 \<Longrightarrow> chunk_kept ds ns puts1 dels1 i data"
  unfolding chunk_kept_def by (meson subsetD)

lemma task_ok_mono:
  assumes "task_ok ds ns puts dels t" "puts \<subseteq> puts1" "dels \<subseteq> dels1"
  shows "task_ok ds ns puts1 dels1 t"
  using assms chunk_kept_mono [OF _ assms(2,3)] by (cases t) auto

lemma temps_apart_snoc: "temps_apart ts \<Longrightarrow> task_temp t = None \<Longrightarrow> temps_apart (ts @ [t])"
  unfolding temps_apart_def by (simp add: nth_append)

lemma crowd_ok_spawn:
  assumes ok: "crowd_ok ds ns0 st" and more: "cw_puts st \<subseteq> puts1" "cw_dels st \<subseteq> dels1"
    and t: "task_ok ds (cw_nodes st) puts1 dels1 t" "task_temp t = None"
  shows "crowd_ok ds ns0 (st\<lparr>cw_tasks := cw_tasks st @ [t], cw_puts := puts1, cw_dels := dels1\<rparr>)"
proof -
  note old = crowd_okD [OF ok]
  have "task_ok ds (cw_nodes st) puts1 dels1 u" if "u \<in> set (cw_tasks st @ [t])" for u
    using that t(1) task_ok_mono [OF old(3) more] by auto
  moreover have "came_from ds ns0 puts1 i bs" if "valid_id i" "map_of (cw_nodes st) (Path ds i) = Some (Reg bs)" for i bs
    using old(2) [rule_format, OF that] more(1) unfolding came_from_def by blast
  moreover have "valid_id i \<and> chunk_kept ds (cw_nodes st) puts1 dels1 i data" if "(i, data) \<in> cw_acked st" for i data
    using old(5) [OF that] chunk_kept_mono [OF _ more] by blast
  ultimately show ?thesis
    using old(1) temps_apart_snoc [OF old(4) t(2)] by (auto simp: crowd_ok_def)
qed

lemma crowd_ok_step:
  assumes "crowd_step st st1" "crowd_ok ds ns0 st" "based (ds_baseDir ds)"
  shows "crowd_ok ds ns0 st1"
  using assms(1)
proof cases
  case (crowd_run k os t s1)
  with crowd_ok_run [OF assms(2,3)] show ?thesis
    by blast
next
  case (crowd_put i data ctx)
  have "task_ok ds (cw_nodes st) (insert (i, data) (cw_puts st)) (cw_dels st) (PutTask i data (put_start ctx (Inr data)))"
    "task_temp (PutTask i data (put_start ctx (Inr data))) = None"
    using crowd_put(2) by (auto simp: put_start_def owned_def split: option.splits)
  from crowd_ok_spawn [OF assms(2) _ _ this] show ?thesis
    by (simp add: crowd_put(1) subset_insertI)
next
  case (crowd_delete i)
  with crowd_ok_spawn [OF assms(2) subset_refl, of "insert i (cw_dels st)" "DeleteTask i Stating"] show ?thesis
    by (simp add: subset_insertI)
next
  case (crowd_read os i r s1)
  have "cs_nodes s1 = cw_nodes st" "cs_store s1 = cs_store (cw_chunks st)"
    using read_chunk_state [OF crowd_read(2)] by simp_all
  with crowd_ok_spared [OF assms(2,3), of s1 "cw_tasks st"] crowd_okD(1) [OF assms(2)] show ?thesis
    by (simp add: crowd_read(1))
next
  case (crowd_crash os dir cap dsn d)
  with crowd_ok_spared [OF assms(2,3), of "\<lparr>cs_store = dsn, cs_disk = d\<rparr>" "[]"] New_store_spared [OF crowd_crash(2)]
    crowd_okD(1) [OF assms(2)] show ?thesis
    by simp
qed

lemma crowd_ok_reachable:
  assumes "crowd_reachable s0 st" "based (ds_baseDir (cs_store s0))"
  shows "crowd_ok (cs_store s0) (cs_nodes s0) st"
  using assms(1)
proof induction
  case crowd_start
  then show ?case
    by (simp add: crowd_ok_def temps_apart_def came_from_def)
next
  case (crowd_next st st1)
  with assms(2) show ?case
    by (blast intro: crowd_ok_step)
qed

subsection \<open>Complete chunks under any interleaving\<close>

text \<open>
  C13. Whatever calls overlap on a store, in whatever order their system calls are made and fail, and wherever
  crashes come in between: the file of a chunk is the one it was or a complete one of data that some \<open>Put\<close> of
  that ID brought, never a part or a mixture; what a read delivers at any time is all of such data;
  and once a \<open>Put\<close> has reported success its chunk stays, if all Puts of the ID bring the same data and
  nobody deletes it.
\<close>

theorem interleaved_chunks:
  assumes "crowd_reachable s0 st" "based (ds_baseDir (cs_store s0))" "valid_id i"
  shows "(\<forall>bs. cs_stored (cw_chunks st) i = Some bs \<longrightarrow>
        cs_stored s0 i = Some bs \<or> (\<exists>data. (i, data) \<in> cw_puts st \<and> bs = seal data))
    \<and> (\<forall>os data s1. read_chunk os i (cw_chunks st) = (Inr data, s1) \<longrightarrow> (i, data) \<in> cw_puts st
        \<or> (\<exists>bs. cs_stored s0 i = Some bs \<and> header_matches bs data \<and> prefix data (drop headerSize bs)))
    \<and> (\<forall>data. (i, data) \<in> cw_acked st \<longrightarrow> (\<forall>b. (i, b) \<in> cw_puts st \<longrightarrow> b = data) \<longrightarrow> i \<notin> cw_dels st \<longrightarrow>
        (\<exists>bs. cs_stored (cw_chunks st) i = Some bs \<and> header_matches bs data))"
proof (intro conjI allI impI)
  note ok = crowd_okD [OF crowd_ok_reachable [OF assms(1,2)]]
  have path: "chunk_path (cw_chunks st) i = chunk_path s0 i"
    by (simp add: Path_def ok(1))
  have reg: "cs_stored s i = Some bs \<longleftrightarrow> map_of (cs_nodes s) (chunk_path s i) = Some (Reg bs)" for s bs
    by (auto simp: stored_def split: option.splits node.splits)
  have came: "came_from (cs_store s0) (cs_nodes s0) (cw_puts st) i bs" if "cs_stored (cw_chunks st) i = Some bs" for bs
    using ok(2) assms(3) that reg [of "cw_chunks st"] path by simp
  show "cs_stored s0 i = Some bs \<or> (\<exists>data. (i, data) \<in> cw_puts st \<and> bs = seal data)" if "cs_stored (cw_chunks st) i = Some bs" for bs
    using came [OF that] reg [of s0] by (auto simp: came_from_def)
  show "(i, data) \<in> cw_puts st \<or> (\<exists>bs. cs_stored s0 i = Some bs \<and> header_matches bs data \<and> prefix data (drop headerSize bs))"
    if read: "read_chunk os i (cw_chunks st) = (Inr data, s1)" for os data s1
  proof -
    obtain bs where bs: "cs_stored (cw_chunks st) i = Some bs" "header_matches bs data" "prefix data (drop headerSize bs)"
      using read_chunk_verified [OF read] reg by blast
    have "data = d" if d: "bs = seal d" "length d \<le> maxSize" for d
    proof -
      have prefix: "prefix data d" and "word_of_nat (length data) = (word_of_nat (length d) :: uint64)"
        using bs(2,3) d(1) by (simp_all add: header_matches_seal drop_seal)
      moreover have "length data \<le> length d"
        using prefix by (rule prefix_length_le)
      ultimately have "length data = length d"
        using d(2) by (simp add: word_of_nat_eq_iff take_bit_nat_eq_self maxSize_def)
      with prefix show ?thesis
        by (auto simp: prefix_def)
    qed
    with came [OF bs(1)] bs reg [of s0] show ?thesis
      by (auto simp: came_from_def)
  qed
  show "\<exists>bs. cs_stored (cw_chunks st) i = Some bs \<and> header_matches bs data"
    if "(i, data) \<in> cw_acked st" "\<forall>b. (i, b) \<in> cw_puts st \<longrightarrow> b = data" "i \<notin> cw_dels st" for data
    using ok(5) [OF that(1)] that(2,3) reg [of "cw_chunks st"] path by (simp add: chunk_kept_def)
qed

subsection \<open>Whole calls are runs of tasks\<close>

lemma Path_base: "ds_baseDir ds = ds_baseDir ds1 \<Longrightarrow> Path ds i = Path ds1 i"
  by (simp add: Path_def)

lemma crowd_put_run:
  assumes "put_run os final i data pc s = (r, s1)" "crowd_reachable s0 st" "cw_chunks st = s" "Path (cs_store s) i = final"
    and "k < length (cw_tasks st)" "cw_tasks st ! k = PutTask i data pc" "pc = Returned (Inr ()) \<Longrightarrow> (i, data) \<in> cw_acked st"
  shows "\<exists>acked. crowd_reachable s0 (st\<lparr>cw_chunks := s1, cw_tasks := (cw_tasks st)[k := PutTask i data (Returned r)], cw_acked := acked\<rparr>)
    \<and> cw_acked st \<subseteq> acked \<and> (r = Inr () \<longrightarrow> (i, data) \<in> acked)"
  using assms
proof (induction os final i data pc s arbitrary: st rule: put_run.induct)
  case (1 os final i data pc s)
  show ?case
  proof (cases "pc_result pc")
    case (Some q)
    then have pc: "pc = Returned q"
      by simp
    with "1.prems" have "st\<lparr>cw_chunks := s1, cw_tasks := (cw_tasks st)[k := PutTask i data (Returned r)], cw_acked := cw_acked st\<rparr> = st"
      by (metis crowd.surjective crowd.update_convs(1,2,5) list_update_id prod.inject put_run_Returned)
    with "1.prems" pc show ?thesis
      by (intro exI [of _ "cw_acked st"]) auto
  next
    case None
    obtain pc1 s2 where step: "put_step os final i data pc s = (pc1, s2)"
      by (cases "put_step os final i data pc s")
    let ?t = "PutTask i data pc1"
    let ?st = "st\<lparr>cw_chunks := s2, cw_tasks := (cw_tasks st)[k := ?t], cw_acked := newly_acked ?t \<union> cw_acked st\<rparr>"
    have task: "task_step os (cw_tasks st ! k) (cw_chunks st) = (?t, s2)"
      using "1.prems" step by simp
    have reach: "crowd_reachable s0 ?st"
      using "1.prems"(2) crowd_run [OF "1.prems"(5) task] by (rule crowd_next)
    have path: "Path (cs_store s2) i = final"
      using Path_base [OF task_step_store [OF task], of i] "1.prems"(3,4) by simp
    have run: "put_run os final i data pc1 s2 = (r, s1)"
      using "1.prems"(1) None step by (simp add: put_run.simps [of os final i data pc])
    from "1.IH" [OF None step [symmetric] run reach _ path] "1.prems"(5) show ?thesis
      by (auto simp: newly_acked_def)
  qed
qed

lemma crowd_runs_Put:
  assumes "Put os ctx i (Inr data) (cw_chunks st) = (r, s1)" "crowd_reachable s0 st" "valid_id i"
  shows "\<exists>acked. crowd_reachable s0 (st\<lparr>cw_puts := insert (i, data) (cw_puts st), cw_chunks := s1,
      cw_tasks := cw_tasks st @ [PutTask i data (Returned r)], cw_acked := acked\<rparr>) \<and> (r = Inr () \<longrightarrow> (i, data) \<in> acked)"
proof -
  let ?t = "PutTask i data (put_start ctx (Inr data))"
  let ?st = "st\<lparr>cw_tasks := cw_tasks st @ [?t], cw_puts := insert (i, data) (cw_puts st)\<rparr>"
  have "put_run os (Path (cs_store (cw_chunks st)) i) i data (put_start ctx (Inr data)) (cw_chunks st) = (r, s1)"
    using assms(1) by (simp add: Put_as_steps)
  note run = crowd_put_run [OF this crowd_next [OF assms(2) crowd_put [OF assms(3)]], of data ctx "length (cw_tasks st)"]
  have "put_start ctx (Inr data) \<noteq> Returned (Inr ())"
    by (simp add: put_start_def split: option.split)
  with run show ?thesis
    by auto
qed

theorem interleaved_chunks_witness:
  "\<exists>st. crowd_reachable small_store st \<and> (''chunk1'', [1, 2, 3]) \<in> cw_acked st
    \<and> (\<exists>bs. cs_stored (cw_chunks st) ''chunk1'' = Some bs \<and> header_matches bs [1, 2, 3])"
proof -
  let ?st = "\<lparr>cw_chunks = small_store, cw_tasks = [], cw_puts = {}, cw_dels = {}, cw_acked = {}\<rparr>"
  have based: "based (ds_baseDir (cs_store small_store))"
    using small_accounted by (simp add: accounted_def layout_ok_def)
  obtain s1 where "Put plain_os None ''chunk1'' (Inr [1, 2, 3]) (cw_chunks ?st) = (Inr (), s1)"
    using Put_new [of plain_os small_store "''chunk1''" "[1, 2, 3]"] small_accounted small_empty chunk1_valid
    by (auto simp: accounted_def maxSize_def)
  from crowd_runs_Put [OF this crowd_start chunk1_valid] obtain acked where
    reach: "crowd_reachable small_store (?st\<lparr>cw_puts := {(''chunk1'', [1, 2, 3])}, cw_chunks := s1,
      cw_tasks := [PutTask ''chunk1'' [1, 2, 3] (Returned (Inr ()))], cw_acked := acked\<rparr>)" and acked: "(''chunk1'', [1, 2, 3]) \<in> acked"
    by auto
  from interleaved_chunks [OF reach based chunk1_valid] acked
  have "\<exists>bs. cs_stored s1 ''chunk1'' = Some bs \<and> header_matches bs [1, 2, 3]"
    by simp
  with reach acked show ?thesis
    by (intro exI, intro conjI) (assumption, simp_all)
qed

subsection \<open>Two Puts of one chunk that overlap\<close>

text \<open>
  Only the usage counter is protected by the mutex. In the run below both calls have checked for an existing
  file before either writes; the second rename replaces the file of the first.
\<close>

lemma check_new:
  assumes "os_ok os" "layout_ok (cs_store s) (cs_nodes s)" "valid_id i" "cs_stored s i = None"
  shows "\<exists>d. put_step os (chunk_path s i) i data Checking s
      = (Making (ancestors (Dir_of (chunk_path s i)) @ [Dir_of (chunk_path s i)]), s\<lparr>cs_disk := d\<rparr>) \<and> dk_nodes d = cs_nodes s"
proof -
  obtain d where "check_existing os (chunk_path s i) i (sha256 data) (word_of_nat (length data)) (cs_disk s) = (Inr False, d)"
    "dk_nodes d = cs_nodes s"
    using check_existing_ok [OF assms(1), of "cs_store s" "cs_disk s" i data] assms(2-4) by auto
  then show ?thesis
    by (intro exI [of _ d]) (simp add: branch_def on_disk_def)
qed

lemma write_run:
  assumes "os_ok os" "layout_ok (cs_store s) (cs_nodes s)" "valid_id i"
  shows "\<exists>d. put_run os (chunk_path s i) i data (Making (ancestors (Dir_of (chunk_path s i)) @ [Dir_of (chunk_path s i)])) s
      = (Inr (), \<lparr>cs_store = (cs_store s)\<lparr>ds_usedBytes := ds_usedBytes (cs_store s) + word_of_nat (headerSize + length data)\<rparr>,
           cs_disk = d\<rparr>) \<and> dk_nodes d = added (cs_store s) i data (cs_nodes s)"
proof -
  obtain d where "write_chunk os (chunk_path s i) (sha256 data) data (cs_disk s) = (Inr (), d)"
    "dk_nodes d = added (cs_store s) i data (cs_nodes s)"
    using write_chunk_ok [OF assms(1), of "cs_store s" "cs_disk s" i data] assms(2,3) by auto
  then show ?thesis
    by (intro exI [of _ d]) (cases s, simp add: run_write_chunk bindR_def on_disk_def add_used_def)
qed

lemma added_twice: "added ds i b (added ds i a ns) = added ds i b ns"
proof -
  obtain y where "map_of (added ds i a ns) (shard ds i) = Some y"
    by (cases "map_of (added ds i a ns) (shard ds i)") (auto simp: added_def update_conv' map_of_add_dir split: if_splits)
  then have "add_dir (shard ds i) (added ds i a ns) = added ds i a ns"
    by (simp add: add_dir_def)
  then show ?thesis
    by (simp add: added_def [of ds i b "added ds i a ns"]) (simp add: added_def)
qed

text \<open>
  C36. Two Puts of one new chunk, each within the size limit, can overlap so that both report success although
  their data differ: the second then replaces what the first was acknowledged for, which the check of an
  existing file is there to refuse, and the size of the first stays counted. No Delete, no failure and
  no crash is needed for it.
\<close>

theorem overlapping_puts_replace:
  assumes "os_ok os" "accounted s" "valid_id i" "cs_stored s i = None" "length a \<le> maxSize" "length b \<le> maxSize"
  shows "\<exists>st. crowd_reachable s st \<and> cw_dels st = {}
    \<and> cw_tasks st = [PutTask i a (Returned (Inr ())), PutTask i b (Returned (Inr ()))]
    \<and> (i, a) \<in> cw_acked st \<and> (i, b) \<in> cw_acked st \<and> cs_stored (cw_chunks st) i = Some (seal b)
    \<and> ds_usedBytes (cs_store (cw_chunks st)) = word_of_nat (usage (ds_baseDir (cs_store s)) (cs_nodes (cw_chunks st)))
        + word_of_nat (headerSize + length a)"
proof -
  let ?ds = "cs_store s" and ?ns = "cs_nodes s" and ?p = "chunk_path s i"
  let ?n = "\<lambda>data. word_of_nat (headerSize + length data) :: int64"
  let ?making = "Making (ancestors (Dir_of ?p) @ [Dir_of ?p])" and ?ret = "Returned (Inr ())"
  have lay: "layout_ok ?ds ?ns" and used: "ds_usedBytes ?ds = word_of_nat (usage (ds_baseDir ?ds) ?ns)"
    using assms(2) by (simp_all add: accounted_def)
  have start: "put_start None (Inr data) = Checking" if "length data \<le> maxSize" for data
    using that by (simp add: put_start_def)
  let ?st = "\<lambda>s' t u acked. \<lparr>cw_chunks = s', cw_tasks = [PutTask i a t, PutTask i b u], cw_puts = {(i, b), (i, a)}, cw_dels = {},
      cw_acked = acked\<rparr>"
  have "crowd_reachable s (?st s Checking Checking {})"
    using crowd_next [OF crowd_next [OF crowd_start crowd_put [OF assms(3), of _ a None]] crowd_put [OF assms(3), of _ b None]]
    by (simp add: start assms(5,6))
  note reach0 = this
  obtain d1 where d1: "put_step os ?p i a Checking s = (?making, s\<lparr>cs_disk := d1\<rparr>)" "dk_nodes d1 = ?ns"
    using check_new [OF assms(1) lay assms(3,4)] by blast
  let ?s1 = "s\<lparr>cs_disk := d1\<rparr>"
  have reach1: "crowd_reachable s (?st ?s1 ?making Checking {})"
    using reach0 d1(1) crowd_next [OF _ crowd_run [of 0 "?st s Checking Checking {}" os "PutTask i a ?making" ?s1]] by (simp add: newly_acked_def)
  obtain d2 where d2: "put_step os ?p i b Checking ?s1 = (?making, s\<lparr>cs_disk := d2\<rparr>)" "dk_nodes d2 = ?ns"
    using check_new [OF assms(1), of ?s1 i b] lay assms(3,4) d1(2) by (auto simp: stored_def)
  let ?s2 = "s\<lparr>cs_disk := d2\<rparr>"
  have reach2: "crowd_reachable s (?st ?s2 ?making ?making {})"
    using reach1 d2(1) crowd_next [OF _ crowd_run [of 1 "?st ?s1 ?making Checking {}" os "PutTask i b ?making" ?s2]] by (simp add: newly_acked_def)
  obtain d3 where d3: "put_run os ?p i a ?making ?s2 = (Inr (), \<lparr>cs_store = ?ds\<lparr>ds_usedBytes := ds_usedBytes ?ds + ?n a\<rparr>, cs_disk = d3\<rparr>)"
    "dk_nodes d3 = added ?ds i a ?ns"
    using write_run [OF assms(1), of ?s2 i a] lay assms(3) d2(2) by auto
  let ?ds3 = "?ds\<lparr>ds_usedBytes := ds_usedBytes ?ds + ?n a\<rparr>"
  let ?s3 = "\<lparr>cs_store = ?ds3, cs_disk = d3\<rparr>"
  obtain acked where reach3: "crowd_reachable s (?st ?s3 ?ret ?making acked)" and acked: "(i, a) \<in> acked"
    using crowd_put_run [OF d3(1) reach2, of 0] by auto
  have dir: "ds_baseDir ?ds3 = ds_baseDir ?ds" and paths: "Path ?ds3 = Path ?ds"
    by (simp_all add: Path_def fun_eq_iff)
  have lay3: "layout_ok ?ds3 (added ?ds i a ?ns)"
    using layout_added [OF lay assms(3), of a] unfolding layout_ok_def dir paths .
  have path: "Path ?ds3 i = ?p" "added ?ds3 i b ns = added ?ds i b ns" for ns
    by (simp_all add: Path_def added_def shard_def)
  obtain d4 where d4: "put_run os ?p i b ?making ?s3 = (Inr (), \<lparr>cs_store = ?ds\<lparr>ds_usedBytes := ds_usedBytes ?ds + ?n a + ?n b\<rparr>, cs_disk = d4\<rparr>)"
    "dk_nodes d4 = added ?ds i b ?ns"
    using write_run [OF assms(1), of ?s3 i b] lay3 assms(3) d3(2) path added_twice [of ?ds i b a ?ns] by auto
  let ?s4 = "\<lparr>cs_store = ?ds\<lparr>ds_usedBytes := ds_usedBytes ?ds + ?n a + ?n b\<rparr>, cs_disk = d4\<rparr>"
  obtain acked4 where "crowd_reachable s (?st ?s4 ?ret ?ret acked4)" "(i, b) \<in> acked4" "(i, a) \<in> acked4"
    using crowd_put_run [OF d4(1) reach3, of 1] path acked by auto
  moreover have "stored ?ds (dk_nodes d4) i = Some (seal b)"
    using stored_added [OF lay assms(3,3), of b] d4(2) by simp
  then have "cs_stored ?s4 i = Some (seal b)"
    by (simp add: stored_def Path_def)
  moreover have "usage (ds_baseDir ?ds) (dk_nodes d4) = usage (ds_baseDir ?ds) ?ns + headerSize + length b"
    using usage_added [OF lay assms(3,4), of b] d4(2) by simp
  ultimately show ?thesis
    using used by (intro exI [of _ "?st ?s4 ?ret ?ret acked4"]) (simp add: add_ac)
qed

theorem overlapping_puts_replace_witness:
  "\<exists>st. crowd_reachable small_store st \<and> (''chunk1'', [1, 2, 3]) \<in> cw_acked st \<and> (''chunk1'', [4, 5]) \<in> cw_acked st
     \<and> cs_stored (cw_chunks st) ''chunk1'' = Some (seal [4, 5])"
proof -
  have "length [1, 2, 3 :: byte] \<le> maxSize" "length [4, 5 :: byte] \<le> maxSize"
    by (simp_all add: maxSize_def)
  with overlapping_puts_replace [of plain_os small_store "''chunk1''" "[1, 2, 3]" "[4, 5]"] small_accounted small_empty chunk1_valid
  show ?thesis
    by auto
qed

end
