(* ===== verification/Lifecycle.thy ===== *)
theory Lifecycle
  imports Repair_Progress
begin

text \<open>
  The life cycle of files as an invariant of the metadata tables: which statuses occur, how the
  status of an upload session and of its file go together, and that every committed file has
  chunks, each recorded on at least the replication factor of nodes. \<open>lifecycle_ok\<close> is an instance
  of the contracts of \<open>Store_Invariants\<close>, so the registry and the repair scanner keep it by the
  lemmas proved there; here the three operations of the manifest manager are shown to keep it.
\<close>

definition known_statuses :: "tables \<Rightarrow> bool" where
  "known_statuses T \<longleftrightarrow>
     (\<forall>f \<in> set (t_files T). file_status f \<in> {FileStatusPending, FileStatusCommitted, FileStatusDeleted})
     \<and> (\<forall>u \<in> set (t_sessions T). sess_status u \<in> {UploadStatusPreparing, UploadStatusCommitted})"

definition sessions_match :: "tables \<Rightarrow> bool" where
  "sessions_match T \<longleftrightarrow> distinct (map sess_file (t_sessions T))
     \<and> (\<forall>u \<in> set (t_sessions T). \<forall>f \<in> set (t_files T). file_id f = sess_file u \<longrightarrow>
          (sess_status u = UploadStatusPreparing \<longrightarrow> file_status f \<noteq> FileStatusCommitted)
          \<and> (sess_status u = UploadStatusCommitted \<longrightarrow> file_status f \<noteq> FileStatusPending))"

definition replicated :: "int \<Rightarrow> tables \<Rightarrow> bool" where
  "replicated rf T \<longleftrightarrow> (\<forall>f \<in> set (t_files T). file_status f = FileStatusCommitted \<longrightarrow>
     file_chunk_ids T (file_id f) \<noteq> {}
     \<and> (\<forall>cid \<in> file_chunk_ids T (file_id f). rf \<le> int (length (replica_nodes T cid))))"

definition lifecycle_ok :: "int \<Rightarrow> tables \<Rightarrow> bool" where
  "lifecycle_ok rf T \<longleftrightarrow> tables_wf T \<and> known_statuses T \<and> sessions_match T \<and> replicated rf T"

lemmas lifecycle_defs = lifecycle_ok_def known_statuses_def sessions_match_def replicated_def

lemma lifecycle_add_location:
  assumes "lifecycle_ok rf T" "query_insert_chunk_location l T = Inr T1"
  shows "lifecycle_ok rf T1"
proof -
  have T1: "T1 = T\<lparr>t_locations := t_locations T @ [l]\<rparr>"
    using assms(2) by (auto simp: query_insert_chunk_location_def split: if_splits)
  have "tables_wf T1"
    using assms by (auto simp: lifecycle_ok_def intro: tables_wf_insert_location)
  moreover have "length (replica_nodes T cid) \<le> length (replica_nodes T1 cid)" for cid
    by (simp add: T1 replica_nodes_def)
  then have "rf \<le> int (length (replica_nodes T cid)) \<Longrightarrow> rf \<le> int (length (replica_nodes T1 cid))" for cid
    by (meson of_nat_mono order_trans)
  then have "replicated rf T1"
    using assms(1) by (simp add: lifecycle_ok_def replicated_def T1 file_chunk_ids_def)
  ultimately show ?thesis
    using assms(1) by (simp add: lifecycle_ok_def known_statuses_def sessions_match_def T1)
qed

interpretation life: replica_invariant "lifecycle_ok rf" for rf
proof unfold_locales
  fix T l T1
  assume "lifecycle_ok rf T" "query_insert_chunk_location l T = Inr T1"
  then show "lifecycle_ok rf T1"
    by (rule lifecycle_add_location)
qed (simp_all add: lifecycle_defs file_chunk_ids_def replica_nodes_def)

subsection \<open>PrepareUpload\<close>

lemma wf_prepare_tx: "preserves (on_tables tables_wf) (prepare_tx e a fileName fileSize chunks)"
  unfolding prepare_tx_def by (intro preserve_intros wf_writes)

lemma prepare_files_new:
  assumes "prepare_tx e a fileName fileSize chunks s = (Inr u, s1)"
  shows "new_id a 0 \<notin> file_id ` set (t_files (conn_tables s))"
  using assms
  by (auto simp: prepare_tx_def bindR_eq_Inr prepared_file_def query_insert_file_def split: if_splits
      dest!: CreateFile_InrD)

lemma plan_files: "plan_chunks a fid fs cs = Ret chunks \<Longrightarrow> c \<in> set chunks \<Longrightarrow> chunk_file c = fid"
  by (auto simp: plan_chunks_def plan_chunk_def Let_def split: if_splits)

text \<open>The rows of a new upload belong to a file that did not exist before.\<close>

lemma lifecycle_prepare:
  assumes life: "lifecycle_ok rf T" and wf: "tables_wf T1"
    and T1: "T1 = T\<lparr>t_files := t_files T @ [prepared_file a fileName fileSize],
      t_sessions := t_sessions T @ [prepared_session a], t_chunks := t_chunks T @ chunks\<rparr>"
    and new: "new_id a 0 \<notin> file_id ` set (t_files T)"
    and chunks: "\<And>c. c \<in> set chunks \<Longrightarrow> chunk_file c = new_id a 0"
  shows "lifecycle_ok rf T1"
proof -
  have no_session: "new_id a 0 \<notin> sess_file ` set (t_sessions T)"
    using life new by (force simp: lifecycle_ok_def tables_wf_def)
  have old: "file_id f \<noteq> new_id a 0" if "f \<in> set (t_files T)" for f
    using new that by (metis image_eqI)
  moreover have "file_chunk_ids T1 fid = file_chunk_ids T fid" if "fid \<noteq> new_id a 0" for fid
    using chunks that by (force simp: file_chunk_ids_def T1)
  moreover have "replica_nodes T1 = replica_nodes T"
    by (simp add: replica_nodes_def T1 fun_eq_iff)
  ultimately have "replicated rf T1"
    using life by (auto simp: lifecycle_ok_def replicated_def T1 prepared_file_def)
  moreover have "known_statuses T1"
    using life by (auto simp: lifecycle_ok_def known_statuses_def T1 prepared_file_def prepared_session_def)
  moreover have "sessions_match T1"
    unfolding sessions_match_def
  proof (intro conjI ballI impI)
    show "distinct (map sess_file (t_sessions T1))"
      using life no_session by (simp add: lifecycle_ok_def sessions_match_def T1 prepared_session_def)
    fix u f
    assume u: "u \<in> set (t_sessions T1)" and f: "f \<in> set (t_files T1)" and eq: "file_id f = sess_file u"
    show "sess_status u = UploadStatusPreparing \<Longrightarrow> file_status f \<noteq> FileStatusCommitted"
      "sess_status u = UploadStatusCommitted \<Longrightarrow> file_status f \<noteq> FileStatusPending"
    proof -
      have both: "u = prepared_session a \<and> f = prepared_file a fileName fileSize
          \<or> u \<in> set (t_sessions T) \<and> f \<in> set (t_files T)"
        using u f eq old no_session by (auto simp: T1 prepared_session_def prepared_file_def image_iff)
      then show "sess_status u = UploadStatusPreparing \<Longrightarrow> file_status f \<noteq> FileStatusCommitted"
        "sess_status u = UploadStatusCommitted \<Longrightarrow> file_status f \<noteq> FileStatusPending"
        using life eq by (auto simp: lifecycle_ok_def sessions_match_def prepared_session_def prepared_file_def)
    qed
  qed
  ultimately show ?thesis
    using wf by (simp add: lifecycle_ok_def)
qed

lemma life_PrepareUpload:
  "preserves (on_tables (lifecycle_ok rf)) (PrepareUpload e m a fileName fileSize)"
proof (rule preservesI)
  fix s
  assume life: "on_tables (lifecycle_ok rf) s"
  obtain r s1 where run: "PrepareUpload e m a fileName fileSize s = (r, s1)"
    by (cases "PrepareUpload e m a fileName fileSize s")
  consider (panic) d where "r = Panic d" | (error) err where "r = Ret (Inl err)"
    | (ok) sid rmap where "r = Ret (Inr (sid, rmap))"
    by (metis outcome.exhaust sum.exhaust surj_pair)
  then show "on_tables (lifecycle_ok rf) (snd (PrepareUpload e m a fileName fileSize s))"
  proof cases
    case panic
    with run life show ?thesis
      by (auto simp: PrepareUpload_def Let_def split: if_splits outcome.splits prod.splits)
  next
    case error
    with run have "conn_tables s1 = conn_tables s"
      by (auto simp: PrepareUpload_Ret split: if_splits dest: prepare_store_InlD)
    with run life show ?thesis
      by (simp add: on_tables_def)
  next
    case ok
    with run obtain chunks t where plan: "plan_chunks a (new_id a 0) fileSize (mgr_chunkSize m) = Ret chunks"
      and t: "conn_tables t = conn_tables s"
      and tx: "WithTx e (prepare_tx e a fileName fileSize chunks) t = (Inr (), s1)"
      by (auto simp: PrepareUpload_Ret prepare_store_Inr registry_ListHealthyNodes_def
          split: if_splits dest: ListHealthyNodes_InrD)
    obtain s2 s3 where s2: "conn_tables s2 = conn_tables s" "conn_tables s1 = conn_tables s3"
      and p: "prepare_tx e a fileName fileSize chunks s2 = (Inr (), s3)"
      using WithTx_InrD [OF tx] t by auto
    have "on_tables tables_wf s3"
      using preservesD [OF wf_prepare_tx, of s2 e a fileName fileSize chunks] life s2(1) p
      by (simp add: on_tables_def lifecycle_ok_def)
    then have "lifecycle_ok rf (conn_tables s3)"
      using lifecycle_prepare [OF _ _ prepare_tx_InrD [OF p] prepare_files_new [OF p] plan_files [OF plan]]
        life s2(1) by (simp add: on_tables_def)
    with run s2(2) show ?thesis
      by (simp add: on_tables_def)
  qed
qed

subsection \<open>DeleteFile\<close>

lemma lifecycle_delete:
  assumes "lifecycle_ok rf T"
  shows "lifecycle_ok rf (query_update_file_status FileStatusDeleted fid T)"
proof -
  let ?T1 = "query_update_file_status FileStatusDeleted fid T"
  have "tables_wf ?T1"
    using assms by (simp add: lifecycle_ok_def tables_wf_update_file)
  moreover have "file_chunk_ids ?T1 = file_chunk_ids T" "replica_nodes ?T1 = replica_nodes T"
    by (simp_all add: query_update_file_status_def file_chunk_ids_def replica_nodes_def fun_eq_iff)
  moreover have shape: "\<exists>g \<in> set (t_files T). file_id g = file_id f
      \<and> (file_status f = FileStatusDeleted \<or> f = g)" if "f \<in> set (t_files ?T1)" for f
    using that by (auto simp: query_update_file_status_def)
  moreover have sess: "t_sessions ?T1 = t_sessions T"
    by (simp add: query_update_file_status_def)
  moreover have "known_statuses ?T1"
    using assms shape unfolding lifecycle_ok_def known_statuses_def sess by blast
  moreover have "sessions_match ?T1"
    unfolding sessions_match_def sess
  proof (intro conjI ballI impI)
    show "distinct (map sess_file (t_sessions T))"
      using assms by (simp add: lifecycle_ok_def sessions_match_def)
    fix u f
    assume "u \<in> set (t_sessions T)" "f \<in> set (t_files ?T1)" "file_id f = sess_file u"
    with shape [of f] assms
    show "sess_status u = UploadStatusPreparing \<Longrightarrow> file_status f \<noteq> FileStatusCommitted"
      "sess_status u = UploadStatusCommitted \<Longrightarrow> file_status f \<noteq> FileStatusPending"
      by (auto simp: lifecycle_ok_def sessions_match_def)
  qed
  moreover have "replicated rf ?T1"
    using assms shape calculation(2,3) by (fastforce simp: lifecycle_ok_def replicated_def)
  ultimately show ?thesis
    by (simp add: lifecycle_ok_def)
qed

lemma life_DeleteFile: "preserves (on_tables (lifecycle_ok rf)) (manifest_DeleteFile e fid)"
proof (rule preservesI)
  fix s
  assume life: "on_tables (lifecycle_ok rf) s"
  obtain r s1 where run: "manifest_DeleteFile e fid s = (r, s1)"
    by (cases "manifest_DeleteFile e fid s")
  show "on_tables (lifecycle_ok rf) (snd (manifest_DeleteFile e fid s))"
  proof (cases r)
    case Inl
    with run life show ?thesis
      by (auto simp: on_tables_def dest: DeleteFile_InlD)
  next
    case Inr
    with run DeleteFile_InrD(2) [of e fid s _ s1] life lifecycle_delete show ?thesis
      by (auto simp: on_tables_def)
  qed
qed

subsection \<open>CommitUpload\<close>

lemma wf_commit_tx: "preserves (on_tables tables_wf) (commit_tx e m order sid rm)"
  unfolding commit_tx_def commit_session_def commit_row_def commit_file_def
  by (intro preserve_intros wf_writes)

lemma wf_CommitUpload: "preserves (on_tables tables_wf) (CommitUpload e m order sid rm)"
  unfolding CommitUpload_def by (rule preserves_WithTx) (metis preservesD wf_commit_tx snd_conv)

lemma cover_count:
  assumes cover: "replicas_cover rf T fid rm" and cid: "cid \<in> file_chunk_ids T fid"
    and locs: "t_locations T1 = t_locations T @ replica_rows (reorder order rm)"
  shows "rf \<le> int (length (replica_nodes T1 cid))"
proof -
  have "cid \<in> fst ` set rm"
    using cover cid by (simp add: replicas_cover_def)
  then obtain ns where ns: "(cid, ns) \<in> set rm"
    by auto
  then have len: "rf \<le> int (length ns)" "distinct ns"
    using cover by (auto simp: replicas_cover_def)
  have "set ns \<subseteq> set (replica_nodes T1 cid)"
  proof
    fix n
    assume "n \<in> set ns"
    then have "(cid, n) \<in> loc_key ` set (replica_rows rm)"
      using ns by (auto simp: loc_key_replica_rows)
    then show "n \<in> set (replica_nodes T1 cid)"
      by (auto simp: replica_nodes_def locs loc_key_def image_iff)
  qed
  then have "card (set ns) \<le> card (set (replica_nodes T1 cid))"
    by (intro card_mono) auto
  also have "\<dots> \<le> length (replica_nodes T1 cid)"
    by (rule card_length)
  finally have "length ns \<le> length (replica_nodes T1 cid)"
    using distinct_card [OF len(2)] by simp
  with len(1) show ?thesis
    by linarith
qed

lemma lifecycle_commit:
  assumes life: "lifecycle_ok rf T" and wf: "tables_wf (commit_tables order sid rm f T)"
    and pend: "pending_file T sid = Some f" and cover: "replicas_cover rf T (file_id f) rm"
  shows "lifecycle_ok rf (commit_tables order sid rm f T)"
proof -
  let ?T1 = "commit_tables order sid rm f T"
  obtain u where u: "u \<in> set (t_sessions T)" "sess_id u = sid" "sess_file u = file_id f"
    using pend select_session_id select_file_id by (metis pending_file_Some)
  have files: "t_files ?T1 = map (\<lambda>g. if file_id g = file_id f then g\<lparr>file_status := FileStatusCommitted\<rparr> else g) (t_files T)"
    and sessions: "t_sessions ?T1 = map (\<lambda>v. if sess_id v = sid then v\<lparr>sess_status := UploadStatusCommitted\<rparr> else v) (t_sessions T)"
    and locs: "t_locations ?T1 = t_locations T @ replica_rows (reorder order rm)"
    by (simp_all add: commit_tables_def query_update_file_status_def query_update_upload_session_status_def)
  have ids: "file_chunk_ids ?T1 = file_chunk_ids T"
    by (simp add: commit_tables_simps file_chunk_ids_def fun_eq_iff)
  have keep: "rf \<le> int (length (replica_nodes T cid)) \<Longrightarrow> rf \<le> int (length (replica_nodes ?T1 cid))" for cid
    by (simp add: replica_nodes_def locs)
  have "file_chunk_ids T (file_id g) \<noteq> {} \<and>
      (\<forall>cid \<in> file_chunk_ids T (file_id g). rf \<le> int (length (replica_nodes ?T1 cid)))"
    if "g \<in> set (t_files ?T1)" "file_status g = FileStatusCommitted" for g
  proof (cases "file_id g = file_id f")
    case True
    then show ?thesis
      using cover cover_count [OF cover _ locs] by (simp add: replicas_cover_def)
  next
    case False
    with that(1) have "g \<in> set (t_files T)"
      by (auto simp: files split: if_splits)
    with that(2) life keep show ?thesis
      by (simp add: lifecycle_ok_def replicated_def)
  qed
  then have "replicated rf ?T1"
    by (simp add: replicated_def ids)
  moreover have "known_statuses ?T1"
    using life by (auto simp: lifecycle_ok_def known_statuses_def files sessions)
  moreover have "sessions_match ?T1"
    unfolding sessions_match_def
  proof (intro conjI ballI impI)
    show "distinct (map sess_file (t_sessions ?T1))"
    proof -
      have "map sess_file (t_sessions ?T1) = map sess_file (t_sessions T)"
        unfolding sessions by (rule map_key_update) simp
      with life show ?thesis
        by (simp add: lifecycle_ok_def sessions_match_def)
    qed
    fix v1 g1
    assume v1: "v1 \<in> set (t_sessions ?T1)" and g1: "g1 \<in> set (t_files ?T1)" and eq: "file_id g1 = sess_file v1"
    then obtain v where v: "v \<in> set (t_sessions T)" "v1 = (if sess_id v = sid then v\<lparr>sess_status := UploadStatusCommitted\<rparr> else v)"
      by (auto simp: sessions)
    show "sess_status v1 = UploadStatusPreparing \<Longrightarrow> file_status g1 \<noteq> FileStatusCommitted"
      "sess_status v1 = UploadStatusCommitted \<Longrightarrow> file_status g1 \<noteq> FileStatusPending"
    proof -
      have same: "v = u" if "sess_file v = file_id f"
        using life v(1) u(1,3) that distinct_map_inj_on_set [of sess_file "t_sessions T" v u]
        by (simp add: lifecycle_ok_def sessions_match_def)
      have old: "g1 \<in> set (t_files T)" if "file_id g1 \<noteq> file_id f"
        using g1 that by (auto simp: files split: if_splits)
      have now: "file_status g1 = FileStatusCommitted" if "file_id g1 = file_id f"
        using g1 that by (auto simp: files split: if_splits)
      show "file_status g1 \<noteq> FileStatusCommitted" if prep: "sess_status v1 = UploadStatusPreparing"
      proof (cases "file_id g1 = file_id f")
        case True
        then have "v = u"
          using same v(2) eq by (simp split: if_splits)
        with v(2) u(2) prep show ?thesis
          by simp
      next
        case False
        with old v prep eq life show ?thesis
          by (auto simp: lifecycle_ok_def sessions_match_def split: if_splits)
      qed
      show "file_status g1 \<noteq> FileStatusPending" if com: "sess_status v1 = UploadStatusCommitted"
      proof (cases "file_id g1 = file_id f")
        case True
        then show ?thesis
          using now by simp
      next
        case False
        have "sess_file v1 = sess_file v"
          using v(2) by simp
        moreover have "v = u" if "sess_id v = sid"
          using life v(1) u(1,2) that distinct_map_inj_on_set [of sess_id "t_sessions T" v u]
          by (simp add: lifecycle_ok_def tables_wf_def)
        ultimately have "sess_id v \<noteq> sid"
          using False eq u(3) by auto
        with False old v com eq life show ?thesis
          by (auto simp: lifecycle_ok_def sessions_match_def)
      qed
    qed
  qed
  ultimately show ?thesis
    using wf by (simp add: lifecycle_ok_def)
qed

lemma life_CommitUpload:
  assumes "complete_scans e" "distinct (map fst rm)" "ReplicationFactor (mgr_placement m) = rf"
  shows "preserves (on_tables (lifecycle_ok rf)) (CommitUpload e m order sid rm)"
proof (rule preservesI)
  fix s
  assume life: "on_tables (lifecycle_ok rf) s"
  then have wf: "tables_wf (conn_tables s)"
    by (simp add: on_tables_def lifecycle_ok_def)
  obtain r s1 where run: "CommitUpload e m order sid rm s = (r, s1)"
    by (cases "CommitUpload e m order sid rm s")
  show "on_tables (lifecycle_ok rf) (snd (CommitUpload e m order sid rm s))"
  proof (cases r)
    case Inl
    with run life show ?thesis
      by (auto simp: on_tables_def dest: CommitUpload_InlD)
  next
    case (Inr u)
    note fin = CommitUpload_InrD [OF assms(1) wf assms(2) run [unfolded Inr]]
    have "tables_wf (conn_tables s1)"
      using preservesD [OF wf_CommitUpload, of s e m order sid rm] wf run by (simp add: on_tables_def)
    then have "lifecycle_ok rf (conn_tables s1)"
    proof (cases "pending_file (conn_tables s) sid")
      case None
      with fin(2) life show ?thesis
        by (simp add: commit_effect_def on_tables_def)
    next
      case (Some f)
      then have "replicas_cover rf (conn_tables s) (file_id f) rm"
        using fin(1) assms(3) pending_not_committed by (fastforce simp: commit_allowed_def)
      with Some fin(2) life \<open>tables_wf (conn_tables s1)\<close> show ?thesis
        by (simp add: commit_effect_def on_tables_def lifecycle_commit)
    qed
    with run show ?thesis
      by (simp add: on_tables_def)
  qed
qed

lemma lifecycle_empty: "lifecycle_ok rf (empty_tables\<lparr>foreign_keys := True\<rparr>)"
  using tables_wf_empty by (simp add: lifecycle_defs empty_tables_def)

end
