(* ===== verification/Metad_Server.thy ===== *)
theory Metad_Server
  imports Lifecycle
begin

text \<open>
  \<open>cmd/metad/server.go\<close>: the gRPC handlers of the metadata daemon. A handler takes the fields of the
  request and returns the response or a status error; it runs on the daemon's state. Where a
  handler ranges over a Go map, the order is a parameter. A panic of the manager is not recovered.
\<close>

record replica_msg =
  rep_node_id :: string
  rep_address :: string

record chunk_plan =
  plan_chunk_id :: string
  plan_offset_bytes :: int64
  plan_size_bytes :: int64
  plan_replicas :: "replica_msg list"

record prepare_response =
  prep_session_id :: string
  prep_file_id :: string
  prep_chunks :: "chunk_plan list"

record get_file_response =
  got_file_id :: string
  got_file_name :: string
  got_file_size :: int64
  got_chunks :: "chunk_plan list"

record file_summary =
  sum_file_id :: string
  sum_file_name :: string
  sum_file_size :: int64

text \<open>\<open>status.Errorf(codes.Internal, "what: %v", err)\<close>.\<close>

definition internal_error :: "string \<Rightarrow> go_error \<Rightarrow> go_error" where
  "internal_error what err = StatusErr GrpcInternal (what @ '': '' @ error_text err)"

subsection \<open>PrepareUpload and CommitUpload\<close>

definition prepared_plan :: "string \<times> string list \<Rightarrow> chunk_plan" where
  "prepared_plan p = \<lparr>plan_chunk_id = fst p, plan_offset_bytes = 0, plan_size_bytes = 0,
     plan_replicas = map (\<lambda>addr. \<lparr>rep_node_id = [], rep_address = addr\<rparr>) (snd p)\<rparr>"

definition server_PrepareUpload ::
  "engine \<Rightarrow> manager \<Rightarrow> ambient \<Rightarrow> nat list \<Rightarrow> string \<Rightarrow> int64 \<Rightarrow> metad
     \<Rightarrow> (go_error + prepare_response) outcome \<times> metad" where
  "server_PrepareUpload e m a order fileName fileSize s =
     (if fileName = [] then (Ret (Inl (StatusErr GrpcInvalidArgument ''file_name is required'')), s)
      else if fileSize \<le>s 0 then (Ret (Inl (StatusErr GrpcInvalidArgument ''file_size_bytes must be > 0'')), s)
      else case PrepareUpload e m a fileName fileSize (md_conn s) of
          (Panic d, c) \<Rightarrow> (Panic d, s\<lparr>md_conn := c\<rparr>)
        | (Ret (Inl err), c) \<Rightarrow> (Ret (Inl (internal_error ''prepare upload failed'' err)), s\<lparr>md_conn := c\<rparr>)
        | (Ret (Inr (sessionID, chunkPlans)), c) \<Rightarrow>
            (Ret (Inr \<lparr>prep_session_id = sessionID, prep_file_id = [],
                prep_chunks = map prepared_plan (reorder order chunkPlans)\<rparr>), s\<lparr>md_conn := c\<rparr>))"

definition server_CommitUpload ::
  "engine \<Rightarrow> manager \<Rightarrow> nat list \<Rightarrow> string \<Rightarrow> replica_map \<Rightarrow> (metad, go_error, unit) op" where
  "server_CommitUpload e m order sessionID replicaMap =
     (if sessionID = [] then failR (StatusErr GrpcInvalidArgument ''session_id is required'')
      else if replicaMap = [] then failR (StatusErr GrpcInvalidArgument ''replica_map is required'')
      else on_conn (mapErrR (internal_error ''commit upload failed'') (CommitUpload e m order sessionID replicaMap)))"

subsection \<open>GetFile\<close>

definition got_plan :: "chunk_row \<Rightarrow> location_row list \<Rightarrow> chunk_plan" where
  "got_plan c locations = \<lparr>plan_chunk_id = chunk_id c, plan_offset_bytes = 0, plan_size_bytes = chunk_size c,
     plan_replicas = map (\<lambda>l. \<lparr>rep_node_id = loc_node l, rep_address = []\<rparr>) locations\<rparr>"

fun plan_loop :: "engine \<Rightarrow> chunk_row list \<Rightarrow> (conn, go_error, chunk_plan list) op" where
  "plan_loop e [] = retR []"
| "plan_loop e (c # cs) =
     bindR (mapErrR (internal_error ''failed to get chunk locations'') (manifest_GetChunkLocations e (chunk_id c)))
       (\<lambda>locations. bindR (plan_loop e cs) (\<lambda>plans. retR (got_plan c locations # plans)))"

definition server_GetFile :: "engine \<Rightarrow> string \<Rightarrow> (metad, go_error, get_file_response) op" where
  "server_GetFile e fileID =
     (if fileID = [] then failR (StatusErr GrpcInvalidArgument ''file_id is required'')
      else on_conn
       (bindR (mapErrR (internal_error ''failed to get file'') (manifest_GetFile e fileID)) (\<lambda>file.
          case file of
            None \<Rightarrow> failR (StatusErr GrpcNotFound ''file not found'')
          | Some f \<Rightarrow>
              if file_status f \<noteq> FileStatusCommitted
              then failR (StatusErr GrpcFailedPrecondition ''file is not committed'')
              else bindR (mapErrR (internal_error ''failed to get chunks'') (manifest_GetChunks e (file_id f)))
                (\<lambda>chunks.
                  if chunks = [] then failR (StatusErr GrpcInternal ''no chunks found for file'')
                  else bindR (plan_loop e chunks) (\<lambda>plans.
                    retR \<lparr>got_file_id = file_id f, got_file_name = file_name f, got_file_size = file_size f,
                          got_chunks = plans\<rparr>)))))"

subsection \<open>DeleteFile, ListFiles and Heartbeat\<close>

definition delete_error :: "go_error \<Rightarrow> go_error" where
  "delete_error err =
     (if error_text err = ''file not found'' then StatusErr GrpcNotFound ''file not found''
      else internal_error ''delete file failed'' err)"

definition server_DeleteFile :: "engine \<Rightarrow> string \<Rightarrow> (metad, go_error, unit) op" where
  "server_DeleteFile e fileID =
     (if fileID = [] then failR (StatusErr GrpcInvalidArgument ''file_id is required'')
      else on_conn (mapErrR delete_error (manifest_DeleteFile e fileID)))"

definition server_ListFiles :: "engine \<Rightarrow> (metad, go_error, file_summary list) op" where
  "server_ListFiles e =
     on_conn (bindR (mapErrR (internal_error ''list files failed'') (manifest_ListFiles e)) (\<lambda>files.
       retR (map (\<lambda>f. \<lparr>sum_file_id = file_id f, sum_file_name = file_name f, sum_file_size = file_size f\<rparr>) files)))"

definition server_Heartbeat ::
  "engine \<Rightarrow> int \<Rightarrow> string \<Rightarrow> string \<Rightarrow> int64 \<Rightarrow> int64 \<Rightarrow> (metad, go_error, unit) op" where
  "server_Heartbeat e now nodeID address capacityBytes availableBytes s =
     (if nodeID = [] then (Inl (StatusErr GrpcInvalidArgument ''node_id is required''), s)
      else case on_conn (registry_Heartbeat e now nodeID address capacityBytes availableBytes) s of
          (Inl err, s1) \<Rightarrow> (Inl (internal_error ''failed to register or update node'' err), s1)
        | (Inr _, s1) \<Rightarrow>
            (case on_conn (registry_ListHealthyNodes e) (with_metrics IncHeartbeats s1) of
               (Inl err, s2) \<Rightarrow> (Inr (), s2)
             | (Inr healthy, s2) \<Rightarrow> (Inr (), with_metrics (SetHealthyNodes (length healthy)) s2)))"

subsection \<open>What the handlers do to the tables\<close>

lemma server_PrepareUpload_tables:
  "md_tables (snd (server_PrepareUpload e m a order fileName fileSize s)) = md_tables s
   \<or> md_tables (snd (server_PrepareUpload e m a order fileName fileSize s)) =
       conn_tables (snd (PrepareUpload e m a fileName fileSize (md_conn s)))"
  by (auto simp: server_PrepareUpload_def split: prod.splits outcome.splits sum.splits)

lemma server_CommitUpload_tables:
  "md_tables (snd (server_CommitUpload e m order sid rm s)) = md_tables s
   \<or> md_tables (snd (server_CommitUpload e m order sid rm s)) =
       conn_tables (snd (CommitUpload e m order sid rm (md_conn s)))"
  by (simp add: server_CommitUpload_def)

lemma server_DeleteFile_tables:
  "md_tables (snd (server_DeleteFile e fid s)) = md_tables s
   \<or> md_tables (snd (server_DeleteFile e fid s)) = conn_tables (snd (manifest_DeleteFile e fid (md_conn s)))"
  by (simp add: server_DeleteFile_def)

lemma server_Heartbeat_tables:
  "md_tables (snd (server_Heartbeat e now nid addr cap avail s)) = md_tables s
   \<or> md_tables (snd (server_Heartbeat e now nid addr cap avail s)) =
       conn_tables (snd (registry_Heartbeat e now nid addr cap avail (md_conn s)))"
  by (auto simp: server_Heartbeat_def on_conn_def split: prod.splits sum.splits)
    (metis registry_ListHealthyNodes_tables snd_conv)+

lemma plan_loop_tables: "conn_tables (snd (plan_loop e cs s)) = conn_tables s"
proof -
  have "preserves (on_tables (\<lambda>T. T = conn_tables s)) (plan_loop e cs)"
    by (induction cs) (auto intro!: preserve_intros simp: manifest_GetChunkLocations_def)
  then show ?thesis
    by (auto dest: preservesD simp: on_tables_def)
qed

lemma server_GetFile_tables: "md_tables (snd (server_GetFile e fid s)) = md_tables s"
proof -
  have "preserves (on_tables (\<lambda>T. T = md_tables s)) (plan_loop e cs)" for cs
    by (rule preserves_same_tables) (rule plan_loop_tables)
  then have "preserves (on_metad (\<lambda>T. T = md_tables s)) (server_GetFile e fid)"
    unfolding server_GetFile_def manifest_GetFile_def manifest_GetChunks_def
    by (intro preserve_intros)
  then show ?thesis
    by (auto dest: preservesD simp: on_metad_def)
qed

lemma server_ListFiles_tables: "md_tables (snd (server_ListFiles e s)) = md_tables s"
proof -
  have "preserves (on_metad (\<lambda>T. T = md_tables s)) (server_ListFiles e)"
    unfolding server_ListFiles_def manifest_ListFiles_def by (intro preserve_intros)
  then show ?thesis
    by (auto dest: preservesD simp: on_metad_def)
qed

end
