(* ===== verification/Metad_Server_Properties.thy ===== *)
theory Metad_Server_Properties
  imports Metad_Server
begin

text \<open>
  The properties of the metadata handlers: what \<open>GetFile\<close> answers in every case, and the round trip
  of an upload through \<open>PrepareUpload\<close>, \<open>CommitUpload\<close> and \<open>GetFile\<close>.
\<close>

subsection \<open>GetFile\<close>

definition plan_of :: "tables \<Rightarrow> chunk_row \<Rightarrow> chunk_plan \<Rightarrow> bool" where
  "plan_of T c p \<longleftrightarrow> plan_chunk_id p = chunk_id c \<and> plan_size_bytes p = chunk_size c
     \<and> mset (map rep_node_id (plan_replicas p)) = mset (replica_nodes T (chunk_id c))"

lemma plan_loop_ok:
  assumes "no_faults e" "complete_scans e"
  shows "\<exists>plans s1. plan_loop e cs s = (Inr plans, s1) \<and> list_all2 (plan_of (conn_tables s)) cs plans"
proof (induction cs arbitrary: s)
  case (Cons c cs)
  let ?s1 = "s\<lparr>conn_tick := Suc (conn_tick s)\<rparr>"
  let ?locs = "query_select_chunk_locations (drv_order e (conn_tick s)) (chunk_id c) (conn_tables s)"
  have get: "manifest_GetChunkLocations e (chunk_id c) s = (Inr ?locs, ?s1)"
    by (simp add: manifest_GetChunkLocations_def GetChunkLocations_def mapErrR_def Query_ok [OF assms])
  obtain plans s2 where rest: "plan_loop e cs ?s1 = (Inr plans, s2)" "list_all2 (plan_of (conn_tables ?s1)) cs plans"
    using Cons.IH by blast
  have "mset (map loc_node ?locs) = mset (replica_nodes (conn_tables s) (chunk_id c))"
    by (simp add: replica_nodes_def query_select_chunk_locations_def)
  then have "plan_of (conn_tables s) c (got_plan c ?locs)"
    by (simp add: plan_of_def got_plan_def comp_def)
  with rest get show ?case
    by (auto simp: bindR_def mapErrR_def)
qed simp

lemma server_GetFile_cases:
  assumes "no_faults e" "complete_scans e" "tables_wf (md_tables s)" "fid \<noteq> []"
  shows "case server_GetFile e fid s of
      (Inl err, s1) \<Rightarrow>
        file_status_of (md_tables s) fid = None \<and> err = StatusErr GrpcNotFound ''file not found''
        \<or> (\<exists>st. file_status_of (md_tables s) fid = Some st \<and> st \<noteq> FileStatusCommitted
             \<and> err = StatusErr GrpcFailedPrecondition ''file is not committed'')
        \<or> file_status_of (md_tables s) fid = Some FileStatusCommitted \<and> file_chunk_ids (md_tables s) fid = {}
             \<and> err = StatusErr GrpcInternal ''no chunks found for file''
    | (Inr r, s1) \<Rightarrow>
        file_chunk_ids (md_tables s) fid \<noteq> {} \<and> got_chunks r \<noteq> []
        \<and> (\<exists>f p. query_select_file_by_id fid (md_tables s) = Some f \<and> file_status f = FileStatusCommitted
           \<and> got_file_id r = fid \<and> got_file_name r = file_name f \<and> got_file_size r = file_size f
           \<and> list_all2 (plan_of (md_tables s)) (query_select_chunks_by_file_id p fid (md_tables s)) (got_chunks r))"
proof -
  let ?T = "md_tables s" and ?s1 = "(md_conn s)\<lparr>conn_tick := Suc (conn_tick (md_conn s))\<rparr>"
  have get: "GetFile e fid (md_conn s) = (Inr (query_select_file_by_id fid ?T), ?s1)"
    by (simp add: GetFile_def mapErrR_def QueryRow_ok [OF assms(1)])
  show ?thesis
  proof (cases "query_select_file_by_id fid ?T")
    case None
    with get assms(4) show ?thesis
      by (simp add: server_GetFile_def manifest_GetFile_def on_conn_def bindR_def mapErrR_def file_status_of_def)
  next
    case (Some f)
    then have fid: "file_id f = fid"
      using select_file_id by blast
    show ?thesis
    proof (cases "file_status f = FileStatusCommitted")
      case False
      with get Some assms(4) show ?thesis
        by (simp add: server_GetFile_def manifest_GetFile_def on_conn_def bindR_def mapErrR_def file_status_of_def)
    next
      case True
      obtain p s2 where chunks: "GetChunksByFileID e fid ?s1 = (Inr (query_select_chunks_by_file_id p fid ?T), s2)"
        and s2: "conn_tables s2 = ?T"
        using GetChunksByFileID_ok [OF assms(1,2), of fid ?s1] by auto
      let ?cs = "query_select_chunks_by_file_id p fid ?T"
      obtain plans s3 where plans: "plan_loop e ?cs s2 = (Inr plans, s3)" "list_all2 (plan_of ?T) ?cs plans"
        using plan_loop_ok [OF assms(1,2), of ?cs s2] s2 by auto
      show ?thesis
      proof (cases "?cs = []")
        case none: True
        have "file_chunk_ids ?T fid = chunk_id ` set ?cs"
          by (simp add: file_chunk_ids_def)
        with none have "file_chunk_ids ?T fid = {}"
          by simp
        with none get Some True fid chunks assms(4) show ?thesis
          by (simp add: server_GetFile_def manifest_GetFile_def manifest_GetChunks_def on_conn_def bindR_def
              mapErrR_def file_status_of_def)
      next
        case False
        have "file_chunk_ids ?T fid = chunk_id ` set ?cs"
          by (simp add: file_chunk_ids_def)
        with False have "file_chunk_ids ?T fid \<noteq> {}"
          by (simp only: image_is_empty set_empty not_False_eq_True)
        moreover have "plans \<noteq> []"
          using False plans(2) by auto
        ultimately show ?thesis
          using False get Some True fid chunks plans assms(4)
          by (simp add: server_GetFile_def manifest_GetFile_def manifest_GetChunks_def on_conn_def bindR_def
              mapErrR_def) blast
      qed
    qed
  qed
qed

text \<open>
  C24. With a database that answers, \<open>GetFile\<close> answers a non-empty file ID with: \<open>NotFound\<close> if there is
  no such file; \<open>FailedPrecondition\<close> if it is pending or deleted; an internal error if it is committed
  without chunks; and otherwise the file's name and size and one plan for each of its chunks, of which
  there is at least one, in the order of their indices, with the chunk's size and exactly the nodes
  recorded for it. Each answer is given in no other case.
\<close>

theorem server_GetFile_spec:
  assumes "no_faults e" "complete_scans e" "tables_wf (md_tables s)" "fid \<noteq> []"
  shows "case server_GetFile e fid s of
      (Inl err, s1) \<Rightarrow>
        file_status_of (md_tables s) fid = None \<and> err = StatusErr GrpcNotFound ''file not found''
        \<or> (\<exists>st. file_status_of (md_tables s) fid = Some st \<and> st \<noteq> FileStatusCommitted
             \<and> err = StatusErr GrpcFailedPrecondition ''file is not committed'')
        \<or> file_status_of (md_tables s) fid = Some FileStatusCommitted \<and> file_chunk_ids (md_tables s) fid = {}
             \<and> err = StatusErr GrpcInternal ''no chunks found for file''
    | (Inr r, s1) \<Rightarrow>
        file_chunk_ids (md_tables s) fid \<noteq> {} \<and> got_chunks r \<noteq> []
        \<and> (\<exists>f p. query_select_file_by_id fid (md_tables s) = Some f \<and> file_status f = FileStatusCommitted
           \<and> got_file_id r = fid \<and> got_file_name r = file_name f \<and> got_file_size r = file_size f
           \<and> list_all2 (plan_of (md_tables s)) (query_select_chunks_by_file_id p fid (md_tables s)) (got_chunks r))"
  using assms by (rule server_GetFile_cases)

theorem server_GetFile_spec_witness:
  "\<exists>r s1. server_GetFile plain_engine ''f'' one_replica = (Inr r, s1) \<and> got_file_name r = ''a'' \<and> got_file_size r = 4
     \<and> map plan_chunk_id (got_chunks r) = [''c''] \<and> map rep_node_id (plan_replicas (hd (got_chunks r))) = [''n1'']"
proof -
  let ?T = "md_tables one_replica" and ?c = "\<lparr>chunk_id = ''c'', chunk_file = ''f'', chunk_index = 0, chunk_size = 4\<rparr>"
  have f: "query_select_file_by_id ''f'' ?T = Some \<lparr>file_id = ''f'', file_name = ''a'', file_size = 4,
      file_status = FileStatusCommitted, file_created = 1\<rparr>"
    by (simp add: one_replica_def query_select_file_by_id_def)
  have cs: "query_select_chunks_by_file_id p ''f'' ?T = [?c]" for p
  proof -
    have "mset (query_select_chunks_by_file_id p ''f'' ?T) = {#?c#}"
      by (simp add: one_replica_def query_select_chunks_by_file_id_def)
    then show ?thesis
      by simp
  qed
  obtain q s1 where run: "server_GetFile plain_engine ''f'' one_replica = (q, s1)"
    by (cases "server_GetFile plain_engine ''f'' one_replica")
  note spec = server_GetFile_spec [OF plain_engine_simps(4,5) one_replica_facts(2), of "''f''", unfolded run]
  have "file_chunk_ids ?T ''f'' \<noteq> {}"
    by (simp add: file_chunk_ids_def one_replica_def)
  with spec f obtain r where r: "q = Inr r"
    by (cases q) (auto simp: file_status_of_def)
  with spec f cs obtain p where p: "got_chunks r = [p]" "plan_of ?T ?c p" "got_file_name r = ''a''" "got_file_size r = 4"
    by (auto simp: list_all2_Cons1)
  from p(2) have "plan_chunk_id p = ''c''" "mset (map rep_node_id (plan_replicas p)) = {#''n1''#}"
    by (simp_all add: plan_of_def one_replica_facts(7))
  from this(2) have "map rep_node_id (plan_replicas p) = [''n1'']"
    by (simp only: mset_single_iff)
  with \<open>plan_chunk_id p = ''c''\<close> r run p show ?thesis
    by auto
qed

subsection \<open>The round trip of an upload\<close>

text \<open>The replica map a client makes from the plans it was given.\<close>

definition response_map :: "prepare_response \<Rightarrow> replica_map" where
  "response_map r = map (\<lambda>p. (plan_chunk_id p, map rep_address (plan_replicas p))) (prep_chunks r)"

lemma response_map_plans: "map (\<lambda>p. (plan_chunk_id p, map rep_address (plan_replicas p))) (map prepared_plan rm) = rm"
  by (induction rm) (auto simp: prepared_plan_def comp_def)

lemma server_PrepareUpload_eq:
  assumes "fileName \<noteq> []" "0 < sint fileSize"
    and "PrepareUpload e m a fileName fileSize (md_conn s) = (Ret (Inr (sid, rm)), c)"
  shows "\<exists>r. server_PrepareUpload e m a order fileName fileSize s = (Ret (Inr r), s\<lparr>md_conn := c\<rparr>)
    \<and> prep_session_id r = sid \<and> response_map r = reorder order rm"
  using assms response_map_plans [of "reorder order rm"]
  by (simp add: server_PrepareUpload_def word_sle_eq response_map_def)

lemma replica_rows_of_chunk:
  assumes "distinct (map fst rm)" "(c, ns) \<in> set rm"
  shows "map loc_node (filter (\<lambda>l. loc_chunk l = c) (replica_rows rm)) = ns"
  using assms
proof (induction rm)
  case (Cons p rm)
  obtain c' ns' where p: "p = (c', ns')"
    by (cases p)
  show ?case
  proof (cases "c' = c")
    case True
    then have "c \<notin> fst ` set rm" "ns' = ns"
      using Cons.prems p by (auto simp: image_iff)
    then have "\<forall>l \<in> set (replica_rows rm). loc_chunk l \<noteq> c"
      using loc_chunk_replica_rows [of rm] by blast
    then show ?thesis
      using True p \<open>ns' = ns\<close> by (simp add: filter_empty_conv filter_map comp_def)
  next
    case False
    then show ?thesis
      using Cons p by (auto simp: filter_map comp_def)
  qed
qed simp

lemma new_chunks_selected:
  assumes wf: "tables_wf T" and new: "fid \<notin> file_id ` set (t_files T)" and T1: "t_chunks T1 = t_chunks T @ chunks"
    and split: "splits_file fid fs cs chunks" and len: "length chunks < 2 ^ 63"
  shows "query_select_chunks_by_file_id p fid T1 = chunks"
proof -
  have old: "filter (\<lambda>c. chunk_file c = fid) (t_chunks T) = []"
    using wf new by (force simp: tables_wf_def filter_empty_conv)
  have mine: "filter (\<lambda>c. chunk_file c = fid) chunks = chunks"
    using split by (auto simp: splits_file_def in_set_conv_nth intro!: filter_True)
  have idx: "map (\<lambda>c. sint (chunk_index c)) chunks = map int [0..<length chunks]"
  proof (rule nth_equalityI)
    fix i
    assume "i < length (map (\<lambda>c. sint (chunk_index c)) chunks)"
    then have "i < length chunks"
      by simp
    moreover from this len have "sint (word_of_nat i :: int64) = int i"
      by (intro sint64_of_nat) simp
    ultimately show "map (\<lambda>c. sint (chunk_index c)) chunks ! i = map int [0..<length chunks] ! i"
      using split by (simp add: splits_file_def)
  qed simp
  have "distinct (map (\<lambda>c. sint (chunk_index c)) chunks)" "sorted (map (\<lambda>c. sint (chunk_index c)) chunks)"
    unfolding idx by (simp_all add: distinct_map sorted_map)
  then have "inj_on (\<lambda>c. sint (chunk_index c)) (set chunks)"
    by (simp add: distinct_map)
  with \<open>sorted _\<close> show ?thesis
    unfolding query_select_chunks_by_file_id_def T1
    by (intro sort_key_inj_key_eq) (simp_all add: old mine)
qed

lemma wf_PrepareUpload:
  assumes "tables_wf (conn_tables s)" "PrepareUpload e m a fileName fileSize s = (Ret (Inr x), s1)"
  shows "tables_wf (conn_tables s1)"
proof -
  obtain chunks t where t: "conn_tables t = conn_tables s"
    and tx: "WithTx e (prepare_tx e a fileName fileSize chunks) t = (Inr (), s1)"
    using assms(2) by (cases x) (auto simp: PrepareUpload_Ret prepare_store_Inr registry_ListHealthyNodes_def
        split: if_splits dest: ListHealthyNodes_InrD)
  have "preserves (on_tables tables_wf) (WithTx e (prepare_tx e a fileName fileSize chunks))"
    by (rule preserves_WithTx) (metis preservesD wf_prepare_tx snd_conv)
  from preservesD [OF this, of t] show ?thesis
    using assms(1) t tx by (simp add: on_tables_def)
qed

text \<open>What the round trip rests on: a database that answers, fresh identifiers, enough named nodes.\<close>

definition upload_ready :: "engine \<Rightarrow> manager \<Rightarrow> ambient \<Rightarrow> int64 \<Rightarrow> tables \<Rightarrow> bool" where
  "upload_ready e m a fileSize T \<longleftrightarrow>
     no_faults e \<and> complete_scans e \<and> tables_wf T \<and> named_nodes T
     \<and> fresh_ids a T \<and> (\<forall>i. new_id a i \<noteq> [])
     \<and> 0 < sint fileSize \<and> 0 < sint (mgr_chunkSize m) \<and> sint fileSize + sint (mgr_chunkSize m) \<le> 2 ^ 63
     \<and> 48 * ((sint fileSize + sint (mgr_chunkSize m) - 1) div sint (mgr_chunkSize m)) \<le> 2 ^ 48
     \<and> 0 < ReplicationFactor (mgr_placement m)
     \<and> ReplicationFactor (mgr_placement m) \<le>
           int (length (filter (\<lambda>n. node_status n = NodeStatusHealthy) (t_nodes T)))"

text \<open>What a prepared upload looks like, when it is ready to be committed with the returned map.\<close>

definition prepared :: "manager \<Rightarrow> ambient \<Rightarrow> string \<Rightarrow> int64 \<Rightarrow> tables \<Rightarrow> replica_map \<Rightarrow> chunk_row list \<Rightarrow> tables \<Rightarrow> bool" where
  "prepared m a fileName fileSize T rm chunks T1 \<longleftrightarrow>
     tables_wf T1 \<and> distinct (map fst rm) \<and> fst ` set rm = chunk_id ` set chunks
     \<and> splits_file (new_id a 0) fileSize (mgr_chunkSize m) chunks \<and> length chunks < 2 ^ 63
     \<and> t_chunks T1 = t_chunks T @ chunks
     \<and> (\<forall>cid \<in> chunk_id ` set chunks. replica_nodes T1 cid = [])
     \<and> pending_file T1 (new_id a 1) = Some (prepared_file a fileName fileSize)
     \<and> replicas_cover (ReplicationFactor (mgr_placement m)) T1 (new_id a 0) rm"

text \<open>Which chunks a response names, and which nodes for them.\<close>

definition assigned :: "manager \<Rightarrow> ambient \<Rightarrow> tables \<Rightarrow> replica_map \<Rightarrow> bool" where
  "assigned m a T rm \<longleftrightarrow> (\<forall>(i, ns) \<in> set rm. i \<in> range (new_id a) \<and> int (length ns) = ReplicationFactor (mgr_placement m)
     \<and> (\<forall>n \<in> set ns. healthy_node T n))"

lemma prepare_prepares:
  assumes ready: "upload_ready e m a fileSize (conn_tables s)"
  shows "\<exists>rm s1 chunks. PrepareUpload e m a fileName fileSize s = (Ret (Inr (new_id a 1, rm)), s1)
    \<and> prepared m a fileName fileSize (conn_tables s) rm chunks (conn_tables s1) \<and> assigned m a (conn_tables s) rm"
proof -
  let ?T = "conn_tables s" and ?cs = "mgr_chunkSize m" and ?rf = "ReplicationFactor (mgr_placement m)"
  note R = ready [unfolded upload_ready_def]
  have wf: "tables_wf ?T" and fresh: "fresh_ids a ?T" and pos: "0 < sint fileSize" "0 < sint ?cs"
    and sum: "sint fileSize + sint ?cs \<le> 2 ^ 63"
    using R by auto
  obtain rm s1 where run: "PrepareUpload e m a fileName fileSize s = (Ret (Inr (new_id a 1, rm)), s1)"
    using PrepareUpload_ok [of e s a fileSize m fileName] R by blast
  obtain chunks where plan: "plan_chunks a (new_id a 0) fileSize ?cs = Ret chunks"
    and T1: "conn_tables s1 = ?T\<lparr>t_files := t_files ?T @ [prepared_file a fileName fileSize],
         t_sessions := t_sessions ?T @ [prepared_session a], t_chunks := t_chunks ?T @ chunks\<rparr>"
    and keys: "distinct (map fst rm)" "fst ` set rm = chunk_id ` set chunks"
    and nodes: "\<forall>(c, ns) \<in> set rm. int (length ns) = ?rf \<and> distinct ns \<and> (\<forall>n \<in> set ns. healthy_node ?T n)"
    using PrepareUpload_tables [OF wf run] by blast
  note split = plan_chunks_split [OF pos sum plan]
  have inj: "inj (new_id a)"
    using fresh by (simp add: fresh_ids_def)
  note pk = plan_keys [OF pos sum plan inj]
  have wf1: "tables_wf (conn_tables s1)"
    by (rule wf_PrepareUpload [OF wf run])
  have len: "length chunks < 2 ^ 63"
  proof -
    have "int (length chunks) \<le> sint fileSize + sint ?cs - 1"
      unfolding split(3) using pos by (intro zdiv_le_self) auto
    with sum have "int (length chunks) < int (2 ^ 63)"
      by simp
    then show ?thesis
      by (simp only: of_nat_less_iff)
  qed
  have new: "new_id a 0 \<notin> file_id ` set (t_files ?T)"
    using fresh by (simp add: fresh_ids_def)
  have ids: "file_chunk_ids (conn_tables s1) (new_id a 0) = chunk_id ` set chunks"
  proof -
    have "query_select_chunks_by_file_id [] (new_id a 0) (conn_tables s1) = chunks"
      using new_chunks_selected [OF wf new _ split(1) len] T1 by simp
    then have "set (query_select_chunks_by_file_id [] (new_id a 0) (conn_tables s1)) = set chunks"
      by simp
    then show ?thesis
      by (simp add: file_chunk_ids_def)
  qed
  have no_loc: "loc_chunk l \<notin> chunk_id ` set chunks" if "l \<in> set (t_locations ?T)" for l
  proof -
    have "loc_chunk l \<in> chunk_id ` set (t_chunks ?T)"
      using wf that by (simp add: tables_wf_def)
    moreover have "chunk_id ` set chunks \<inter> chunk_id ` set (t_chunks ?T) = {}"
      using pk(3) fresh by (force simp: fresh_ids_def)
    ultimately show ?thesis
      by blast
  qed
  then have bare: "\<forall>cid \<in> chunk_id ` set chunks. replica_nodes (conn_tables s1) cid = []"
    by (force simp: replica_nodes_def T1 filter_empty_conv)
  have "prepared_session a \<in> set (t_sessions (conn_tables s1))"
    "prepared_file a fileName fileSize \<in> set (t_files (conn_tables s1))"
    by (simp_all add: T1)
  then have pend: "pending_file (conn_tables s1) (new_id a 1) = Some (prepared_file a fileName fileSize)"
    using wf1 by (auto simp: pending_file_Some select_session_iff select_file_iff prepared_session_def prepared_file_def)
  have "replicas_cover ?rf (conn_tables s1) (new_id a 0) rm"
    unfolding replicas_cover_def ids
  proof (intro conjI ballI)
    have "0 < int (length chunks)"
      unfolding split(3) by (rule ceil_div_bounds(3) [OF pos])
    then show "chunk_id ` set chunks \<noteq> {}"
      by auto
    show "fst ` set rm = chunk_id ` set chunks"
      by (rule keys(2))
    fix p
    assume p: "p \<in> set rm"
    obtain c ns where eq: "p = (c, ns)"
      by (cases p)
    then have ns: "int (length ns) = ?rf" "distinct ns" "\<forall>n \<in> set ns. healthy_node ?T n"
      using nodes p by auto
    have "c \<in> chunk_id ` set chunks"
      using keys(2) p eq by (metis fst_conv image_eqI)
    then have "(c, n) \<notin> loc_key ` set (t_locations (conn_tables s1))" for n
      using no_loc by (fastforce simp: T1 loc_key_def image_iff)
    moreover have "[] \<notin> set ns"
      using ns(3) named_healthy R by blast
    ultimately show "case p of (c, ns) \<Rightarrow> ?rf \<le> int (length ns) \<and> distinct ns \<and> [] \<notin> set ns
        \<and> (\<forall>n \<in> set ns. (c, n) \<notin> loc_key ` set (t_locations (conn_tables s1)))"
      using ns eq by simp
  qed
  moreover have "assigned m a ?T rm"
    unfolding assigned_def
  proof (intro ballI)
    fix p
    assume p: "p \<in> set rm"
    then have "fst p \<in> range (new_id a)"
      using keys(2) pk(3) by blast
    with p nodes show "case p of (i, ns) \<Rightarrow> i \<in> range (new_id a) \<and> int (length ns) = ?rf \<and> (\<forall>n \<in> set ns. healthy_node ?T n)"
      by auto
  qed
  ultimately show ?thesis
    using run wf1 keys split(1) len T1 bare pend
    by (intro exI [of _ rm] exI [of _ s1] exI [of _ chunks]) (simp add: prepared_def)
qed

lemma cover_reorder: "replicas_cover rf T fid (reorder p rm) = replicas_cover rf T fid rm"
  by (simp add: replicas_cover_def)

lemma committed_lookup:
  assumes ok: "no_faults e" "complete_scans e"
    and prep: "prepared m a fileName fileSize T rm chunks T1" and T: "tables_wf T"
    and new: "new_id a 0 \<notin> file_id ` set (t_files T)" "new_id a 0 \<noteq> []"
    and T2: "md_tables s = commit_tables order (new_id a 1) (reorder order1 rm) (prepared_file a fileName fileSize) T1"
    and wf2: "tables_wf (md_tables s)"
  shows "\<exists>got s3. server_GetFile e (new_id a 0) s = (Inr got, s3)
    \<and> got_file_name got = fileName \<and> got_file_size got = fileSize
    \<and> list_all2 (\<lambda>c p. plan_chunk_id p = chunk_id c \<and> plan_size_bytes p = chunk_size c
         \<and> (\<exists>ns. (chunk_id c, ns) \<in> set rm \<and> mset (map rep_node_id (plan_replicas p)) = mset ns))
        chunks (got_chunks got)"
proof -
  let ?f = "prepared_file a fileName fileSize" and ?fid = "new_id a 0" and ?T2 = "md_tables s"
  note P = prep [unfolded prepared_def]
  have fid: "file_id ?f = ?fid"
    by (simp add: prepared_file_def)
  have "?f \<in> set (t_files T1)"
    using P select_file_id by (metis pending_file_Some)
  then have "?f\<lparr>file_status := FileStatusCommitted\<rparr> \<in> set (t_files ?T2)"
    by (force simp: T2 commit_tables_def query_update_file_status_def query_update_upload_session_status_def)
  then have sel: "query_select_file_by_id ?fid ?T2 = Some (?f\<lparr>file_status := FileStatusCommitted\<rparr>)"
    using wf2 by (simp add: select_file_iff prepared_file_def)
  have t_chunks: "t_chunks ?T2 = t_chunks T @ chunks"
    using P by (simp add: T2 commit_tables_simps)
  have chosen: "query_select_chunks_by_file_id p ?fid ?T2 = chunks" for p
    using P by (intro new_chunks_selected [OF T new(1) t_chunks]) auto
  have "set (query_select_chunks_by_file_id [] ?fid ?T2) = set chunks"
    by (simp only: chosen)
  then have "file_chunk_ids ?T2 ?fid = chunk_id ` set chunks"
    by (simp add: file_chunk_ids_def)
  moreover have "chunk_id ` set chunks \<noteq> {}"
    using P by (auto simp: replicas_cover_def)
  ultimately have ne: "file_chunk_ids ?T2 ?fid \<noteq> {}"
    by simp
  have st: "file_status_of ?T2 ?fid = Some FileStatusCommitted"
    by (simp add: file_status_of_def sel)
  obtain got s3 where got: "server_GetFile e ?fid s = (Inr got, s3)"
    "got_file_name got = fileName" "got_file_size got = fileSize"
    "list_all2 (plan_of ?T2) chunks (got_chunks got)"
    using server_GetFile_cases [OF ok wf2 new(2)] st ne sel chosen
    by (cases "server_GetFile e ?fid s") (auto simp: prepared_file_def split: sum.splits)
  have "replica_nodes ?T2 (chunk_id c) = ns" if "(chunk_id c, ns) \<in> set rm" for c ns
  proof -
    have "chunk_id c \<in> chunk_id ` set chunks"
      using that P by (metis fst_conv image_eqI)
    then have none: "replica_nodes T1 (chunk_id c) = []"
      using P by blast
    have "map loc_node (filter (\<lambda>l. loc_chunk l = chunk_id c) (replica_rows (reorder order (reorder order1 rm)))) = ns"
      using that P by (intro replica_rows_of_chunk) simp_all
    with none show ?thesis
      by (simp add: replica_nodes_def T2 commit_tables_simps)
  qed
  moreover have "\<exists>ns. (chunk_id c, ns) \<in> set rm" if "c \<in> set chunks" for c
  proof -
    have "chunk_id c \<in> fst ` set rm"
      using that P by simp
    then show ?thesis
      by auto
  qed
  ultimately have "list_all2 (\<lambda>c p. plan_chunk_id p = chunk_id c \<and> plan_size_bytes p = chunk_size c
         \<and> (\<exists>ns. (chunk_id c, ns) \<in> set rm \<and> mset (map rep_node_id (plan_replicas p)) = mset ns))
        chunks (got_chunks got)"
    by (intro list.rel_mono_strong [OF got(4)]) (fastforce simp: plan_of_def)
  with got show ?thesis
    by blast
qed

lemma upload_completes:
  assumes "upload_ready e m a fileSize (md_tables s)" "fileName \<noteq> []"
  shows "\<exists>r s1 s2 got s3 chunks.
    server_PrepareUpload e m a order fileName fileSize s = (Ret (Inr r), s1)
    \<and> server_CommitUpload e m order' (prep_session_id r) (response_map r) s1 = (Inr (), s2)
    \<and> distinct (map fst (response_map r)) \<and> pending_file (md_tables s1) (prep_session_id r) \<noteq> None
    \<and> assigned m a (md_tables s) (response_map r)
    \<and> file_status_of (md_tables s2) (new_id a 0) = Some FileStatusCommitted
    \<and> server_GetFile e (new_id a 0) s2 = (Inr got, s3)
    \<and> got_file_name got = fileName \<and> got_file_size got = fileSize
    \<and> splits_file (new_id a 0) fileSize (mgr_chunkSize m) chunks
    \<and> list_all2 (\<lambda>c p. plan_chunk_id p = chunk_id c \<and> plan_size_bytes p = chunk_size c
         \<and> (\<exists>ns. (chunk_id c, ns) \<in> set (response_map r) \<and> mset (map rep_node_id (plan_replicas p)) = mset ns))
        chunks (got_chunks got)"
proof -
  let ?T = "md_tables s" and ?f = "prepared_file a fileName fileSize" and ?sid = "new_id a 1"
  have ok: "no_faults e" "complete_scans e" and wf: "tables_wf ?T" and pos: "0 < sint fileSize"
    and new: "new_id a 0 \<notin> file_id ` set (t_files ?T)" "new_id a 0 \<noteq> []" "?sid \<noteq> []"
    using assms(1) by (auto simp: upload_ready_def fresh_ids_def)
  obtain rm c chunks where run: "PrepareUpload e m a fileName fileSize (md_conn s) = (Ret (Inr (?sid, rm)), c)"
    and prep: "prepared m a fileName fileSize ?T rm chunks (conn_tables c)" and given: "assigned m a ?T rm"
    using prepare_prepares [OF assms(1)] by blast
  note P = prep [unfolded prepared_def]
  let ?s1 = "s\<lparr>md_conn := c\<rparr>" and ?rm = "reorder order rm"
  obtain r where r: "server_PrepareUpload e m a order fileName fileSize s = (Ret (Inr r), ?s1)"
    "prep_session_id r = ?sid" "response_map r = ?rm"
    using server_PrepareUpload_eq [OF assms(2) pos run] by blast
  have dist: "distinct (map fst ?rm)" and wf1: "tables_wf (conn_tables c)"
    and pend: "pending_file (conn_tables c) ?sid = Some ?f"
    using P by simp_all
  have "commit_allowed (ReplicationFactor (mgr_placement m)) (conn_tables c) ?sid ?rm"
  proof -
    have "file_id ?f = new_id a 0"
      by (simp add: prepared_file_def)
    with P show ?thesis
      unfolding commit_allowed_def cover_reorder by metis
  qed
  from CommitUpload_ok [OF ok wf1 dist this, where order = order']
  obtain c2 where commit: "CommitUpload e m order' ?sid ?rm c = (Inr (), c2)"
    by blast
  have T2: "conn_tables c2 = commit_tables order' ?sid ?rm ?f (conn_tables c)"
    using CommitUpload_InrD(2) [OF ok(2) wf1 dist commit] pend by (simp add: commit_effect_def)
  have wf2: "tables_wf (conn_tables c2)"
    using preservesD [OF wf_CommitUpload, of c e m order' ?sid ?rm] wf1 commit by (simp add: on_tables_def)
  let ?s2 = "s\<lparr>md_conn := c2\<rparr>"
  have "fst ` set rm \<noteq> {}"
    using P unfolding replicas_cover_def by metis
  then have "?rm \<noteq> []"
    by (metis image_empty list.set(1) set_reorder)
  then have "server_CommitUpload e m order' (prep_session_id r) (response_map r) ?s1 = (Inr (), ?s2)"
    using commit new(3) by (simp add: server_CommitUpload_def on_conn_def r mapErrR_def)
  moreover obtain got s3 where "server_GetFile e (new_id a 0) ?s2 = (Inr got, s3)"
    "got_file_name got = fileName" "got_file_size got = fileSize"
    "list_all2 (\<lambda>c p. plan_chunk_id p = chunk_id c \<and> plan_size_bytes p = chunk_size c
         \<and> (\<exists>ns. (chunk_id c, ns) \<in> set rm \<and> mset (map rep_node_id (plan_replicas p)) = mset ns))
        chunks (got_chunks got)"
    using committed_lookup [OF ok prep wf new(1,2), of ?s2 order' order] T2 wf2 by auto
  moreover have "file_status_of (md_tables ?s2) (new_id a 0) = Some FileStatusCommitted"
    using pending_file_status [OF pend] by (simp add: T2 commit_tables_simps prepared_file_def)
  moreover have "splits_file (new_id a 0) fileSize (mgr_chunkSize m) chunks" "set (response_map r) = set rm"
    using P by (simp_all add: r)
  moreover have "distinct (map fst (response_map r))" "pending_file (md_tables ?s1) (prep_session_id r) \<noteq> None"
    using dist pend by (simp_all add: r)
  moreover have "assigned m a ?T (response_map r)"
    using given by (simp add: r assigned_def)
  ultimately show ?thesis
    using r(1)
    by (intro exI [of _ r] exI [of _ ?s1] exI [of _ ?s2] exI [of _ got] exI [of _ s3] exI [of _ chunks]
        conjI) simp_all
qed

text \<open>
  C3. The round trip of an upload. With a database that answers, enough healthy nodes and fresh
  identifiers, \<open>PrepareUpload\<close> succeeds; a commit of its session with the map of its response
  succeeds; and \<open>GetFile\<close> then returns the name and size of the upload with plans for chunks that
  partition the file in order, each with exactly the nodes the response had assigned to it.
\<close>

theorem upload_roundtrip:
  assumes "upload_ready e m a fileSize (md_tables s)" "fileName \<noteq> []"
  shows "\<exists>r s1 s2 got s3 chunks.
    server_PrepareUpload e m a order fileName fileSize s = (Ret (Inr r), s1)
    \<and> server_CommitUpload e m order' (prep_session_id r) (response_map r) s1 = (Inr (), s2)
    \<and> server_GetFile e (new_id a 0) s2 = (Inr got, s3)
    \<and> got_file_name got = fileName \<and> got_file_size got = fileSize
    \<and> splits_file (new_id a 0) fileSize (mgr_chunkSize m) chunks
    \<and> list_all2 (\<lambda>c p. plan_chunk_id p = chunk_id c \<and> plan_size_bytes p = chunk_size c
         \<and> (\<exists>ns. (chunk_id c, ns) \<in> set (response_map r) \<and> mset (map rep_node_id (plan_replicas p)) = mset ns))
        chunks (got_chunks got)"
  using upload_completes [OF assms, of order order'] by blast

theorem upload_roundtrip_witness:
  "\<exists>r s1 s2 got s3.
    server_PrepareUpload plain_engine upload_mgr upload_ambient [] ''report'' 10
      \<lparr>md_conn = upload_conn, md_metrics = zero_metrics\<rparr> = (Ret (Inr r), s1)
    \<and> server_CommitUpload plain_engine upload_mgr [] (prep_session_id r) (response_map r) s1 = (Inr (), s2)
    \<and> server_GetFile plain_engine (new_id upload_ambient 0) s2 = (Inr got, s3)
    \<and> got_file_name got = ''report'' \<and> got_file_size got = 10"
proof -
  have "upload_ready plain_engine upload_mgr upload_ambient 10
      (md_tables \<lparr>md_conn = upload_conn, md_metrics = zero_metrics\<rparr>)"
    using upload_example
    by (simp add: upload_ready_def named_nodes_def upload_ambient_def)
      (simp add: upload_conn_def empty_tables_def three_nodes_def)
  from upload_roundtrip [OF this, of "''report''" "[]" "[]"] show ?thesis
    by auto
qed

end
