(* ===== verification/Metad_Calls.thy ===== *)
theory Metad_Calls
  imports Metad_Server_Properties
begin

text \<open>
  What the goroutines of the metadata daemon do to the database, one database call at a time. The store
  keeps a single connection (\<open>SetMaxOpenConns(1)\<close> in \<open>sqlite.go\<close>), so a transaction runs alone and every
  statement outside a transaction is atomic, while handlers, the monitor and the scanner may
  interleave between their calls. \<open>db_call\<close> lists the writing calls; the locale \<open>db_client\<close> says what it
  takes for a property of the tables to survive every operation of the daemon, and it is
  enough that it survives each of these calls.
\<close>

datatype db_call =
    TxPrepare ambient string int64 "chunk_row list"
  | TxCommit "nat list" string replica_map
  | MarkDeleted string
  | TouchNode int64 string string int64 int64
  | AddNode node_row
  | SetNodeStatus string string
  | AddReplica string string

fun run_db_call :: "engine \<Rightarrow> manager \<Rightarrow> db_call \<Rightarrow> conn \<Rightarrow> conn" where
  "run_db_call e m (TxPrepare a fileName fileSize chunks) s = snd (WithTx e (prepare_tx e a fileName fileSize chunks) s)"
| "run_db_call e m (TxCommit order sid rm) s = snd (CommitUpload e m order sid rm s)"
| "run_db_call e m (MarkDeleted fid) s = snd (UpdateFileStatus e fid FileStatusDeleted s)"
| "run_db_call e m (TouchNode now nid addr cap avail) s =
     snd (ExecContext e (\<lambda>T. Inr (query_upsert_node_heartbeat addr cap avail now nid T)) s)"
| "run_db_call e m (AddNode n) s = snd (exec_insert e (query_insert_node n) s)"
| "run_db_call e m (SetNodeStatus nid st) s = snd (UpdateNodeStatus e nid st s)"
| "run_db_call e m (AddReplica cid nid) s = snd (AddChunkLocation e cid nid s)"

text \<open>The calls the daemon makes: planned chunks, and commits whose scans are complete.\<close>

fun daemon_call :: "engine \<Rightarrow> manager \<Rightarrow> db_call \<Rightarrow> bool" where
  "daemon_call e m (TxPrepare a fileName fileSize chunks) \<longleftrightarrow> plan_chunks a (new_id a 0) fileSize (mgr_chunkSize m) = Ret chunks"
| "daemon_call e m (TxCommit order sid rm) \<longleftrightarrow> complete_scans e \<and> distinct (map fst rm)"
| "daemon_call e m _ \<longleftrightarrow> True"

locale db_client =
  fixes m :: manager
    and allowed :: "db_call \<Rightarrow> bool"
    and P :: "tables \<Rightarrow> bool"
  assumes call_law: "P (conn_tables s) \<Longrightarrow> daemon_call e m q \<Longrightarrow> allowed q \<Longrightarrow> P (conn_tables (run_db_call e m q s))"
begin

lemma keeps_call:
  assumes "\<And>s. snd (f s) = run_db_call e m q s" "daemon_call e m q" "allowed q"
  shows "preserves (on_tables P) f"
  using assms(1) call_law [OF _ assms(2,3)] by (simp add: preserves_def on_tables_def)

lemma keeps_server_PrepareUpload:
  assumes "P (md_tables s)" "\<And>chunks. allowed (TxPrepare a fileName fileSize chunks)"
  shows "P (md_tables (snd (server_PrepareUpload e m a order fileName fileSize s)))"
proof -
  have tx: "preserves (on_tables P) (prepare_store e m a fileName fileSize chunks)"
    if "plan_chunks a (new_id a 0) fileSize (mgr_chunkSize m) = Ret chunks" for chunks
  proof -
    have "preserves (on_tables P) (WithTx e (prepare_tx e a fileName fileSize chunks))"
      by (rule keeps_call [where e = e and q = "TxPrepare a fileName fileSize chunks"]) (simp_all add: that assms(2))
    then show ?thesis
      unfolding prepare_store_def registry_ListHealthyNodes_def by (intro preserve_intros)
  qed
  obtain r c where run: "PrepareUpload e m a fileName fileSize (md_conn s) = (r, c)"
    by (cases "PrepareUpload e m a fileName fileSize (md_conn s)")
  have "P (conn_tables c)"
  proof (cases r)
    case (Ret q)
    with run preservesD [OF tx, where s = "md_conn s"] assms(1) show ?thesis
      by (auto simp: PrepareUpload_Ret on_tables_def split: if_splits)
  next
    case (Panic d)
    with run have "c = md_conn s"
      by (auto simp: PrepareUpload_def Let_def split: if_splits outcome.splits prod.splits)
    with assms(1) show ?thesis
      by simp
  qed
  with server_PrepareUpload_tables [of e m a order fileName fileSize s] run assms(1) show ?thesis
    by auto
qed

lemma keeps_server_CommitUpload:
  assumes "P (md_tables s)" "allowed (TxCommit order sid rm)" "complete_scans e" "distinct (map fst rm)"
  shows "P (md_tables (snd (server_CommitUpload e m order sid rm s)))"
  using server_CommitUpload_tables [of e m order sid rm s] assms call_law [of "md_conn s" e "TxCommit order sid rm"] by auto

lemma keeps_server_DeleteFile:
  assumes "P (md_tables s)" "allowed (MarkDeleted fid)"
  shows "P (md_tables (snd (server_DeleteFile e fid s)))"
proof -
  have "preserves (on_tables P) (UpdateFileStatus e fid FileStatusDeleted)"
    by (rule keeps_call [where e = e and q = "MarkDeleted fid"]) (simp_all add: assms(2))
  then have "preserves (on_tables P) (manifest_DeleteFile e fid)"
    unfolding manifest_DeleteFile_def by (intro preserve_intros)
  with server_DeleteFile_tables [of e fid s] assms(1) show ?thesis
    by (auto dest: preservesD simp: on_tables_def)
qed

lemma keeps_server_Heartbeat:
  assumes "P (md_tables s)" "\<And>hb. allowed (TouchNode hb nid addr cap avail)"
    and "\<And>hb. allowed (AddNode \<lparr>node_id = nid, node_address = addr, node_capacity = cap, node_available = avail,
      node_status = NodeStatusHealthy, node_heartbeat = hb\<rparr>)"
  shows "P (md_tables (snd (server_Heartbeat e now nid addr cap avail s)))"
proof -
  have "preserves (on_tables P) (UpsertNodeHeartbeat e hb nid addr cap avail)" for hb
    unfolding UpsertNodeHeartbeat_def
    by (intro preserve_intros keeps_call [where e = e and q = "TouchNode hb nid addr cap avail"]
        keeps_call [where e = e and q = "AddNode \<lparr>node_id = nid, node_address = addr, node_capacity = cap, node_available = avail,
          node_status = NodeStatusHealthy, node_heartbeat = hb\<rparr>"]) (simp_all add: assms(2,3))
  then have "preserves (on_tables P) (registry_Heartbeat e now nid addr cap avail)"
    unfolding registry_Heartbeat_def by (intro preserve_intros)
  with server_Heartbeat_tables [of e now nid addr cap avail s] assms(1) show ?thesis
    by (auto dest: preservesD simp: on_tables_def)
qed

lemma keeps_monitorOnce:
  assumes "P (md_tables s)" "\<And>nid st. allowed (SetNodeStatus nid st)"
  shows "P (md_tables (monitorOnce e failureTimeout now s))"
proof -
  have "preserves (on_tables P) (UpdateNodeStatus e nid st)" for nid st
    by (rule keeps_call [where e = e and q = "SetNodeStatus nid st"]) (simp_all add: assms(2))
  from monitorOnce_keeps [OF this] assms(1) show ?thesis
    by (simp add: on_metad_def)
qed

end

text \<open>Preparing an upload changes nothing or adds the rows of one file.\<close>

lemma prepare_tx_adds:
  assumes "WithTx e (prepare_tx e a fileName fileSize chunks) s = (r, s1)"
  shows "conn_tables s1 = conn_tables s
    \<or> conn_tables s1 = (conn_tables s)\<lparr>t_files := t_files (conn_tables s) @ [prepared_file a fileName fileSize],
         t_sessions := t_sessions (conn_tables s) @ [prepared_session a], t_chunks := t_chunks (conn_tables s) @ chunks\<rparr>"
proof (cases r)
  case (Inr u)
  then obtain s2 s3 where "conn_tables s2 = conn_tables s" "conn_tables s1 = conn_tables s3"
    "prepare_tx e a fileName fileSize chunks s2 = (Inr (), s3)"
    using WithTx_InrD assms by metis
  with prepare_tx_InrD [of e a fileName fileSize chunks s2 "()" s3] show ?thesis
    by auto
qed (use assms in \<open>simp add: WithTx_InlD\<close>)

subsection \<open>The life cycle of files survives every call\<close>

lemma life_prepare_tx:
  assumes life: "lifecycle_ok rf (conn_tables s)" and plan: "plan_chunks a (new_id a 0) fileSize chunkSize = Ret chunks"
  shows "lifecycle_ok rf (conn_tables (snd (WithTx e (prepare_tx e a fileName fileSize chunks) s)))"
proof (cases "WithTx e (prepare_tx e a fileName fileSize chunks) s")
  case (Pair r s1)
  show ?thesis
  proof (cases r)
    case Inl
    with Pair life show ?thesis
      by (simp add: WithTx_InlD)
  next
    case (Inr u)
    then obtain s2 s3 where s2: "conn_tables s2 = conn_tables s" "conn_tables s1 = conn_tables s3"
      and p: "prepare_tx e a fileName fileSize chunks s2 = (Inr (), s3)"
      using WithTx_InrD Pair by metis
    have "on_tables tables_wf s3"
      using preservesD [OF wf_prepare_tx, of s2 e a fileName fileSize chunks] life s2(1) p
      by (simp add: on_tables_def lifecycle_ok_def)
    then have "lifecycle_ok rf (conn_tables s3)"
      using lifecycle_prepare [OF _ _ prepare_tx_InrD [OF p] prepare_files_new [OF p] plan_files [OF plan]]
        life s2(1) by (simp add: on_tables_def)
    with Pair s2(2) show ?thesis
      by simp
  qed
qed

interpretation life_calls: db_client m "\<lambda>q. True" "lifecycle_ok (ReplicationFactor (mgr_placement m))" for m
proof
  fix s :: conn and e q
  let ?I = "lifecycle_ok (ReplicationFactor (mgr_placement m))"
  assume life: "?I (conn_tables s)" and call: "daemon_call e m q"
  have kept: "preserves (on_tables ?I) f \<Longrightarrow> ?I (conn_tables (snd (f s)))" for f :: "conn \<Rightarrow> 'x \<times> conn"
    using life by (auto dest: preservesD simp: on_tables_def)
  show "?I (conn_tables (run_db_call e m q s))"
  proof (cases q)
    case (TxPrepare a fileName fileSize chunks)
    with life_prepare_tx [OF life] call show ?thesis
      by simp
  next
    case (TxCommit order sid rm)
    with call life_CommitUpload [of e rm m _ order sid] show ?thesis
      by (auto intro: kept)
  next
    case (MarkDeleted fid)
    have "preserves (on_tables ?I) (UpdateFileStatus e fid FileStatusDeleted)"
      unfolding UpdateFileStatus_def by (intro preserve_intros preserves_exec_update) (rule lifecycle_delete)
    with MarkDeleted show ?thesis
      by (auto intro: kept)
  next
    case (TouchNode now nid addr cap avail)
    have "preserves (on_tables ?I) (ExecContext e (\<lambda>T. Inr (query_upsert_node_heartbeat addr cap avail now nid T)))"
    proof (rule preserves_ExecContext)
      fix T x T1
      assume "?I T" "Inr (query_upsert_node_heartbeat addr cap avail now nid T) = (Inr (x, T1) :: string + _)"
      then show "?I T1"
        using life.keeps_upsert [of _ T addr cap avail now nid] by auto
    qed
    with TouchNode show ?thesis
      by (auto intro: kept)
  next
    case (AddNode n)
    have "preserves (on_tables ?I) (exec_insert e (query_insert_node n))"
      by (intro preserves_exec_insert) (rule life.keeps_insert_node)
    with AddNode show ?thesis
      by (auto intro: kept)
  next
    case (SetNodeStatus nid st)
    with life.keeps_UpdateNodeStatus show ?thesis
      by (auto intro: kept)
  next
    case (AddReplica cid nid)
    with life.keeps_AddChunkLocation show ?thesis
      by (auto intro: kept)
  qed
qed

end
