(* ===== verification/Metad_System.thy ===== *)
theory Metad_System
  imports Metad_Calls
begin

text \<open>
  The metadata daemon as a state machine: the gRPC handlers, the monitor, the repair scanner and
  the metrics updater, in any order, with any requests, clock readings, random draws and driver
  failures, and restarts of the daemon on its database; the world outside may change at any time.
  Each call is one step (a crash in the middle of one is a call whose later statements all fail);
  \<open>Dfs_System\<close> treats the interleavings inside the calls. A commit is a step only when its scans are complete
  (\<open>CommitUpload_truncated_scan\<close> shows what happens otherwise).
\<close>

inductive metad_step :: "manager \<Rightarrow> int64 \<Rightarrow> 'w copy_rpc \<Rightarrow> metad \<times> 'w \<Rightarrow> metad \<times> 'w \<Rightarrow> bool"
  for m failureTimeout copy where
  step_prepare: "server_PrepareUpload e m a order fileName fileSize s = (r, s1) \<Longrightarrow>
     metad_step m failureTimeout copy (s, w) (s1, w)"
| step_commit: "complete_scans e \<Longrightarrow> distinct (map fst rm) \<Longrightarrow>
     server_CommitUpload e m order sid rm s = (r, s1) \<Longrightarrow>
     metad_step m failureTimeout copy (s, w) (s1, w)"
| step_get: "server_GetFile e fid s = (r, s1) \<Longrightarrow> metad_step m failureTimeout copy (s, w) (s1, w)"
| step_delete: "server_DeleteFile e fid s = (r, s1) \<Longrightarrow> metad_step m failureTimeout copy (s, w) (s1, w)"
| step_list: "server_ListFiles e s = (r, s1) \<Longrightarrow> metad_step m failureTimeout copy (s, w) (s1, w)"
| step_heartbeat: "server_Heartbeat e now nid addr cap avail s = (r, s1) \<Longrightarrow>
     metad_step m failureTimeout copy (s, w) (s1, w)"
| step_monitor: "metad_step m failureTimeout copy (s, w) (monitorOnce e failureTimeout now s, w)"
| step_repair: "metad_step m failureTimeout copy (s, w)
     (scanOnce e copy (ReplicationFactor (mgr_placement m)) (s, w))"
| step_metrics: "metad_step m failureTimeout copy (s, w) (update_metrics e s, w)"
| step_restart: "NewSQLite e path (Some (md_tables s)) = (Inr u, c) \<Longrightarrow>
     metad_step m failureTimeout copy (s, w) (\<lparr>md_conn = c, md_metrics = zero_metrics\<rparr>, w)"
| step_world: "metad_step m failureTimeout copy (s, w) (s, w')"

inductive metad_reachable :: "manager \<Rightarrow> int64 \<Rightarrow> 'w copy_rpc \<Rightarrow> metad \<times> 'w \<Rightarrow> bool"
  for m failureTimeout copy where
  start: "NewSQLite e path None = (Inr u, c) \<Longrightarrow>
     metad_reachable m failureTimeout copy (\<lparr>md_conn = c, md_metrics = zero_metrics\<rparr>, w)"
| step: "metad_reachable m failureTimeout copy st \<Longrightarrow> metad_step m failureTimeout copy st st1 \<Longrightarrow>
     metad_reachable m failureTimeout copy st1"

inductive_cases metad_stepE: "metad_step m failureTimeout copy st st1"

subsection \<open>Every step keeps the life cycle\<close>

lemma restart_tables:
  assumes "NewSQLite e path (Some T) = (Inr u, c)" "lifecycle_ok rf T"
  shows "conn_tables c = T"
  using NewSQLite_tables [OF assms(1)] assms(2) by (cases T) (simp add: run_schema_def lifecycle_ok_def tables_wf_def)

lemma life_metad_step:
  assumes "metad_step m failureTimeout copy st st1"
    and "lifecycle_ok (ReplicationFactor (mgr_placement m)) (st_tables st)"
  shows "lifecycle_ok (ReplicationFactor (mgr_placement m)) (st_tables st1)"
  using assms
proof (cases rule: metad_step.cases)
  case (step_prepare e a order fileName fileSize s r s1 w)
  with life_calls.keeps_server_PrepareUpload [where e = e and s = s and order = order] assms(2) show ?thesis
    by (metis fst_conv snd_conv TrueI)
next
  case (step_commit e rm order sid s r s1 w)
  with life_calls.keeps_server_CommitUpload [where e = e and s = s] assms(2) show ?thesis
    by (metis fst_conv snd_conv TrueI)
next
  case (step_get e fid s r s1 w)
  with server_GetFile_tables [of e fid s] assms(2) show ?thesis
    by simp
next
  case (step_delete e fid s r s1 w)
  with life_calls.keeps_server_DeleteFile [where e = e and s = s] assms(2) show ?thesis
    by (metis fst_conv snd_conv TrueI)
next
  case (step_list e s r s1 w)
  with server_ListFiles_tables [of e s] assms(2) show ?thesis
    by simp
next
  case (step_heartbeat e now nid addr cap avail s r s1 w)
  with life_calls.keeps_server_Heartbeat [where e = e and s = s] assms(2) show ?thesis
    by (metis fst_conv snd_conv TrueI)
next
  case (step_monitor s w e now)
  with life_calls.keeps_monitorOnce [where s = s] assms(2) show ?thesis
    by simp
next
  case (step_repair s w e)
  with life.keeps_scanOnce [of _ "(s, w)" e copy] assms(2) show ?thesis
    by (simp add: on_metad_def)
next
  case (step_restart e path s u c w)
  with restart_tables assms(2) show ?thesis
    by fastforce
qed (use assms(2) in simp_all)

lemma life_reachable:
  "metad_reachable m failureTimeout copy st \<Longrightarrow> lifecycle_ok (ReplicationFactor (mgr_placement m)) (st_tables st)"
proof (induction rule: metad_reachable.induct)
  case (start e path u c w)
  have "conn_tables c = empty_tables\<lparr>foreign_keys := True\<rparr>"
    using NewSQLite_tables [OF start] by (simp add: run_schema_def)
  then show ?case
    by (simp add: lifecycle_empty)
qed (rule life_metad_step)

text \<open>
  In every state the daemon can reach from a fresh database, whatever requests, failures,
  heartbeats, monitor and repair cycles came before: every committed file has at least one chunk,
  and every chunk of a committed file is recorded on at least the replication factor of pairwise
  distinct nodes.
\<close>

lemma committed_files_replicated:
  assumes "metad_reachable m failureTimeout copy st" "f \<in> set (t_files (st_tables st))"
    and "file_status f = FileStatusCommitted"
  shows "file_chunk_ids (st_tables st) (file_id f) \<noteq> {}
    \<and> (\<forall>cid \<in> file_chunk_ids (st_tables st) (file_id f). distinct (replica_nodes (st_tables st) cid)
         \<and> ReplicationFactor (mgr_placement m) \<le> int (length (replica_nodes (st_tables st) cid)))"
proof -
  have "lifecycle_ok (ReplicationFactor (mgr_placement m)) (st_tables st)"
    by (rule life_reachable [OF assms(1)])
  then show ?thesis
    using assms(2,3) distinct_replica_nodes by (simp add: lifecycle_ok_def replicated_def)
qed

text \<open>
  C20. In every reachable state an upload session and its file agree: a committed session's file is
  committed or, later, deleted, never pending; a session still in preparation never belongs to a
  committed file; no file has two sessions; and only the documented statuses occur.
\<close>

theorem sessions_and_files_agree:
  assumes "metad_reachable m failureTimeout copy st" "u \<in> set (t_sessions (st_tables st))"
  shows "(sess_status u = UploadStatusCommitted \<and>
           file_status_of (st_tables st) (sess_file u) \<in> {Some FileStatusCommitted, Some FileStatusDeleted}
          \<or> sess_status u = UploadStatusPreparing \<and>
           file_status_of (st_tables st) (sess_file u) \<in> {Some FileStatusPending, Some FileStatusDeleted})
    \<and> (\<forall>v \<in> set (t_sessions (st_tables st)). sess_file v = sess_file u \<longrightarrow> v = u)"
proof -
  let ?T = "st_tables st"
  have life: "lifecycle_ok (ReplicationFactor (mgr_placement m)) ?T"
    by (rule life_reachable [OF assms(1)])
  then have "sess_file u \<in> file_id ` set (t_files ?T)"
    using assms(2) by (simp add: lifecycle_ok_def tables_wf_def)
  then obtain f where f: "f \<in> set (t_files ?T)" "file_id f = sess_file u"
    by auto
  then have st: "file_status_of ?T (sess_file u) = Some (file_status f)"
    using life by (metis file_status_of_def lifecycle_ok_def option.simps(9) select_file_iff)
  have "\<forall>v \<in> set (t_sessions ?T). sess_file v = sess_file u \<longrightarrow> v = u"
    using life assms(2) distinct_map_inj_on_set [of sess_file "t_sessions ?T"]
    by (auto simp: lifecycle_ok_def sessions_match_def)
  moreover have "sess_status u \<in> {UploadStatusPreparing, UploadStatusCommitted}"
    "file_status f \<in> {FileStatusPending, FileStatusCommitted, FileStatusDeleted}"
    "sess_status u = UploadStatusPreparing \<Longrightarrow> file_status f \<noteq> FileStatusCommitted"
    "sess_status u = UploadStatusCommitted \<Longrightarrow> file_status f \<noteq> FileStatusPending"
    using life assms(2) f by (auto simp: lifecycle_ok_def known_statuses_def sessions_match_def)
  ultimately show ?thesis
    unfolding st by auto
qed

subsection \<open>The history of a file\<close>

definition status_moves :: "string \<Rightarrow> string \<Rightarrow> bool" where
  "status_moves st st' \<longleftrightarrow> st' = st
     \<or> st = FileStatusPending \<and> (st' = FileStatusCommitted \<or> st' = FileStatusDeleted)
     \<or> st = FileStatusCommitted \<and> st' = FileStatusDeleted"

definition files_evolve :: "tables \<Rightarrow> tables \<Rightarrow> bool" where
  "files_evolve T T1 \<longleftrightarrow> (\<forall>fid f. query_select_file_by_id fid T = Some f \<longrightarrow>
     (\<exists>f1. query_select_file_by_id fid T1 = Some f1 \<and> file_name f1 = file_name f \<and> file_size f1 = file_size f
        \<and> status_moves (file_status f) (file_status f1)))"

lemma status_moves_trans: "status_moves a b \<Longrightarrow> status_moves b c \<Longrightarrow> status_moves a c"
  by (auto simp: status_moves_def)

lemma files_evolve_same: "t_files T1 = t_files T \<Longrightarrow> files_evolve T T1"
  by (simp add: files_evolve_def query_select_file_by_id_def status_moves_def)

lemma files_evolve_trans:
  assumes "files_evolve T T1" "files_evolve T1 T2"
  shows "files_evolve T T2"
  unfolding files_evolve_def
proof (intro allI impI)
  fix fid f
  assume "query_select_file_by_id fid T = Some f"
  with assms(1) obtain f1 where f1: "query_select_file_by_id fid T1 = Some f1" "file_name f1 = file_name f"
    "file_size f1 = file_size f" "status_moves (file_status f) (file_status f1)"
    unfolding files_evolve_def by blast
  with assms(2) obtain f2 where "query_select_file_by_id fid T2 = Some f2" "file_name f2 = file_name f1"
    "file_size f2 = file_size f1" "status_moves (file_status f1) (file_status f2)"
    unfolding files_evolve_def by blast
  with f1 show "\<exists>f1. query_select_file_by_id fid T2 = Some f1 \<and> file_name f1 = file_name f
      \<and> file_size f1 = file_size f \<and> status_moves (file_status f) (file_status f1)"
    using status_moves_trans by fastforce
qed

lemma files_evolve_status:
  assumes "\<And>f. query_select_file_by_id fid T = Some f \<Longrightarrow> status_moves (file_status f) st"
  shows "files_evolve T (query_update_file_status st fid T)"
  using assms
  by (auto simp: files_evolve_def query_update_file_status_def query_select_file_by_id_def
      find_update_status status_moves_def)

interpretation evolve_calls: db_client m "\<lambda>q. \<exists>a fileName fileSize chunks. q = TxPrepare a fileName fileSize chunks"
  "files_evolve T" for m T
proof
  fix s :: conn and e q
  assume old: "files_evolve T (conn_tables s)" and "\<exists>a fileName fileSize chunks. q = TxPrepare a fileName fileSize chunks"
  then obtain a fileName fileSize chunks where q: "q = TxPrepare a fileName fileSize chunks"
    by blast
  have "files_evolve T1 (T1\<lparr>t_files := t_files T1 @ fs, t_sessions := us, t_chunks := cs\<rparr>)" for T1 fs us cs
    by (auto simp: files_evolve_def query_select_file_by_id_def find_append status_moves_def)
  with prepare_tx_adds [OF surjective_pairing, of e a fileName fileSize chunks s]
  have "files_evolve (conn_tables s) (conn_tables (run_db_call e m q s))"
    by (metis files_evolve_same q run_db_call.simps(1))
  with old show "files_evolve T (conn_tables (run_db_call e m q s))"
    by (rule files_evolve_trans)
qed

lemma evolve_commit:
  assumes "complete_scans e" "tables_wf (conn_tables s)" "distinct (map fst rm)"
  shows "files_evolve (conn_tables s) (conn_tables (snd (CommitUpload e m order sid rm s)))"
proof (cases "CommitUpload e m order sid rm s")
  case (Pair r s1)
  show ?thesis
  proof (cases r)
    case Inl
    with Pair CommitUpload_InlD show ?thesis
      by (intro files_evolve_same) simp
  next
    case (Inr u)
    note T1 = CommitUpload_InrD(2) [OF assms Pair [unfolded Inr]]
    show ?thesis
    proof (cases "pending_file (conn_tables s) sid")
      case None
      with Pair T1 show ?thesis
        by (simp add: commit_effect_def files_evolve_same)
    next
      case (Some f)
      let ?T = "(conn_tables s)\<lparr>t_locations := t_locations (conn_tables s) @ replica_rows (reorder order rm)\<rparr>"
      have "files_evolve (conn_tables s) ?T"
        by (simp add: files_evolve_same)
      moreover have "files_evolve ?T (query_update_file_status FileStatusCommitted (file_id f) ?T)"
      proof (rule files_evolve_status)
        fix g
        assume "query_select_file_by_id (file_id f) ?T = Some g"
        then have "file_status g = FileStatusPending"
          using pending_file_status [OF Some] by (simp add: file_status_of_def query_select_file_by_id_def)
        then show "status_moves (file_status g) FileStatusCommitted"
          by (simp add: status_moves_def)
      qed
      moreover have "files_evolve (query_update_file_status FileStatusCommitted (file_id f) ?T) (conn_tables s1)"
        by (rule files_evolve_same)
          (simp add: T1 commit_effect_def Some commit_tables_def query_update_upload_session_status_def)
      ultimately show ?thesis
        using Pair files_evolve_trans by fastforce
    qed
  qed
qed

lemma evolve_delete:
  assumes "known_statuses (conn_tables s)"
  shows "files_evolve (conn_tables s) (conn_tables (snd (manifest_DeleteFile e fid s)))"
proof (cases "manifest_DeleteFile e fid s")
  case (Pair r s1)
  show ?thesis
  proof (cases r)
    case Inl
    with Pair DeleteFile_InlD show ?thesis
      by (intro files_evolve_same) simp
  next
    case (Inr u)
    have "status_moves (file_status f) FileStatusDeleted"
      if "query_select_file_by_id fid (conn_tables s) = Some f" for f
      using assms select_file_id [OF that] by (auto simp: known_statuses_def status_moves_def)
    from files_evolve_status [OF this] Pair DeleteFile_InrD(2) [OF Pair [unfolded Inr]] show ?thesis
      by simp
  qed
qed

text \<open>The node table and the replica rows come and go without touching the files.\<close>

lemma query_insert_location_files: "query_insert_chunk_location l T = Inr T1 \<Longrightarrow> t_files T1 = t_files T"
  by (auto simp: query_insert_chunk_location_def split: if_splits)

interpretation same_files: replica_invariant "\<lambda>T. tables_wf T \<and> t_files T = F" for F
  by unfold_locales (auto dest: tables_wf_insert_location query_insert_location_files)

lemma evolve_step:
  assumes "metad_step m failureTimeout copy st st1"
    and life: "lifecycle_ok (ReplicationFactor (mgr_placement m)) (st_tables st)"
  shows "files_evolve (st_tables st) (st_tables st1)"
proof -
  have wf: "tables_wf (st_tables st)" and known: "known_statuses (st_tables st)"
    using life by (simp_all add: lifecycle_ok_def)
  show ?thesis
    using assms(1)
  proof (cases rule: metad_step.cases)
    case (step_prepare e a order fileName fileSize s r s1 w)
    with evolve_calls.keeps_server_PrepareUpload [of "md_tables s" s a fileName fileSize e m order] show ?thesis
      by (auto simp: files_evolve_same)
  next
    case (step_commit e rm order sid s r s1 w)
    with server_CommitUpload_tables [of e m order sid rm s] wf
      evolve_commit [of e "md_conn s" rm m order sid] show ?thesis
      by (auto intro: files_evolve_same)
  next
    case (step_delete e fid s r s1 w)
    with server_DeleteFile_tables [of e fid s] known evolve_delete [of "md_conn s" e fid] show ?thesis
      by (auto intro: files_evolve_same)
  next
    case (step_get e fid s r s1 w)
    with server_GetFile_tables [of e fid s] show ?thesis
      by (intro files_evolve_same) simp
  next
    case (step_list e s r s1 w)
    with server_ListFiles_tables [of e s] show ?thesis
      by (intro files_evolve_same) simp
  next
    case (step_heartbeat e now nid addr cap avail s r s1 w)
    have "t_files (conn_tables (snd (registry_Heartbeat e now nid addr cap avail (md_conn s)))) = t_files (md_tables s)"
      using preservesD [where s = "md_conn s", OF same_files.keeps_registry_Heartbeat] wf step_heartbeat
      by (simp add: on_tables_def)
    with server_Heartbeat_tables [of e now nid addr cap avail s] step_heartbeat show ?thesis
      by (intro files_evolve_same) auto
  next
    case (step_monitor s w e now)
    with same_files.keeps_monitorOnce [of _ s e failureTimeout now] wf show ?thesis
      by (intro files_evolve_same) (simp add: on_metad_def)
  next
    case (step_repair s w e)
    with same_files.keeps_scanOnce [of _ "(s, w)" e copy] wf show ?thesis
      by (intro files_evolve_same) (simp add: on_metad_def)
  next
    case (step_restart e path s u c w)
    with restart_tables life show ?thesis
      by (intro files_evolve_same) fastforce
  qed (auto intro: files_evolve_same)
qed

lemma evolve_steps:
  assumes "(metad_step m failureTimeout copy)\<^sup>*\<^sup>* st st1" "metad_reachable m failureTimeout copy st"
  shows "files_evolve (st_tables st) (st_tables st1) \<and> metad_reachable m failureTimeout copy st1"
  using assms
proof (induction rule: rtranclp_induct)
  case (step st1 st2)
  then have evolved: "files_evolve (st_tables st) (st_tables st1)" and reach: "metad_reachable m failureTimeout copy st1"
    by blast+
  have "files_evolve (st_tables st1) (st_tables st2)"
    by (rule evolve_step [OF step.hyps(2) life_reachable [OF reach]])
  with evolved have "files_evolve (st_tables st) (st_tables st2)"
    by (rule files_evolve_trans)
  with metad_reachable.step [OF reach step.hyps(2)] show ?case
    by blast
qed (simp add: files_evolve_same)

text \<open>
  C10. The history of a file. Once a file is in the database of a running daemon it stays there with
  its name and size, whatever happens later; its status only ever moves from pending to committed
  or deleted and from committed to deleted, so a deleted file never comes back and a committed one
  is never pending again.
\<close>

theorem file_history:
  assumes "metad_reachable m failureTimeout copy st" "(metad_step m failureTimeout copy)\<^sup>*\<^sup>* st st1"
    and "query_select_file_by_id fid (st_tables st) = Some f"
  shows "\<exists>f1. query_select_file_by_id fid (st_tables st1) = Some f1 \<and> file_name f1 = file_name f
    \<and> file_size f1 = file_size f \<and> status_moves (file_status f) (file_status f1)"
  using evolve_steps [OF assms(2,1)] assms(3) by (simp add: files_evolve_def)

subsection \<open>An example\<close>

text \<open>A daemon with replication factor 1, after its first node has sent a heartbeat.\<close>

definition small_mgr :: manager where
  "small_mgr = NewManager (NewEngine 1) 4"

definition one_node :: metad where
  "one_node = snd (server_Heartbeat plain_engine second ''n1'' ''host:9100'' 100 100
     \<lparr>md_conn = \<lparr>conn_tables = empty_tables\<lparr>foreign_keys := True\<rparr>, conn_tick = 5\<rparr>, md_metrics = zero_metrics\<rparr>)"

lemma one_node_reachable: "metad_reachable small_mgr failureTimeout copy (one_node, w)"
proof (rule metad_reachable.step)
  show "metad_reachable small_mgr failureTimeout copy
      (\<lparr>md_conn = \<lparr>conn_tables = empty_tables\<lparr>foreign_keys := True\<rparr>, conn_tick = 5\<rparr>, md_metrics = zero_metrics\<rparr>, w)"
    by (rule metad_reachable.start [OF NewSQLite_plain])
  show "metad_step small_mgr failureTimeout copy
      (\<lparr>md_conn = \<lparr>conn_tables = empty_tables\<lparr>foreign_keys := True\<rparr>, conn_tick = 5\<rparr>, md_metrics = zero_metrics\<rparr>, w)
      (one_node, w)"
    unfolding one_node_def by (rule step_heartbeat [OF surjective_pairing])
qed

lemma one_node_tables:
  "md_tables one_node = empty_tables\<lparr>foreign_keys := True, t_nodes :=
     [\<lparr>node_id = ''n1'', node_address = ''host:9100'', node_capacity = 100, node_available = 100,
       node_status = NodeStatusHealthy, node_heartbeat = unix_seconds second\<rparr>]\<rparr>"
  by (simp add: one_node_def server_Heartbeat_def on_conn_def registry_Heartbeat_def registry_ListHealthyNodes_def
      run_simps query_upsert_node_heartbeat_def query_insert_node_def empty_tables_def with_metrics_def)

lemma one_node_ready: "upload_ready plain_engine small_mgr upload_ambient 10 (md_tables one_node)"
proof -
  have "inj (new_id upload_ambient)"
    by (rule injI) (simp add: upload_ambient_def replicate_eq_replicate)
  then show ?thesis
    by (simp add: upload_ready_def one_node_tables empty_tables_def tables_wf_def named_nodes_def fresh_ids_def
        small_mgr_def NewManager_def NewEngine_def ReplicationFactor_def)
      (simp add: upload_ambient_def)
qed

lemma committed_reachable:
  "\<exists>s1 s2 sid f. metad_reachable small_mgr failureTimeout copy (s1, w) \<and> pending_file (md_tables s1) sid \<noteq> None
    \<and> metad_reachable small_mgr failureTimeout copy (s2, w)
    \<and> metad_step small_mgr failureTimeout copy (s1, w) (s2, w)
    \<and> f \<in> set (t_files (md_tables s2)) \<and> file_status f = FileStatusCommitted"
proof -
  obtain r s1 s2 where prepare: "server_PrepareUpload plain_engine small_mgr upload_ambient [] ''report'' 10 one_node = (Ret (Inr r), s1)"
    and commit: "server_CommitUpload plain_engine small_mgr [] (prep_session_id r) (response_map r) s1 = (Inr (), s2)"
    and rm: "distinct (map fst (response_map r))" and pend: "pending_file (md_tables s1) (prep_session_id r) \<noteq> None"
    and st: "file_status_of (md_tables s2) (new_id upload_ambient 0) = Some FileStatusCommitted"
    using upload_completes [OF one_node_ready, of "''report''" "[]" "[]"] by blast
  have one: "metad_reachable small_mgr failureTimeout copy (s1, w)"
    by (rule metad_reachable.step [OF one_node_reachable step_prepare [OF prepare]])
  moreover have "metad_step small_mgr failureTimeout copy (s1, w) (s2, w)"
    by (rule step_commit [OF plain_engine_simps(5) rm commit])
  moreover from this have "metad_reachable small_mgr failureTimeout copy (s2, w)"
    by (rule metad_reachable.step [OF one])
  moreover obtain f where "f \<in> set (t_files (md_tables s2))" "file_status f = FileStatusCommitted"
    using st select_file_id by (auto simp: file_status_of_def)
  ultimately show ?thesis
    using pend by blast
qed

text \<open>For a copy RPC that does nothing; any other would do.\<close>

definition null_copy :: "unit copy_rpc" where
  "null_copy addr cid src = retR ()"

lemmas committed_example = committed_reachable [of 0 null_copy "()"]

theorem sessions_and_files_agree_witness:
  "\<exists>st u. metad_reachable small_mgr 0 null_copy st \<and> u \<in> set (t_sessions (st_tables st))
     \<and> (\<forall>v \<in> set (t_sessions (st_tables st)). sess_file v = sess_file u \<longrightarrow> v = u)"
proof -
  obtain s1 sid where reach: "metad_reachable small_mgr 0 null_copy (s1, ())"
    and "pending_file (md_tables s1) sid \<noteq> None"
    using committed_example by blast
  then obtain u where u: "u \<in> set (t_sessions (md_tables s1))"
    using select_session_id by (auto simp: pending_file_Some)
  show ?thesis
    using reach u sessions_and_files_agree [OF reach, of u]
    by (intro exI [of _ "(s1, ())"] exI [of _ u]) simp
qed

theorem file_history_witness:
  "\<exists>st st1 fid f f1. metad_reachable small_mgr 0 null_copy st \<and> metad_step small_mgr 0 null_copy st st1
     \<and> query_select_file_by_id fid (st_tables st) = Some f \<and> query_select_file_by_id fid (st_tables st1) = Some f1
     \<and> status_moves (file_status f) (file_status f1)"
proof -
  obtain s1 s2 sid where reach: "metad_reachable small_mgr 0 null_copy (s1, ())"
    and move: "metad_step small_mgr 0 null_copy (s1, ()) (s2, ())"
    and "pending_file (md_tables s1) sid \<noteq> None"
    using committed_example by blast
  then obtain fid f where f: "query_select_file_by_id fid (md_tables s1) = Some f"
    by (auto simp: pending_file_Some)
  have "(metad_step small_mgr 0 null_copy)\<^sup>*\<^sup>* (s1, ()) (s2, ())"
    using move by (rule r_into_rtranclp [where r = "metad_step small_mgr 0 null_copy"])
  from file_history [OF reach this, of fid f] f
  obtain f1 where "query_select_file_by_id fid (md_tables s2) = Some f1" "status_moves (file_status f) (file_status f1)"
    by auto
  with reach move f show ?thesis
    by (intro exI [of _ "(s1, ())"] exI [of _ "(s2, ())"] exI [of _ fid] exI [of _ f] exI [of _ f1]) simp
qed

end
