(* ===== verification/Dfs_System.thy ===== *)
theory Dfs_System
  imports Cluster_Properties Metad_System
begin

text \<open>
  The whole file system as a state machine: the metadata database, the storage daemons at their
  addresses, and which uploads and copies were acknowledged. A step is one database call of the metadata
  daemon (\<open>Metad_Calls\<close>), one RPC to a storage daemon, one copy between storage daemons, or the restart of
  a daemon: handlers, monitor and scanner interleave freely. Every step meets its own operating
  system, driver and network, which may fail, lose or refuse anything; a storage daemon that is down is one
  that no request reaches until its next restart.
\<close>

record dfs =
  dfs_tables :: tables
  dfs_cluster :: cluster
  dfs_acked :: "(string \<times> string) set"

text \<open>A client's calls to a storage daemon.\<close>

definition call_PutChunk :: "net_env \<Rightarrow> string \<Rightarrow> string \<Rightarrow> byte list \<Rightarrow> (cluster, go_error, unit) op" where
  "call_PutChunk net addr i data w =
     rpc net addr (on_daemon net addr (server_PutChunk (net_os net addr) (net_ctx net (cl_calls w)) i data)) w"

definition call_GetChunk :: "net_env \<Rightarrow> string \<Rightarrow> string \<Rightarrow> (cluster, go_error, byte list) op" where
  "call_GetChunk net addr i w =
     rpc net addr (on_daemon net addr (server_GetChunk (net_os net addr) (net_ctx net (cl_calls w)) i)) w"

definition call_DeleteChunk :: "net_env \<Rightarrow> string \<Rightarrow> string \<Rightarrow> (cluster, go_error, unit) op" where
  "call_DeleteChunk net addr i w = rpc net addr (on_daemon net addr (server_DeleteChunk (net_os net addr) i)) w"

text \<open>
  What is assumed of the world: a node always announces its own address (\<open>home\<close>), and a replica is
  recorded, by a commit or by the scanner, only when its upload or its copy was acknowledged
  (\<open>acked\<close>, pairs of an address and a chunk ID).
\<close>

fun dfs_call :: "(string \<Rightarrow> string) \<Rightarrow> (string \<times> string) set \<Rightarrow> db_call \<Rightarrow> bool" where
  "dfs_call home acked (TxCommit order sid rm) \<longleftrightarrow> (\<forall>(i, ns) \<in> set rm. \<forall>n \<in> set ns. (home n, i) \<in> acked)"
| "dfs_call home acked (TouchNode now nid addr cap avail) \<longleftrightarrow> addr = home nid"
| "dfs_call home acked (AddNode n) \<longleftrightarrow> node_address n = home (node_id n)"
| "dfs_call home acked (AddReplica cid nid) \<longleftrightarrow> (home nid, cid) \<in> acked"
| "dfs_call home acked _ \<longleftrightarrow> True"

text \<open>
  And, rule by rule: all who upload a chunk upload the same content (\<open>descr\<close>); the scanner copies from a
  recorded replica; nobody deletes a chunk from a node that is recorded to hold it or whose
  acknowledgement somebody still relies on (\<open>dfs_forget\<close> is where an upload is given up); disks keep what was written.
\<close>

inductive dfs_step :: "manager \<Rightarrow> (string \<Rightarrow> string) \<Rightarrow> description \<Rightarrow> dfs \<Rightarrow> dfs \<Rightarrow> bool"
  for m home descr where
  dfs_db: "conn_tables s = dfs_tables st \<Longrightarrow> daemon_call e m q \<Longrightarrow> dfs_call home (dfs_acked st) q \<Longrightarrow>
     dfs_step m home descr st (st\<lparr>dfs_tables := conn_tables (run_db_call e m q s)\<rparr>)"
| dfs_put: "call_PutChunk net addr i data (dfs_cluster st) = (r, w1) \<Longrightarrow> valid_id i \<Longrightarrow> describes descr i data \<Longrightarrow>
     dfs_step m home descr st
       (st\<lparr>dfs_cluster := w1, dfs_acked := (if r = Inr () then insert (addr, i) (dfs_acked st) else dfs_acked st)\<rparr>)"
| dfs_get: "call_GetChunk net addr i (dfs_cluster st) = (d, w1) \<Longrightarrow> valid_id i \<Longrightarrow>
     dfs_step m home descr st (st\<lparr>dfs_cluster := w1\<rparr>)"
| dfs_copy: "l \<in> set (t_locations (dfs_tables st)) \<Longrightarrow>
     client_CopyChunk net target (home (loc_node l)) (loc_chunk l) (dfs_cluster st) = (c, w1) \<Longrightarrow>
     dfs_step m home descr st
       (st\<lparr>dfs_cluster := w1, dfs_acked := (if c = Inr () then insert (target, loc_chunk l) (dfs_acked st) else dfs_acked st)\<rparr>)"
| dfs_delete: "call_DeleteChunk net addr i (dfs_cluster st) = (r, w1) \<Longrightarrow> valid_id i \<Longrightarrow> (addr, i) \<notin> dfs_acked st \<Longrightarrow>
     \<forall>l \<in> set (t_locations (dfs_tables st)). loc_chunk l = i \<longrightarrow> home (loc_node l) \<noteq> addr \<Longrightarrow>
     dfs_step m home descr st (st\<lparr>dfs_cluster := w1\<rparr>)"
| dfs_forget: "acked \<subseteq> dfs_acked st \<Longrightarrow> dfs_step m home descr st (st\<lparr>dfs_acked := acked\<rparr>)"
| dfs_restart: "NewSQLite e path (Some (dfs_tables st)) = (Inr u, s) \<Longrightarrow>
     dfs_step m home descr st (st\<lparr>dfs_tables := conn_tables s\<rparr>)"
| dfs_join: "cl_daemons (dfs_cluster st) addr = None \<Longrightarrow> daemon_safe sd \<Longrightarrow>
     dfs_step m home descr st
       (st\<lparr>dfs_cluster := (dfs_cluster st)\<lparr>cl_daemons := (cl_daemons (dfs_cluster st))(addr \<mapsto> sd)\<rparr>\<rparr>)"
| dfs_node_restart: "cl_daemons (dfs_cluster st) addr = Some sd \<Longrightarrow>
     New_store os dir cap (cs_disk (sd_chunks sd)) = (Inr ds, d) \<Longrightarrow> ds_baseDir ds = ds_baseDir (sd_store sd) \<Longrightarrow>
     dfs_step m home descr st
       (st\<lparr>dfs_cluster := (dfs_cluster st)\<lparr>cl_daemons := (cl_daemons (dfs_cluster st))
          (addr \<mapsto> \<lparr>sd_chunks = \<lparr>cs_store = ds, cs_disk = d\<rparr>, sd_metrics = sm\<rparr>)\<rparr>\<rparr>)"

inductive dfs_reachable :: "manager \<Rightarrow> (string \<Rightarrow> string) \<Rightarrow> description \<Rightarrow> dfs \<Rightarrow> bool"
  for m home descr where
  dfs_start: "NewSQLite e path None = (Inr u, c) \<Longrightarrow>
     dfs_reachable m home descr
       \<lparr>dfs_tables = conn_tables c, dfs_cluster = \<lparr>cl_daemons = (\<lambda>addr. None), cl_calls = 0\<rparr>, dfs_acked = {}\<rparr>"
| dfs_next: "dfs_reachable m home descr st \<Longrightarrow> dfs_step m home descr st st1 \<Longrightarrow> dfs_reachable m home descr st1"

lemma life_dfs: "dfs_reachable m home descr st \<Longrightarrow> lifecycle_ok (ReplicationFactor (mgr_placement m)) (dfs_tables st)"
proof (induction rule: dfs_reachable.induct)
  case (dfs_start e path u c)
  with NewSQLite_tables [of e path None u c] show ?case
    by (simp add: run_schema_def lifecycle_empty)
next
  case (dfs_next st st1)
  from dfs_next.hyps(2) dfs_next.IH show ?case
    by (cases rule: dfs_step.cases) (simp_all add: life_calls.call_law restart_tables)
qed

subsection \<open>Node rows keep the addresses\<close>

definition nodes_at :: "(string \<Rightarrow> string) \<Rightarrow> tables \<Rightarrow> bool" where
  "nodes_at home T \<longleftrightarrow> (\<forall>n \<in> set (t_nodes T). node_address n = home (node_id n))"

subsection \<open>Recorded and acknowledged replicas are served\<close>

definition replicas_kept :: "(string \<Rightarrow> string) \<Rightarrow> description \<Rightarrow> (string \<times> string) set \<Rightarrow> tables \<Rightarrow> cluster \<Rightarrow> bool" where
  "replicas_kept home descr acked T w \<longleftrightarrow> cluster_safe w \<and> distinct (map node_id (t_nodes T)) \<and> nodes_at home T
     \<and> (\<forall>l \<in> set (t_locations T). valid_id (loc_chunk l) \<and> serves descr w (home (loc_node l)) (loc_chunk l))
     \<and> (\<forall>(addr, i) \<in> acked. valid_id i \<and> serves descr w addr i)"

abbreviation dfs_ok :: "(string \<Rightarrow> string) \<Rightarrow> description \<Rightarrow> dfs \<Rightarrow> bool" where
  "dfs_ok home descr st \<equiv> replicas_kept home descr (dfs_acked st) (dfs_tables st) (dfs_cluster st)"

lemma keptD:
  assumes "replicas_kept home descr acked T w"
  shows "cluster_safe w" "distinct (map node_id (t_nodes T))" "nodes_at home T"
    and "l \<in> set (t_locations T) \<Longrightarrow> valid_id (loc_chunk l) \<and> serves descr w (home (loc_node l)) (loc_chunk l)"
    and "(addr, i) \<in> acked \<Longrightarrow> valid_id i \<and> serves descr w addr i"
  using assms by (auto simp: replicas_kept_def)

lemma kept_still:
  assumes "replicas_kept home descr acked T w" "still_serves descr w w1"
    and "\<And>addr i. (addr, i) \<in> acked1 \<Longrightarrow> (addr, i) \<in> acked \<or> valid_id i \<and> serves descr w1 addr i"
  shows "replicas_kept home descr acked1 T w1"
proof -
  have "valid_id i \<and> serves descr w1 addr i" if "(addr, i) \<in> acked1" for addr i
    using assms(3) [OF that] keptD(5) [OF assms(1)] assms(2) unfolding still_serves_def by blast
  with assms(1,2) show ?thesis
    unfolding replicas_kept_def still_serves_def by blast
qed

lemma kept_insert:
  assumes "replicas_kept home descr acked T w" "query_insert_chunk_location \<lparr>loc_chunk = i, loc_node = nid\<rparr> T = Inr T1"
    and "valid_id i" "serves descr w (home nid) i"
  shows "replicas_kept home descr acked T1 w"
  using assms by (auto simp: replicas_kept_def nodes_at_def query_insert_chunk_location_def split: if_splits)

lemma kept_metad:
  assumes "replicas_kept home descr acked T w" "tables_wf T1" "nodes_at home T1"
    and "\<And>l. l \<in> set (t_locations T1) \<Longrightarrow> l \<in> set (t_locations T) \<or> (home (loc_node l), loc_chunk l) \<in> acked"
  shows "replicas_kept home descr acked T1 w"
  unfolding replicas_kept_def
proof (intro conjI ballI)
  fix l
  assume "l \<in> set (t_locations T1)"
  from assms(4) [OF this] show "valid_id (loc_chunk l)" "serves descr w (home (loc_node l)) (loc_chunk l)"
    using keptD(4,5) [OF assms(1)] by blast+
qed (use assms(1-3) in \<open>simp_all add: replicas_kept_def tables_wf_def\<close>)

lemma kept_rows:
  assumes "replicas_kept home descr acked T w" "t_nodes T1 = t_nodes T" "t_locations T1 = t_locations T"
  shows "replicas_kept home descr acked T1 w"
  using assms by (simp add: replicas_kept_def nodes_at_def)

text \<open>A database call keeps the addresses, and records only what was acknowledged.\<close>

lemma commit_locations:
  assumes "complete_scans e" "tables_wf (conn_tables s)" "distinct (map fst rm)" "CommitUpload e m order sid rm s = (r, s1)"
  shows "t_nodes (conn_tables s1) = t_nodes (conn_tables s)"
    and "l \<in> set (t_locations (conn_tables s1)) \<Longrightarrow>
      l \<in> set (t_locations (conn_tables s)) \<or> (\<exists>ns. (loc_chunk l, ns) \<in> set rm \<and> loc_node l \<in> set ns)"
proof -
  have "conn_tables s1 = conn_tables s \<or> conn_tables s1 = commit_effect order sid rm (conn_tables s)"
    using assms(4) CommitUpload_InlD CommitUpload_InrD(2) [OF assms(1-3)] by (cases r) auto
  then have T1: "conn_tables s1 = conn_tables s \<or> (\<exists>f. conn_tables s1 = commit_tables order sid rm f (conn_tables s))"
    by (auto simp: commit_effect_def split: option.splits)
  then show "t_nodes (conn_tables s1) = t_nodes (conn_tables s)"
    by (auto simp: commit_tables_simps)
  show "l \<in> set (t_locations (conn_tables s)) \<or> (\<exists>ns. (loc_chunk l, ns) \<in> set rm \<and> loc_node l \<in> set ns)"
    if "l \<in> set (t_locations (conn_tables s1))"
  proof (rule disjCI)
    assume "\<not> (\<exists>ns. (loc_chunk l, ns) \<in> set rm \<and> loc_node l \<in> set ns)"
    then have "loc_key l \<notin> loc_key ` set (replica_rows (reorder order rm))"
      unfolding loc_key_replica_rows by (auto simp: loc_key_def)
    with T1 that show "l \<in> set (t_locations (conn_tables s))"
      by (auto simp: commit_tables_simps)
  qed
qed

interpretation kept_calls: db_client m "dfs_call home acked"
  "\<lambda>T. lifecycle_ok (ReplicationFactor (mgr_placement m)) T \<and> replicas_kept home descr acked T w" for m home acked descr w
proof
  fix s :: conn and e q
  let ?T = "conn_tables s" and ?T1 = "conn_tables (run_db_call e m q s)" and ?rf = "ReplicationFactor (mgr_placement m)"
  assume ok: "lifecycle_ok ?rf ?T \<and> replicas_kept home descr acked ?T w" and call: "daemon_call e m q" "dfs_call home acked q"
  then have life: "lifecycle_ok ?rf ?T1" and kept: "replicas_kept home descr acked ?T w" and wf: "tables_wf ?T"
    using life_calls.call_law [of m s e q] by (simp_all add: lifecycle_ok_def)
  note at = keptD(3) [OF kept]
  have rows: "replicas_kept home descr acked ?T1 w"
    if "preserves (on_tables (\<lambda>T. nodes_at home T \<and> t_locations T = t_locations ?T)) f" "run_db_call e m q s = snd (f s)"
    for f :: "conn \<Rightarrow> 'x \<times> conn"
    using preservesD [where s = s, OF that(1)] that(2) at life
    by (intro kept_metad [OF kept]) (auto simp: on_tables_def lifecycle_ok_def)
  have "replicas_kept home descr acked ?T1 w"
  proof (cases q)
    case (TxPrepare a fileName fileSize chunks)
    with prepare_tx_adds [OF surjective_pairing, of e a fileName fileSize chunks s] show ?thesis
      by (auto intro!: kept_rows [OF kept])
  next
    case (TxCommit order sid rm)
    obtain r s1 where run: "CommitUpload e m order sid rm s = (r, s1)"
      by (cases "CommitUpload e m order sid rm s")
    have scans: "complete_scans e" "distinct (map fst rm)"
      using call(1) TxCommit by simp_all
    note new = commit_locations [OF scans(1) wf scans(2) run]
    have "nodes_at home ?T1"
      using new(1) at run TxCommit by (simp add: nodes_at_def)
    then show ?thesis
      using new(2) call(2) life run TxCommit by (intro kept_metad [OF kept]) (fastforce simp: lifecycle_ok_def)+
  next
    case (MarkDeleted fid)
    show ?thesis
      by (rule rows [of "UpdateFileStatus e fid FileStatusDeleted"], unfold UpdateFileStatus_def,
          intro preserve_intros preserves_exec_update) (simp_all add: MarkDeleted UpdateFileStatus_def query_update_file_status_def nodes_at_def)
  next
    case (TouchNode now nid addr cap avail)
    show ?thesis
      by (rule rows [of "ExecContext e (\<lambda>T. Inr (query_upsert_node_heartbeat addr cap avail now nid T))"],
          intro preserves_ExecContext) (use call(2) in \<open>auto simp: TouchNode query_upsert_node_heartbeat_def nodes_at_def\<close>)
  next
    case (AddNode n)
    show ?thesis
      by (rule rows [of "exec_insert e (query_insert_node n)"], intro preserves_exec_insert)
        (use call(2) in \<open>auto simp: AddNode query_insert_node_def nodes_at_def split: if_splits\<close>)
  next
    case (SetNodeStatus nid st)
    show ?thesis
      by (rule rows [of "UpdateNodeStatus e nid st"], unfold UpdateNodeStatus_def, intro preserve_intros preserves_exec_update)
        (auto simp: SetNodeStatus UpdateNodeStatus_def query_update_node_status_def nodes_at_def)
  next
    case (AddReplica cid nid)
    obtain r s1 where add: "AddChunkLocation e cid nid s = (r, s1)"
      by (cases "AddChunkLocation e cid nid s")
    show ?thesis
    proof (cases r)
      case Inl
      with add AddReplica kept show ?thesis
        by (simp add: AddChunkLocation_InlD)
    next
      case (Inr u)
      have "(home nid, cid) \<in> acked"
        using call(2) AddReplica by simp
      from keptD(5) [OF kept this] kept_insert [OF kept AddChunkLocation_InrD [OF add [unfolded Inr]]] add AddReplica show ?thesis
        by simp
    qed
  qed
  with life show "lifecycle_ok ?rf ?T1 \<and> replicas_kept home descr acked ?T1 w"
    by blast
qed

subsection \<open>So does every other step\<close>

text \<open>The replacement of one daemon, and a call to one, in terms of that daemon.\<close>

lemma replace_daemon:
  assumes "cluster_safe w" "daemon_safe s1"
    and "\<And>s. cl_daemons w addr = Some s \<Longrightarrow> node_keeps descr s s1"
  shows "still_serves descr w (w\<lparr>cl_daemons := (cl_daemons w)(addr \<mapsto> s1)\<rparr>)"
  using assms by (auto simp: still_serves_def cluster_safe_def serves_def node_keeps_def)

lemma dfs_put_kept:
  assumes "call_PutChunk net addr i data w = (r, w1)" "cluster_safe w" "valid_id i" "describes descr i data"
  shows "still_serves descr w w1 \<and> (\<forall>u. r = Inr u \<longrightarrow> serves descr w1 addr i)"
proof -
  note run = assms(1) [unfolded call_PutChunk_def]
  let ?w = "w\<lparr>cl_calls := Suc (cl_calls w)\<rparr>"
  have "cluster_safe ?w"
    using assms(2) by (simp add: cluster_safe_def)
  then have called: "still_serves descr ?w w2 \<and> (\<forall>u. q = Inr u \<longrightarrow> serves descr w2 addr i)"
    if "on_daemon net addr (server_PutChunk (net_os net addr) (net_ctx net (cl_calls w)) i data) ?w = (q, w2)" for q w2
    by (rule store_still_serves [OF that]) (use PutChunk_keeps [OF _ _ assms(3,4)] in blast)+
  then have "still_serves descr w w1"
    by (intro rpc_still_serves [OF run]) blast
  moreover have "serves descr w1 addr i" if "r = Inr u" for u
    using called [OF rpc_Inr [OF run [unfolded that]]] by blast
  ultimately show ?thesis
    by blast
qed

lemma dfs_delete_kept:
  assumes "call_DeleteChunk net addr i w = (r, w1)" "cluster_safe w" "valid_id i"
  shows "cluster_safe w1 \<and> (\<forall>a j. valid_id j \<longrightarrow> (a, j) \<noteq> (addr, i) \<longrightarrow> serves descr w a j \<longrightarrow> serves descr w1 a j)"
proof -
  have kept: "daemon_safe s1 \<and> (\<forall>j. valid_id j \<longrightarrow> j \<noteq> i \<longrightarrow> sd_contents s1 j = sd_contents s j)"
    if run: "server_DeleteChunk (net_os net addr) i s = (q, s1)" and safe: "daemon_safe s" for s q s1
  proof (cases "i = []")
    case True
    with run safe show ?thesis
      by (simp add: server_DeleteChunk_def)
  next
    case False
    obtain p c where del: "Delete (net_os net addr) i (sd_chunks s) = (p, c)"
      by (cases "Delete (net_os net addr) i (sd_chunks s)")
    then have "sd_chunks s1 = c"
      using server_DeleteChunk_chunks [OF False del] run by simp
    with Delete_safe [OF del safe assms(3)] show ?thesis
      by blast
  qed
  have "(\<exists>s q s1. cl_daemons w addr = Some s \<and> server_DeleteChunk (net_os net addr) i s = (q, s1)
        \<and> cl_daemons w1 = (cl_daemons w)(addr \<mapsto> s1)) \<or> cl_daemons w1 = cl_daemons w"
    using assms(1) by (auto simp: call_DeleteChunk_def rpc_def on_daemon_def Let_def split: option.splits if_splits prod.splits)
  then show ?thesis
  proof
    assume "\<exists>s q s1. cl_daemons w addr = Some s \<and> server_DeleteChunk (net_os net addr) i s = (q, s1)
        \<and> cl_daemons w1 = (cl_daemons w)(addr \<mapsto> s1)"
    then obtain s q s1 where s: "cl_daemons w addr = Some s" "server_DeleteChunk (net_os net addr) i s = (q, s1)"
      "cl_daemons w1 = (cl_daemons w)(addr \<mapsto> s1)"
      by blast
    with kept [OF s(2)] assms(2) show ?thesis
      by (auto simp: cluster_safe_def serves_def node_serves_def)
  qed (use assms(2) in \<open>simp add: cluster_safe_def serves_def\<close>)
qed

lemma dfs_ok_step:
  assumes step: "dfs_step m home descr st st1" and ok: "dfs_ok home descr st"
    and life: "lifecycle_ok (ReplicationFactor (mgr_placement m)) (dfs_tables st)"
  shows "dfs_ok home descr st1"
  using step
proof (cases rule: dfs_step.cases)
  case (dfs_db s e q)
  with kept_calls.call_law [of m s home descr "dfs_acked st" "dfs_cluster st" e q] ok life show ?thesis
    by simp
next
  case (dfs_put net addr i data r w1)
  from dfs_put_kept [OF dfs_put(2) keptD(1) [OF ok] dfs_put(3,4)] dfs_put show ?thesis
    by (auto intro!: kept_still [OF ok])
next
  case (dfs_get net addr i d w1)
  from fetch_still_serves [OF dfs_get(2) [unfolded call_GetChunk_def] keptD(1) [OF ok] dfs_get(3)] dfs_get(1) show ?thesis
    by (auto intro!: kept_still [OF ok])
next
  case (dfs_copy l net target c w1)
  then have "valid_id (loc_chunk l)" "serves descr (dfs_cluster st) (home (loc_node l)) (loc_chunk l)"
    using keptD(4) [OF ok] by blast+
  from client_CopyChunk_still_serves [OF dfs_copy(3) keptD(1) [OF ok] this] this(1) dfs_copy(1) show ?thesis
    by (auto intro!: kept_still [OF ok])
next
  case (dfs_delete net addr i r w1)
  note kept = dfs_delete_kept [OF dfs_delete(2) keptD(1) [OF ok] dfs_delete(3), of descr]
  have "valid_id (loc_chunk l) \<and> serves descr w1 (home (loc_node l)) (loc_chunk l)" if "l \<in> set (t_locations (dfs_tables st))" for l
  proof -
    have "(home (loc_node l), loc_chunk l) \<noteq> (addr, i)"
      using dfs_delete(5) that by auto
    with keptD(4) [OF ok that] kept show ?thesis
      by simp
  qed
  moreover have "valid_id j \<and> serves descr w1 a j" if "(a, j) \<in> dfs_acked st" for a j
    using keptD(5) [OF ok that] kept that dfs_delete(4) by metis
  then have "\<forall>(a, j) \<in> dfs_acked st. valid_id j \<and> serves descr w1 a j"
    by (intro ballI) (simp only: split_paired_all prod.case)
  ultimately show ?thesis
    using kept keptD(2,3) [OF ok] by (simp add: replicas_kept_def dfs_delete(1))
next
  case (dfs_forget acked)
  then show ?thesis
    by (auto intro!: kept_still [OF ok])
next
  case (dfs_restart e path u s)
  with restart_tables [OF dfs_restart(2) life] ok show ?thesis
    by simp
next
  case (dfs_join addr sd)
  with replace_daemon [OF keptD(1) [OF ok] dfs_join(3), of addr descr] show ?thesis
    by (auto intro!: kept_still [OF ok])
next
  case (dfs_node_restart addr sd os dir cap ds d sm)
  have safe: "daemon_safe sd"
    using keptD(1) [OF ok] dfs_node_restart(2) by (simp add: cluster_safe_def)
  let ?s1 = "\<lparr>sd_chunks = \<lparr>cs_store = ds, cs_disk = d\<rparr>, sd_metrics = sm\<rparr>"
  have "daemon_safe ?s1 \<and> sd_contents ?s1 = sd_contents sd"
    by (rule reopen_safe [OF dfs_node_restart(3,4) safe]) simp
  with replace_daemon [OF keptD(1) [OF ok], of ?s1 addr descr] dfs_node_restart(1,2) show ?thesis
    by (auto intro!: kept_still [OF ok])
qed

lemma dfs_ok_reachable: "dfs_reachable m home descr st \<Longrightarrow> dfs_ok home descr st"
proof (induction rule: dfs_reachable.induct)
  case (dfs_start e path u c)
  with NewSQLite_tables [of e path None u c] show ?case
    by (simp add: run_schema_def replicas_kept_def nodes_at_def empty_tables_def cluster_safe_def)
next
  case (dfs_next st st1)
  with dfs_ok_step life_dfs show ?case
    by blast
qed

text \<open>
  C1. Committed files survive. In every state the file system can reach from an empty database and no
  nodes, however its calls interleave and whatever failures, lost messages, heartbeats, monitor and
  repair cycles, crashes and restarts came before: every committed file has chunks, every one of
  them is recorded on at least the replication factor of distinct nodes, each of these nodes
  stores, at its address, content of the uploaded digest and length under the chunk's ID, and whatever
  a \<open>GetChunk\<close> call to such a node delivers has that digest and length.
\<close>

theorem committed_files_durable:
  assumes "dfs_reachable m home descr st" "f \<in> set (t_files (dfs_tables st))" "file_status f = FileStatusCommitted"
  shows "file_chunk_ids (dfs_tables st) (file_id f) \<noteq> {}
    \<and> (\<forall>cid \<in> file_chunk_ids (dfs_tables st) (file_id f).
         distinct (replica_nodes (dfs_tables st) cid)
         \<and> ReplicationFactor (mgr_placement m) \<le> int (length (replica_nodes (dfs_tables st) cid))
         \<and> (\<forall>n \<in> set (replica_nodes (dfs_tables st) cid).
              serves descr (dfs_cluster st) (home n) cid
              \<and> (\<forall>net data w1. call_GetChunk net (home n) cid (dfs_cluster st) = (Inr data, w1) \<longrightarrow> describes descr cid data)))"
proof -
  have life: "lifecycle_ok (ReplicationFactor (mgr_placement m)) (dfs_tables st)"
    by (rule life_dfs [OF assms(1)])
  note ok = dfs_ok_reachable [OF assms(1)]
  have served: "valid_id cid \<and> serves descr (dfs_cluster st) (home n) cid" if "n \<in> set (replica_nodes (dfs_tables st) cid)" for n cid
    using that keptD(4) [OF ok] by (auto simp: replica_nodes_def)
  moreover have "describes descr cid data"
    if "n \<in> set (replica_nodes (dfs_tables st) cid)"
      "call_GetChunk net (home n) cid (dfs_cluster st) = (Inr data, w1)" for n cid net data w1
    using fetch_still_serves [OF that(2) [unfolded call_GetChunk_def] keptD(1) [OF ok]] served [OF that(1)] by blast
  ultimately show ?thesis
    using life assms(2,3) distinct_replica_nodes by (simp add: lifecycle_ok_def replicated_def)
qed

subsection \<open>The daemon's operations are interleavings of its calls\<close>

text \<open>The relation covers whole operations: each leads from a reachable state to reachable ones.\<close>

interpretation dfs_calls: db_client m "dfs_call home acked"
  "\<lambda>T. dfs_reachable m home descr \<lparr>dfs_tables = T, dfs_cluster = w, dfs_acked = acked\<rparr>" for m home acked descr w
proof
  fix s :: conn and e q
  let ?st = "\<lambda>T. \<lparr>dfs_tables = T, dfs_cluster = w, dfs_acked = acked\<rparr>"
  assume reach: "dfs_reachable m home descr (?st (conn_tables s))" and "daemon_call e m q" "dfs_call home acked q"
  then have "dfs_step m home descr (?st (conn_tables s)) (?st (conn_tables (run_db_call e m q s)))"
    using dfs_db [of s "?st (conn_tables s)" e m q home descr] by simp
  with reach show "dfs_reachable m home descr (?st (conn_tables (run_db_call e m q s)))"
    by (rule dfs_next)
qed

text \<open>A copy of the scanner and its record.\<close>

definition dfs_at :: "manager \<Rightarrow> (string \<Rightarrow> string) \<Rightarrow> description \<Rightarrow> tables \<Rightarrow> cluster \<Rightarrow> bool" where
  "dfs_at m home descr T w \<longleftrightarrow> (\<exists>acked. dfs_reachable m home descr \<lparr>dfs_tables = T, dfs_cluster = w, dfs_acked = acked\<rparr>)"

interpretation scanner: copy_contract "client_CopyChunk net" "dfs_at m home descr" for net m home descr
proof
  fix T w l n target r w1
  assume "dfs_at m home descr T w" and l: "l \<in> set (t_locations T)" and n: "n \<in> set (t_nodes T)" "node_id n = loc_node l"
    and t: "target \<in> set (t_nodes T)"
    and run: "client_CopyChunk net (node_address target) (node_address n) (loc_chunk l) w = (r, w1)"
  then obtain acked where reach: "dfs_reachable m home descr \<lparr>dfs_tables = T, dfs_cluster = w, dfs_acked = acked\<rparr>"
    by (auto simp: dfs_at_def)
  let ?st = "\<lparr>dfs_tables = T, dfs_cluster = w, dfs_acked = acked\<rparr>"
  have addrs: "node_address n = home (loc_node l)" "node_address target = home (node_id target)"
    using keptD(3) [OF dfs_ok_reachable [OF reach]] n t by (auto simp: nodes_at_def)
  let ?acked = "if r = Inr () then insert (home (node_id target), loc_chunk l) acked else acked"
  have "dfs_step m home descr ?st \<lparr>dfs_tables = T, dfs_cluster = w1, dfs_acked = ?acked\<rparr>"
    using dfs_copy [of l ?st net "home (node_id target)" home r w1 m descr] l run addrs by (simp split: if_split_asm)
  then have reach1: "dfs_reachable m home descr \<lparr>dfs_tables = T, dfs_cluster = w1, dfs_acked = ?acked\<rparr>"
    by (rule dfs_next [OF reach])
  moreover have "dfs_at m home descr T1 w1"
    if "r = Inr u" "query_insert_chunk_location \<lparr>loc_chunk = loc_chunk l, loc_node = node_id target\<rparr> T = Inr T1" for u T1
  proof -
    have "conn_tables (run_db_call plain_engine m (AddReplica (loc_chunk l) (node_id target)) \<lparr>conn_tables = T, conn_tick = 0\<rparr>) = T1"
      using that(2) by (simp add: AddChunkLocation_def run_simps)
    with dfs_calls.call_law [of m home descr "\<lparr>conn_tables = T, conn_tick = 0\<rparr>" w1 ?acked plain_engine "AddReplica (loc_chunk l) (node_id target)"]
      reach1 that(1) show ?thesis
      by (auto simp: dfs_at_def)
  qed
  ultimately show "dfs_at m home descr T w1 \<and> (\<forall>u T1. r = Inr u
      \<longrightarrow> query_insert_chunk_location \<lparr>loc_chunk = loc_chunk l, loc_node = node_id target\<rparr> T = Inr T1 \<longrightarrow> dfs_at m home descr T1 w1)"
    by (auto simp: dfs_at_def)
qed

text \<open>
  Whole operations stay among the reachable states. From a reachable state, each whole operation of the metadata daemon, on the
  daemon's state and the cluster, leads to a reachable state: \<open>PrepareUpload\<close>, a \<open>CommitUpload\<close> of
  acknowledged replicas, \<open>DeleteFile\<close>, a heartbeat with the node's own address, a monitor cycle, and a scanner
  cycle over the storage nodes.
\<close>

lemma daemon_operations_covered:
  assumes "dfs_reachable m home descr \<lparr>dfs_tables = md_tables s, dfs_cluster = w, dfs_acked = acked\<rparr>"
  shows "dfs_at m home descr (md_tables (snd (server_PrepareUpload e m a order fileName fileSize s))) w
    \<and> (complete_scans e \<longrightarrow> distinct (map fst rm) \<longrightarrow> (\<forall>(i, ns) \<in> set rm. \<forall>n \<in> set ns. (home n, i) \<in> acked)
        \<longrightarrow> dfs_at m home descr (md_tables (snd (server_CommitUpload e m order sid rm s))) w)
    \<and> dfs_at m home descr (md_tables (snd (server_DeleteFile e fid s))) w
    \<and> dfs_at m home descr (md_tables (snd (server_Heartbeat e now nid (home nid) cap avail s))) w
    \<and> dfs_at m home descr (md_tables (monitorOnce e failureTimeout now s)) w
    \<and> dfs_at m home descr (st_tables (scanOnce e (client_CopyChunk net) rf (s, w))) (snd (scanOnce e (client_CopyChunk net) rf (s, w)))"
proof (intro conjI impI)
  show "dfs_at m home descr (md_tables (snd (server_PrepareUpload e m a order fileName fileSize s))) w"
    unfolding dfs_at_def by (rule exI, rule dfs_calls.keeps_server_PrepareUpload [OF assms]) simp
  show "dfs_at m home descr (md_tables (snd (server_CommitUpload e m order sid rm s))) w"
    if "complete_scans e" "distinct (map fst rm)" "\<forall>(i, ns) \<in> set rm. \<forall>n \<in> set ns. (home n, i) \<in> acked"
    unfolding dfs_at_def by (rule exI, rule dfs_calls.keeps_server_CommitUpload [OF assms]) (simp_all add: that)
  show "dfs_at m home descr (md_tables (snd (server_DeleteFile e fid s))) w"
    unfolding dfs_at_def by (rule exI, rule dfs_calls.keeps_server_DeleteFile [OF assms]) simp
  show "dfs_at m home descr (md_tables (snd (server_Heartbeat e now nid (home nid) cap avail s))) w"
    unfolding dfs_at_def by (rule exI, rule dfs_calls.keeps_server_Heartbeat [OF assms]) simp_all
  show "dfs_at m home descr (md_tables (monitorOnce e failureTimeout now s)) w"
    unfolding dfs_at_def by (rule exI, rule dfs_calls.keeps_monitorOnce [OF assms]) simp
  show "dfs_at m home descr (st_tables (scanOnce e (client_CopyChunk net) rf (s, w))) (snd (scanOnce e (client_CopyChunk net) rf (s, w)))"
    by (rule scanner.scanOnce_holds) (use assms in \<open>auto simp: dfs_at_def\<close>)
qed

end
