(* ===== verification/Dfs_Roundtrip.thy ===== *)
theory Dfs_Roundtrip
  imports Dfs_System Cluster_Progress
begin

text \<open>
  A whole upload and download across the metadata daemon and the storage daemons, on a network and
  operating systems that work: every step succeeds, and each replica the download is pointed to
  returns the bytes that were uploaded. The client is not part of the repository; \<open>put_replicas\<close> is the
  use of the services that the API asks for: a \<open>PutChunk\<close> for every replica of the response to \<open>PrepareUpload\<close>.
\<close>

subsection \<open>Putting and getting one chunk\<close>

lemma call_PutChunk_ok:
  assumes "net_delivers net" "node_up net w addr" "valid_id i" "i \<noteq> []" "data \<noteq> []" "length data \<le> maxSize"
    and "held w addr i \<in> {None, Some data}"
  shows "\<exists>w1. call_PutChunk net addr i data w = (Inr (), w1) \<and> (\<forall>a. node_up net w a \<longrightarrow> node_up net w1 a)
    \<and> held w1 = (held w)(addr := (held w addr)(i \<mapsto> data))"
proof -
  obtain s where s: "cl_daemons w addr = Some s" "storaged_ok (net_os net addr) s"
    using assms(2) by (auto simp: node_up_def)
  obtain q s1 where put: "server_PutChunk (net_os net addr) None i data s = (q, s1)"
    by (cases "server_PutChunk (net_os net addr) None i data s")
  note law = put_follows [OF s(2) assms(3), of data]
  have held: "held w addr = on_valid valid_id (sd_contents s)"
    using s(1) by (simp add: held_def)
  then have old: "sd_contents s i \<in> {None, Some data}"
    using assms(3,7) by simp
  have "q = Inr ()" and ok1: "storaged_ok (net_os net addr) s1"
    and new: "on_valid valid_id (sd_contents s1) = (held w addr)(i \<mapsto> data)"
    using law put old assms(3-6) by (auto simp: put_verdict_def put_map_def held fun_eq_iff)
  let ?w1 = "w\<lparr>cl_calls := Suc (cl_calls w), cl_daemons := (cl_daemons w)(addr \<mapsto> s1)\<rparr>"
  have "call_PutChunk net addr i data w = (Inr (), ?w1)"
    using assms(1) s put \<open>q = Inr ()\<close>
    by (simp add: call_PutChunk_def rpc_def on_daemon_def net_delivers_def Let_def)
  moreover have "node_up net ?w1 a" if "node_up net w a" for a
    using that ok1 by (simp add: node_up_def)
  moreover have "held ?w1 = (held w)(addr := (held w addr)(i \<mapsto> data))"
    using new by (simp add: fun_eq_iff held_def)
  ultimately show ?thesis
    by blast
qed

lemma call_GetChunk_ok:
  assumes "net_delivers net" "node_up net w addr" "valid_id i" "i \<noteq> []" "held w addr i = Some x"
  shows "\<exists>w1. call_GetChunk net addr i w = (Inr x, w1) \<and> (\<forall>a. node_up net w a \<longrightarrow> node_up net w1 a) \<and> held w1 = held w"
proof -
  obtain s where s: "cl_daemons w addr = Some s" "storaged_ok (net_os net addr) s"
    using assms(2) by (auto simp: node_up_def)
  obtain q s1 where get: "server_GetChunk (net_os net addr) None i s = (q, s1)"
    by (cases "server_GetChunk (net_os net addr) None i s")
  note law = get_follows [OF s(2) assms(3), unfolded get]
  have "q = Inr x"
    using law assms(3-5) s(1) by (simp add: get_verdict_def held_def)
  let ?w1 = "w\<lparr>cl_calls := Suc (cl_calls w), cl_daemons := (cl_daemons w)(addr \<mapsto> s1)\<rparr>"
  have "call_GetChunk net addr i w = (Inr x, ?w1)"
    using assms(1) s get \<open>q = Inr x\<close>
    by (simp add: call_GetChunk_def rpc_def on_daemon_def net_delivers_def Let_def)
  moreover have "node_up net ?w1 a" if "node_up net w a" for a
    using that law by (simp add: node_up_def)
  moreover have "held ?w1 = held w"
    using law s(1) by (simp add: fun_eq_iff held_def on_valid_def)
  ultimately show ?thesis
    by blast
qed

subsection \<open>Putting every replica\<close>

fun put_nodes :: "net_env \<Rightarrow> (string \<Rightarrow> string) \<Rightarrow> string \<Rightarrow> byte list \<Rightarrow> string list \<Rightarrow> (cluster, go_error, unit) op" where
  "put_nodes net home i data [] = retR ()"
| "put_nodes net home i data (n # ns) = bindR (call_PutChunk net (home n) i data) (\<lambda>_. put_nodes net home i data ns)"

fun put_replicas ::
  "net_env \<Rightarrow> (string \<Rightarrow> string) \<Rightarrow> (string \<Rightarrow> byte list) \<Rightarrow> replica_map \<Rightarrow> (cluster, go_error, unit) op" where
  "put_replicas net home content [] = retR ()"
| "put_replicas net home content ((i, ns) # rm) =
     bindR (put_nodes net home i (content i) ns) (\<lambda>_. put_replicas net home content rm)"

definition storable :: "(string \<Rightarrow> byte list) \<Rightarrow> string \<Rightarrow> bool" where
  "storable content i \<longleftrightarrow> valid_id i \<and> i \<noteq> [] \<and> content i \<noteq> [] \<and> length (content i) \<le> maxSize"

lemma put_nodes_ok:
  assumes "net_delivers net" "storable content i"
  shows "\<forall>n \<in> set ns. node_up net w (home n) \<and> held w (home n) i \<in> {None, Some (content i)} \<Longrightarrow>
    \<exists>w1. put_nodes net home i (content i) ns w = (Inr (), w1) \<and> (\<forall>a. node_up net w a \<longrightarrow> node_up net w1 a)
      \<and> (\<forall>a j. held w1 a j = (if j = i \<and> a \<in> home ` set ns then Some (content i) else held w a j))"
proof (induction ns arbitrary: w)
  case (Cons n ns)
  have data: "valid_id i" "i \<noteq> []" "content i \<noteq> []" "length (content i) \<le> maxSize"
    using assms(2) by (simp_all add: storable_def)
  obtain w1 where put: "call_PutChunk net (home n) i (content i) w = (Inr (), w1)"
    "\<forall>a. node_up net w a \<longrightarrow> node_up net w1 a" "held w1 = (held w)(home n := (held w (home n))(i \<mapsto> content i))"
    using call_PutChunk_ok [OF assms(1) _ data] Cons.prems by (metis list.set_intros(1))
  have "\<forall>k \<in> set ns. node_up net w1 (home k) \<and> held w1 (home k) i \<in> {None, Some (content i)}"
    using Cons.prems put(2,3) by simp
  from Cons.IH [OF this] obtain w2 where rest: "put_nodes net home i (content i) ns w1 = (Inr (), w2)"
    "\<forall>a. node_up net w1 a \<longrightarrow> node_up net w2 a"
    "\<forall>a j. held w2 a j = (if j = i \<and> a \<in> home ` set ns then Some (content i) else held w1 a j)"
    by blast
  with put show ?case
    by (auto simp: bindR_def)
qed simp

lemma put_replicas_ok:
  assumes "net_delivers net"
  shows "distinct (map fst rm) \<Longrightarrow> \<forall>(i, ns) \<in> set rm. storable content i
      \<and> (\<forall>n \<in> set ns. node_up net w (home n) \<and> held w (home n) i \<in> {None, Some (content i)}) \<Longrightarrow>
    \<exists>w1. put_replicas net home content rm w = (Inr (), w1) \<and> (\<forall>a. node_up net w a \<longrightarrow> node_up net w1 a)
      \<and> (\<forall>(i, ns) \<in> set rm. \<forall>n \<in> set ns. held w1 (home n) i = Some (content i))
      \<and> (\<forall>a j. j \<notin> fst ` set rm \<longrightarrow> held w1 a j = held w a j)"
proof (induction rm arbitrary: w)
  case (Cons p rm)
  obtain i ns where p: "p = (i, ns)"
    by (cases p)
  have i: "storable content i" "\<forall>n \<in> set ns. node_up net w (home n) \<and> held w (home n) i \<in> {None, Some (content i)}"
    using Cons.prems(2) by (simp_all add: p)
  obtain w1 where put: "put_nodes net home i (content i) ns w = (Inr (), w1)" "\<forall>a. node_up net w a \<longrightarrow> node_up net w1 a"
    "\<forall>a j. held w1 a j = (if j = i \<and> a \<in> home ` set ns then Some (content i) else held w a j)"
    using put_nodes_ok [OF assms i] by blast
  have fresh: "i \<notin> fst ` set rm" and dist: "distinct (map fst rm)"
    using Cons.prems(1) by (simp_all add: p)
  have "\<forall>(j, ks) \<in> set rm. storable content j
      \<and> (\<forall>n \<in> set ks. node_up net w1 (home n) \<and> held w1 (home n) j \<in> {None, Some (content j)})"
  proof (intro ballI)
    fix q
    assume q: "q \<in> set rm"
    obtain j ks where jk: "q = (j, ks)"
      by (cases q)
    then have j: "j \<noteq> i" "storable content j"
      "\<forall>n \<in> set ks. node_up net w (home n) \<and> held w (home n) j \<in> {None, Some (content j)}"
      using Cons.prems(2) q fresh by (force simp: p)+
    then show "case q of (j, ks) \<Rightarrow> storable content j
        \<and> (\<forall>n \<in> set ks. node_up net w1 (home n) \<and> held w1 (home n) j \<in> {None, Some (content j)})"
      using put(2,3) jk by simp
  qed
  from Cons.IH [OF dist this] obtain w2 where rest: "put_replicas net home content rm w1 = (Inr (), w2)"
    "\<forall>a. node_up net w1 a \<longrightarrow> node_up net w2 a" "\<forall>(j, ks) \<in> set rm. \<forall>n \<in> set ks. held w2 (home n) j = Some (content j)"
    "\<forall>a j. j \<notin> fst ` set rm \<longrightarrow> held w2 a j = held w1 a j"
    by (elim exE conjE) (rule that, assumption+)
  have "held w2 (home n) i = Some (content i)" if "n \<in> set ns" for n
    using rest(4) fresh put(3) that by simp
  with rest put show ?case
    by (simp add: p bindR_def)
qed simp

text \<open>The same calls as steps of the system.\<close>

lemma put_nodes_reach:
  assumes "valid_id i" "describes descr i data"
  shows "dfs_reachable m home descr st \<Longrightarrow> put_nodes net home i data ns (dfs_cluster st) = (Inr (), w1) \<Longrightarrow>
    \<exists>acked. dfs_acked st \<subseteq> acked \<and> (\<forall>n \<in> set ns. (home n, i) \<in> acked)
      \<and> dfs_reachable m home descr (st\<lparr>dfs_cluster := w1, dfs_acked := acked\<rparr>)"
proof (induction ns arbitrary: st)
  case Nil
  then have "w1 = dfs_cluster st"
    by simp
  with Nil(1) show ?case
    by (intro exI [of _ "dfs_acked st"]) simp
next
  case (Cons n ns)
  obtain w2 where put: "call_PutChunk net (home n) i data (dfs_cluster st) = (Inr (), w2)"
    and rest: "put_nodes net home i data ns w2 = (Inr (), w1)"
    using Cons.prems(2) by (auto simp: bindR_eq_Inr)
  let ?st = "st\<lparr>dfs_cluster := w2, dfs_acked := insert (home n, i) (dfs_acked st)\<rparr>"
  have "dfs_step m home descr st ?st"
    using dfs_put [OF put assms] by simp
  then have "dfs_reachable m home descr ?st"
    by (rule dfs_next [OF Cons.prems(1)])
  from Cons.IH [OF this] rest obtain acked where "insert (home n, i) (dfs_acked st) \<subseteq> acked" "\<forall>n \<in> set ns. (home n, i) \<in> acked"
    "dfs_reachable m home descr (?st\<lparr>dfs_cluster := w1, dfs_acked := acked\<rparr>)"
    by auto
  then show ?case
    by (intro exI [of _ acked]) simp
qed

lemma put_replicas_reach:
  assumes "dfs_reachable m home descr st" "put_replicas net home content rm (dfs_cluster st) = (Inr (), w1)"
    and "\<forall>(i, ns) \<in> set rm. valid_id i \<and> describes descr i (content i)"
  shows "\<exists>acked. dfs_acked st \<subseteq> acked \<and> (\<forall>(i, ns) \<in> set rm. \<forall>n \<in> set ns. (home n, i) \<in> acked)
      \<and> dfs_reachable m home descr (st\<lparr>dfs_cluster := w1, dfs_acked := acked\<rparr>)"
  using assms
proof (induction rm arbitrary: st)
  case Nil
  then have "w1 = dfs_cluster st"
    by simp
  with Nil(1) show ?case
    by (intro exI [of _ "dfs_acked st"]) simp
next
  case (Cons p rm)
  obtain i ns where p: "p = (i, ns)"
    by (cases p)
  obtain w2 where put: "put_nodes net home i (content i) ns (dfs_cluster st) = (Inr (), w2)"
    and rest: "put_replicas net home content rm w2 = (Inr (), w1)"
    using Cons.prems(2) by (auto simp: p bindR_eq_Inr)
  have i: "valid_id i" "describes descr i (content i)"
    using Cons.prems(3) by (simp_all add: p)
  obtain acked where acked: "dfs_acked st \<subseteq> acked" "\<forall>n \<in> set ns. (home n, i) \<in> acked"
    and reach: "dfs_reachable m home descr (st\<lparr>dfs_cluster := w2, dfs_acked := acked\<rparr>)"
    using put_nodes_reach [OF i Cons.prems(1) put] by blast
  obtain acked1 where "acked \<subseteq> acked1" "\<forall>(j, ks) \<in> set rm. \<forall>n \<in> set ks. (home n, j) \<in> acked1"
    "dfs_reachable m home descr (st\<lparr>dfs_cluster := w1, dfs_acked := acked1\<rparr>)"
    using Cons.IH [OF reach] rest Cons.prems(3) by auto
  with acked show ?case
    by (intro exI [of _ acked1]) (auto simp: p)
qed

subsection \<open>Getting every chunk\<close>

text \<open>A client reads the chunks in the order of the response to \<open>GetFile\<close>, each from a replica of its choice.\<close>

fun download ::
  "net_env \<Rightarrow> (string \<Rightarrow> string) \<Rightarrow> (chunk_plan \<Rightarrow> replica_msg) \<Rightarrow> chunk_plan list \<Rightarrow> (cluster, go_error, byte list) op" where
  "download net home pick [] = retR []"
| "download net home pick (p # ps) =
     bindR (call_GetChunk net (home (rep_node_id (pick p))) (plan_chunk_id p))
       (\<lambda>data. bindR (download net home pick ps) (\<lambda>rest. retR (data @ rest)))"

lemma download_ok:
  assumes "net_delivers net"
  shows "\<forall>p \<in> set ps. storable content (plan_chunk_id p) \<and> node_up net w (home (rep_node_id (pick p)))
      \<and> held w (home (rep_node_id (pick p))) (plan_chunk_id p) = Some (content (plan_chunk_id p)) \<Longrightarrow>
    \<exists>w1. download net home pick ps w = (Inr (concat (map (\<lambda>p. content (plan_chunk_id p)) ps)), w1)"
proof (induction ps arbitrary: w)
  case (Cons p ps)
  let ?addr = "home (rep_node_id (pick p))" and ?i = "plan_chunk_id p"
  have p: "node_up net w ?addr" "valid_id ?i" "?i \<noteq> []" "held w ?addr ?i = Some (content ?i)"
    using Cons.prems by (simp_all add: storable_def)
  obtain w1 where get: "call_GetChunk net ?addr ?i w = (Inr (content ?i), w1)"
    and up: "\<forall>a. node_up net w a \<longrightarrow> node_up net w1 a" and same: "held w1 = held w"
    using call_GetChunk_ok [OF assms p] by blast
  have "\<forall>p \<in> set ps. storable content (plan_chunk_id p) \<and> node_up net w1 (home (rep_node_id (pick p)))
      \<and> held w1 (home (rep_node_id (pick p))) (plan_chunk_id p) = Some (content (plan_chunk_id p))"
    using Cons.prems up same by simp
  from Cons.IH [OF this] get show ?case
    by (auto simp: bindR_def)
qed simp

subsection \<open>The round trip\<close>

lemma uploaded_file_reads_back:
  assumes reach: "dfs_reachable m home descr \<lparr>dfs_tables = md_tables s, dfs_cluster = w, dfs_acked = acked0\<rparr>"
    and ready: "upload_ready e m a fileSize (md_tables s)" "fileName \<noteq> []" "net_delivers net"
    and up: "\<forall>n \<in> set (t_nodes (md_tables s)). node_up net w (home (node_id n))"
    and fresh: "\<forall>k addr. held w addr (new_id a k) = None"
    and content: "\<forall>k. storable content (new_id a k) \<and> describes descr (new_id a k) (content (new_id a k))"
  shows "\<exists>r s1 w1 s2 acked got s3 chunks.
    server_PrepareUpload e m a order fileName fileSize s = (Ret (Inr r), s1)
    \<and> put_replicas net home content (response_map r) w = (Inr (), w1)
    \<and> server_CommitUpload e m order' (prep_session_id r) (response_map r) s1 = (Inr (), s2)
    \<and> dfs_reachable m home descr \<lparr>dfs_tables = md_tables s2, dfs_cluster = w1, dfs_acked = acked\<rparr>
    \<and> file_status_of (md_tables s2) (new_id a 0) = Some FileStatusCommitted
    \<and> server_GetFile e (new_id a 0) s2 = (Inr got, s3) \<and> got_file_name got = fileName \<and> got_file_size got = fileSize
    \<and> splits_file (new_id a 0) fileSize (mgr_chunkSize m) chunks
    \<and> (\<forall>p \<in> set (got_chunks got). plan_replicas p \<noteq> [])
    \<and> (\<forall>pick. (\<forall>p \<in> set (got_chunks got). pick p \<in> set (plan_replicas p)) \<longrightarrow>
         (\<exists>w2. download net home pick (got_chunks got) w1 = (Inr (concat (map (\<lambda>c. content (chunk_id c)) chunks)), w2)))"
proof -
  obtain r s1 s2 got s3 chunks where prepare: "server_PrepareUpload e m a order fileName fileSize s = (Ret (Inr r), s1)"
    and commit: "server_CommitUpload e m order' (prep_session_id r) (response_map r) s1 = (Inr (), s2)"
    and dist: "distinct (map fst (response_map r))" and given: "assigned m a (md_tables s) (response_map r)"
    and get: "file_status_of (md_tables s2) (new_id a 0) = Some FileStatusCommitted"
      "server_GetFile e (new_id a 0) s2 = (Inr got, s3)" "got_file_name got = fileName" "got_file_size got = fileSize"
      "splits_file (new_id a 0) fileSize (mgr_chunkSize m) chunks"
    and plans: "list_all2 (\<lambda>c p. plan_chunk_id p = chunk_id c \<and> plan_size_bytes p = chunk_size c
         \<and> (\<exists>ns. (chunk_id c, ns) \<in> set (response_map r) \<and> mset (map rep_node_id (plan_replicas p)) = mset ns))
        chunks (got_chunks got)"
    using upload_completes [OF ready(1,2), of order order'] by blast
  let ?rm = "response_map r"
  have named: "storable content i \<and> describes descr i (content i) \<and> ns \<noteq> []
      \<and> (\<forall>n \<in> set ns. node_up net w (home n) \<and> held w (home n) i = None)" if "(i, ns) \<in> set ?rm" for i ns
  proof -
    have "i \<in> range (new_id a)" "int (length ns) = ReplicationFactor (mgr_placement m)" "\<forall>n \<in> set ns. healthy_node (md_tables s) n"
      using given that by (auto simp: assigned_def)
    moreover have "0 < ReplicationFactor (mgr_placement m)"
      using ready(1) by (simp add: upload_ready_def)
    ultimately show ?thesis
      using content fresh up by (auto simp: healthy_node_def)
  qed
  obtain w1 where put: "put_replicas net home content ?rm w = (Inr (), w1)"
    and up1: "\<forall>a. node_up net w a \<longrightarrow> node_up net w1 a"
    and stored: "\<forall>(i, ns) \<in> set ?rm. \<forall>n \<in> set ns. held w1 (home n) i = Some (content i)"
  proof -
    have "\<forall>(i, ns) \<in> set ?rm. storable content i
        \<and> (\<forall>n \<in> set ns. node_up net w (home n) \<and> held w (home n) i \<in> {None, Some (content i)})"
      using named by auto
    from put_replicas_ok [OF ready(3) dist this] that show thesis
      by blast
  qed
  let ?st = "\<lambda>T. \<lparr>dfs_tables = T, dfs_cluster = w, dfs_acked = acked0\<rparr>"
  have "dfs_reachable m home descr (?st (md_tables s1))"
    using dfs_calls.keeps_server_PrepareUpload [OF reach, of a fileName fileSize e order] prepare by simp
  moreover have "\<forall>(i, ns) \<in> set ?rm. valid_id i \<and> describes descr i (content i)"
    using named by (auto simp: storable_def)
  ultimately obtain acked where acked: "\<forall>(i, ns) \<in> set ?rm. \<forall>n \<in> set ns. (home n, i) \<in> acked"
    and reach2: "dfs_reachable m home descr \<lparr>dfs_tables = md_tables s1, dfs_cluster = w1, dfs_acked = acked\<rparr>"
    using put_replicas_reach [of m home descr "?st (md_tables s1)" net content ?rm w1] put by auto
  have "complete_scans e"
    using ready(1) by (simp add: upload_ready_def)
  then have reach3: "dfs_reachable m home descr \<lparr>dfs_tables = md_tables s2, dfs_cluster = w1, dfs_acked = acked\<rparr>"
    using dfs_calls.keeps_server_CommitUpload [OF reach2, of order' "prep_session_id r" ?rm e] acked dist commit by simp
  have listed: "storable content (plan_chunk_id p) \<and> plan_replicas p \<noteq> []
      \<and> (\<forall>q \<in> set (plan_replicas p). node_up net w1 (home (rep_node_id q))
           \<and> held w1 (home (rep_node_id q)) (plan_chunk_id p) = Some (content (plan_chunk_id p)))"
    if p: "p \<in> set (got_chunks got)" for p
  proof -
    obtain ns where ns: "(plan_chunk_id p, ns) \<in> set ?rm" "mset (map rep_node_id (plan_replicas p)) = mset ns"
      using plans p by (force simp: list_all2_conv_all_nth in_set_conv_nth)
    from this(2) have "set ns = rep_node_id ` set (plan_replicas p)" "ns = [] \<longleftrightarrow> plan_replicas p = []"
      by (metis list.set_map mset_eq_setD, metis list.map_disc_iff mset_zero_iff)
    with named [OF ns(1)] up1 stored ns(1) show ?thesis
      by fastforce
  qed
  have "\<exists>w2. download net home pick (got_chunks got) w1 = (Inr (concat (map (\<lambda>c. content (chunk_id c)) chunks)), w2)"
    if pick: "\<forall>p \<in> set (got_chunks got). pick p \<in> set (plan_replicas p)" for pick
  proof -
    have "map plan_chunk_id (got_chunks got) = map chunk_id chunks"
      using plans by (induction rule: list_all2_induct) simp_all
    then have "map (content \<circ> plan_chunk_id) (got_chunks got) = map (content \<circ> chunk_id) chunks"
      by (metis map_map)
    with download_ok [OF ready(3), of "got_chunks got" content w1 home pick] listed pick show ?thesis
      by (simp add: comp_def)
  qed
  with prepare put commit reach3 get listed show ?thesis
    by blast
qed

text \<open>
  C2. A file that was uploaded can be read back. On a reachable state with a database, a network and nodes
  that work, enough healthy nodes and fresh IDs: \<open>PrepareUpload\<close> succeeds; putting every chunk on every
  node of its response succeeds; \<open>CommitUpload\<close> with the map of the response succeeds and leads to a
  reachable state; \<open>GetFile\<close> then gives the name, the size and chunks that partition the file, in order;
  and reading each of them from any of the replicas it lists gives exactly the uploaded bytes.
\<close>

theorem file_roundtrip:
  assumes reach: "dfs_reachable m home descr \<lparr>dfs_tables = md_tables s, dfs_cluster = w, dfs_acked = acked0\<rparr>"
    and ready: "upload_ready e m a fileSize (md_tables s)" "fileName \<noteq> []" "net_delivers net"
    and up: "\<forall>n \<in> set (t_nodes (md_tables s)). node_up net w (home (node_id n))"
    and fresh: "\<forall>k addr. held w addr (new_id a k) = None"
    and content: "\<forall>k. storable content (new_id a k) \<and> describes descr (new_id a k) (content (new_id a k))"
  shows "\<exists>r s1 w1 s2 acked got s3 chunks.
    server_PrepareUpload e m a order fileName fileSize s = (Ret (Inr r), s1)
    \<and> put_replicas net home content (response_map r) w = (Inr (), w1)
    \<and> server_CommitUpload e m order' (prep_session_id r) (response_map r) s1 = (Inr (), s2)
    \<and> dfs_reachable m home descr \<lparr>dfs_tables = md_tables s2, dfs_cluster = w1, dfs_acked = acked\<rparr>
    \<and> file_status_of (md_tables s2) (new_id a 0) = Some FileStatusCommitted
    \<and> server_GetFile e (new_id a 0) s2 = (Inr got, s3) \<and> got_file_name got = fileName \<and> got_file_size got = fileSize
    \<and> splits_file (new_id a 0) fileSize (mgr_chunkSize m) chunks
    \<and> (\<forall>p \<in> set (got_chunks got). plan_replicas p \<noteq> [])
    \<and> (\<forall>pick. (\<forall>p \<in> set (got_chunks got). pick p \<in> set (plan_replicas p)) \<longrightarrow>
         (\<exists>w2. download net home pick (got_chunks got) w1 = (Inr (concat (map (\<lambda>c. content (chunk_id c)) chunks)), w2)))"
  using uploaded_file_reads_back [OF assms, of order order'] by blast

subsection \<open>An example\<close>

text \<open>One node that has joined and sent its first heartbeat.\<close>

abbreviation one_home :: "string \<Rightarrow> string" where
  "one_home n \<equiv> ''host:9100''"

abbreviation three_bytes :: "string \<Rightarrow> byte list" where
  "three_bytes i \<equiv> [1, 2, 3]"

abbreviation three_descr :: description where
  "three_descr i \<equiv> (sha256 [1, 2, 3], 3)"

definition one_node_cluster :: cluster where
  "one_node_cluster = \<lparr>cl_daemons = [''host:9100'' \<mapsto> empty_node], cl_calls = 0\<rparr>"

lemma one_node_dfs:
  "dfs_reachable small_mgr one_home descr \<lparr>dfs_tables = md_tables one_node, dfs_cluster = one_node_cluster, dfs_acked = {}\<rparr>"
proof -
  let ?s0 = "\<lparr>md_conn = \<lparr>conn_tables = empty_tables\<lparr>foreign_keys := True\<rparr>, conn_tick = 5\<rparr>, md_metrics = zero_metrics\<rparr>"
  let ?w0 = "\<lparr>cl_daemons = (\<lambda>addr. None), cl_calls = 0\<rparr>"
  let ?st = "\<lambda>s. \<lparr>dfs_tables = md_tables s, dfs_cluster = ?w0, dfs_acked = {}\<rparr>"
  have "dfs_reachable small_mgr one_home descr (?st ?s0)"
    using dfs_start [OF NewSQLite_plain] by simp
  then have "dfs_reachable small_mgr one_home descr (?st one_node)"
    unfolding one_node_def by (rule dfs_calls.keeps_server_Heartbeat) simp_all
  moreover have "dfs_step small_mgr one_home descr (?st one_node)
      \<lparr>dfs_tables = md_tables one_node, dfs_cluster = one_node_cluster, dfs_acked = {}\<rparr>"
    using dfs_join [of "?st one_node" "''host:9100''" empty_node small_mgr one_home descr] node_safe [OF empty_node_ok(1)]
    by (simp add: one_node_cluster_def)
  ultimately show ?thesis
    by (rule dfs_next)
qed

lemma no_temp: "replicate k CHR ''x'' \<noteq> ''tmp-''"
  by (cases k) simp_all

lemma one_node_up:
  shows "net_delivers plain_net" "\<forall>n \<in> set (t_nodes (md_tables one_node)). node_up plain_net one_node_cluster ''host:9100''"
    and "\<forall>k addr. held one_node_cluster addr (new_id upload_ambient k) = None"
    and "\<forall>k. storable three_bytes (new_id upload_ambient k) \<and> describes three_descr (new_id upload_ambient k) [1, 2, 3]"
  using empty_node_ok no_temp
  by (auto simp: one_node_cluster_def plain_net_def net_delivers_def node_up_def held_def on_valid_def storable_def describes_def
      upload_ambient_def valid_id_def maxSize_def)

theorem committed_files_durable_witness:
  "\<exists>st f cid n. dfs_reachable small_mgr one_home three_descr st \<and> f \<in> set (t_files (dfs_tables st))
     \<and> file_status f = FileStatusCommitted \<and> cid \<in> file_chunk_ids (dfs_tables st) (file_id f)
     \<and> n \<in> set (replica_nodes (dfs_tables st) cid) \<and> serves three_descr (dfs_cluster st) ''host:9100'' cid"
proof -
  note up = uploaded_file_reads_back [OF one_node_dfs one_node_ready _ one_node_up, of "''report''" "[]" "[]"]
  obtain s2 w1 acked where reach: "dfs_reachable small_mgr one_home three_descr
      \<lparr>dfs_tables = md_tables s2, dfs_cluster = w1, dfs_acked = acked\<rparr>"
    and com: "file_status_of (md_tables s2) (new_id upload_ambient 0) = Some FileStatusCommitted"
    using up by auto
  let ?st = "\<lparr>dfs_tables = md_tables s2, dfs_cluster = w1, dfs_acked = acked\<rparr>"
  obtain f where f: "f \<in> set (t_files (dfs_tables ?st))" "file_status f = FileStatusCommitted"
    using com select_file_id by (auto simp: file_status_of_def)
  note dur = committed_files_durable [OF reach f]
  then obtain cid where cid: "cid \<in> file_chunk_ids (dfs_tables ?st) (file_id f)"
    by blast
  with dur have "1 \<le> int (length (replica_nodes (dfs_tables ?st) cid))"
    by (auto simp: small_mgr_def NewManager_def NewEngine_def ReplicationFactor_def)
  then obtain n where n: "n \<in> set (replica_nodes (dfs_tables ?st) cid)"
    by (cases "replica_nodes (dfs_tables ?st) cid") auto
  then have "serves three_descr (dfs_cluster ?st) ''host:9100'' cid"
    using dur cid by blast
  with n cid reach f show ?thesis
    by blast
qed

theorem file_roundtrip_witness:
  "\<exists>r s1 w1 s2 got s3. server_PrepareUpload plain_engine small_mgr upload_ambient [] ''report'' 10 one_node = (Ret (Inr r), s1)
     \<and> put_replicas plain_net one_home three_bytes (response_map r) one_node_cluster = (Inr (), w1)
     \<and> server_CommitUpload plain_engine small_mgr [] (prep_session_id r) (response_map r) s1 = (Inr (), s2)
     \<and> server_GetFile plain_engine (new_id upload_ambient 0) s2 = (Inr got, s3) \<and> got_file_name got = ''report''"
proof -
  have "''report'' \<noteq> []"
    by simp
  from file_roundtrip [OF one_node_dfs one_node_ready this one_node_up, of "[]" "[]"] show ?thesis
    by blast
qed

end
