(* ===== verification/Config.thy ===== *)
theory Config
  imports Constants Decimal Disk
begin

text \<open>
  \<open>internal/common/config/config.go\<close> and \<open>internal/common/logging\<close>: the settings of both daemons. The
  environment is a parameter: \<open>env\<close> is what \<open>os.Getenv\<close> returns (the empty string for an unset variable)
  after the third-party \<open>godotenv.Load\<close> has run; a value is the string of its bytes.
\<close>

record log_config =
  log_Level :: string
  log_Production :: bool

record config =
  ServiceName :: string
  Log :: log_config
  MetadataDBPath :: string
  MetadataAddr :: string
  MetadataMetricsAddr :: string
  cfg_ReplicationFactor :: int64
  FailureTimeoutSeconds :: int64
  MonitorIntervalSeconds :: int64
  StorageDataPath :: string
  StorageListenAddr :: string
  StorageMetricsAddr :: string
  StorageNodeID :: string
  StorageCapacityBytes :: int64

text \<open>
  \<open>strings.TrimSpace(s) == ""\<close>: only white space, which is six ASCII characters and the UTF-8
  encodings of the Unicode ones (U+0085, U+00A0, U+1680, U+2000 to U+200A, U+2028, U+2029, U+202F,
  U+205F and U+3000).
\<close>

fun is_blank :: "string \<Rightarrow> bool" where
  "is_blank [] = True"
| "is_blank (c # cs) =
     (let k = of_char c :: nat in
      if k = 32 \<or> 9 \<le> k \<and> k \<le> 13 then is_blank cs
      else case cs of
          [] \<Rightarrow> False
        | c1 # cs1 \<Rightarrow>
            (let k1 = of_char c1 :: nat in
             if k = 194 \<and> (k1 = 133 \<or> k1 = 160) then is_blank cs1
             else case cs1 of
                 [] \<Rightarrow> False
               | c2 # cs2 \<Rightarrow>
                   (let k2 = of_char c2 :: nat in
                    if k = 225 \<and> k1 = 154 \<and> k2 = 128
                      \<or> k = 226 \<and> k1 = 128 \<and> (128 \<le> k2 \<and> k2 \<le> 138 \<or> k2 = 168 \<or> k2 = 169 \<or> k2 = 175)
                      \<or> k = 226 \<and> k1 = 129 \<and> k2 = 159 \<or> k = 227 \<and> k1 = 128 \<and> k2 = 128
                    then is_blank cs2 else False)))"

declare is_blank.simps(2) [simp del]

definition getEnv :: "(string \<Rightarrow> string) \<Rightarrow> string \<Rightarrow> string \<Rightarrow> string" where
  "getEnv env key fallback = (if is_blank (env key) then fallback else env key)"

text \<open>\<open>strconv.ParseBool\<close>.\<close>

definition ParseBool :: "string \<Rightarrow> bool option" where
  "ParseBool s =
     (if s \<in> set [''1'', ''t'', ''T'', ''true'', ''TRUE'', ''True''] then Some True
      else if s \<in> set [''0'', ''f'', ''F'', ''false'', ''FALSE'', ''False''] then Some False
      else None)"

definition parseBool :: "string \<Rightarrow> bool" where
  "parseBool s = (case ParseBool s of None \<Rightarrow> False | Some b \<Rightarrow> b)"

definition parseInt :: "string \<Rightarrow> int64" where
  "parseInt s = (case ParseInt s of None \<Rightarrow> 0 | Some i \<Rightarrow> i)"

definition Load :: "(string \<Rightarrow> string) \<Rightarrow> config" where
  "Load env =
     \<lparr>ServiceName = getEnv env ''SERVICE_NAME'' ''dfs-service'',
      Log = \<lparr>log_Level = getEnv env ''LOG_LEVEL'' ''debug'', log_Production = parseBool (getEnv env ''LOG_PRODUCTION'' ''false'')\<rparr>,
      MetadataDBPath = getEnv env EnvMetadataDBPath ''./data/metad/metad.db'',
      MetadataAddr = getEnv env EnvMetadataAddr '':50051'',
      MetadataMetricsAddr = getEnv env ''DFS_METRICS_ADDR'' '':9090'',
      cfg_ReplicationFactor = parseInt (getEnv env EnvReplicationFactor ''2''),
      FailureTimeoutSeconds = parseInt (getEnv env ''DFS_FAILURE_TIMEOUT_SECONDS'' ''10''),
      MonitorIntervalSeconds = parseInt (getEnv env ''DFS_MONITOR_INTERVAL_SECONDS'' ''3''),
      StorageDataPath = getEnv env ''DFS_STORAGE_DATA_PATH'' ''./data/storaged'',
      StorageListenAddr = getEnv env EnvStorageListenAddr '':50052'',
      StorageMetricsAddr = getEnv env ''DFS_STORAGE_METRICS_ADDR'' '':9091'',
      StorageNodeID = getEnv env EnvStorageNodeID ''storage-1'',
      StorageCapacityBytes = parseInt (getEnv env ''DFS_STORAGE_CAPACITY_BYTES'' ''10737418240'')\<rparr>"

definition EnsureDir :: "os_env \<Rightarrow> string \<Rightarrow> (disk, os_error, unit) op" where
  "EnsureDir os filePath = MkdirAll os (Dir_of filePath)"

subsection \<open>The logger's level\<close>

datatype zap_level = DebugLevel | InfoLevel | WarnLevel | ErrorLevel

text \<open>\<open>strings.ToLower\<close>; only its effect on ASCII letters can make a value equal to one of the names.\<close>

definition to_lower :: "char \<Rightarrow> char" where
  "to_lower c = (let k = of_char c :: nat in if 65 \<le> k \<and> k \<le> 90 then char_of (k + 32) else c)"

definition log_level :: "log_config \<Rightarrow> zap_level" where
  "log_level cfg =
     (let level = map to_lower (log_Level cfg)
      in if level = ''debug'' then DebugLevel
         else if level = ''info'' then InfoLevel
         else if level = ''warn'' then WarnLevel
         else if level = ''error'' then ErrorLevel
         else InfoLevel)"

text \<open>\<open>logging.Init\<close>; \<open>build\<close> stands for \<open>zapConfig.Build\<close> of the library on the two choices made here.\<close>

definition logging_Init :: "(bool \<Rightarrow> zap_level \<Rightarrow> go_error + 'l) \<Rightarrow> log_config \<Rightarrow> go_error + 'l" where
  "logging_Init build cfg = build (log_Production cfg) (log_level cfg)"

subsection \<open>What the numeric settings become\<close>

lemma not_blank: "(of_char c :: nat) < 128 \<Longrightarrow> (of_char c :: nat) \<noteq> 32 \<Longrightarrow> (of_char c :: nat) < 9 \<or> 13 < (of_char c :: nat)
    \<Longrightarrow> \<not> is_blank (c # cs)"
  by (subst is_blank.simps(2)) (auto simp: Let_def split: list.split)

lemma digit_char_code: "d < 10 \<Longrightarrow> of_char (digit_char d) = 48 + d"
  by (simp add: digit_char_def)

lemma dec_int_not_blank: "\<not> is_blank (dec_int i)"
proof (cases "i < 0")
  case True
  then show ?thesis
    using not_blank [of "CHR ''-''"] by (simp add: dec_int_def)
next
  case False
  obtain d where "d < 10" "hd (dec_nat (nat i)) = digit_char d"
    using hd_dec_nat by blast
  moreover have "dec_nat (nat i) = hd (dec_nat (nat i)) # tl (dec_nat (nat i))"
    by simp
  ultimately have "\<not> is_blank (dec_nat (nat i))"
    using not_blank [of "digit_char d" "tl (dec_nat (nat i))"] digit_char_code [of d] by simp
  with False show ?thesis
    by (simp add: dec_int_def)
qed

lemma parseInt_dec_int: "parseInt (dec_int (sint i)) = i"
  using ParseInt_dec_int [of "sint i"] sint64_bounds [of i] by (simp add: parseInt_def)

lemma getEnv_number: "env key = dec_int i \<Longrightarrow> getEnv env key fallback = dec_int i"
  by (simp add: getEnv_def dec_int_not_blank)

lemma default_numbers:
  "parseInt ''2'' = 2" "parseInt ''10'' = 10" "parseInt ''3'' = 3" "parseInt ''10737418240'' = 10737418240"
  by (simp_all add: parseInt_def ParseInt_def Let_def digit_value_def)

end
