(* ===== verification/Interceptors.thy ===== *)
theory Interceptors
  imports Config Cluster_Properties
begin

text \<open>
  The two interceptors of the metadata daemon's gRPC server, \<open>internal/auth\<close> and
  \<open>internal/metrics/server_metrics.go\<close>. The JWT library is a parameter: what its parser makes of a token,
  given the key function of \<open>ValidateToken\<close>, and its signer. The request headers are the values of
  \<open>authorization\<close>, \<open>None\<close> when the context carries no metadata at all.
\<close>

subsection \<open>Tokens\<close>

record claims =
  cl_Subject :: string
  cl_ExpiresAt :: int
  cl_IssuedAt :: int

datatype jwt_method = SigningMethodHMAC | OtherMethod string

text \<open>\<open>jwt.ParseWithClaims\<close> calls the key function with the method of the token and checks the signature with the key it returns.\<close>

record jwt_lib =
  jwt_parse :: "string \<Rightarrow> (jwt_method \<Rightarrow> go_error + string) \<Rightarrow> go_error + bool \<times> claims"
  jwt_sign :: "claims \<Rightarrow> string \<Rightarrow> go_error + string"

definition jwt_key :: "string \<Rightarrow> jwt_method \<Rightarrow> go_error + string" where
  "jwt_key secret alg = (if alg = SigningMethodHMAC then Inr secret else Inl (PlainErr ''token signature is invalid''))"

definition ValidateToken :: "jwt_lib \<Rightarrow> string \<Rightarrow> string \<Rightarrow> go_error + claims" where
  "ValidateToken lib secret token =
     (case jwt_parse lib token (jwt_key secret) of
        Inl err \<Rightarrow> Inl err
      | Inr (valid, c) \<Rightarrow> if valid then Inr c else Inl (PlainErr ''token has invalid claims''))"

text \<open>Times in nanoseconds; a \<open>NumericDate\<close> keeps whole seconds.\<close>

definition GenerateToken :: "jwt_lib \<Rightarrow> int \<Rightarrow> string \<Rightarrow> string \<Rightarrow> int \<Rightarrow> go_error + string" where
  "GenerateToken lib now secret subject ttl =
     jwt_sign lib \<lparr>cl_Subject = subject, cl_ExpiresAt = (now + ttl) div second, cl_IssuedAt = now div second\<rparr> secret"

subsection \<open>Authentication\<close>

text \<open>\<open>strings.SplitN(s, " ", 2)\<close>.\<close>

definition split_scheme :: "string \<Rightarrow> string list" where
  "split_scheme s =
     (if CHR '' '' \<in> set s then [before_char (CHR '' '') s, drop (Suc (length (before_char (CHR '' '') s))) s] else [s])"

text \<open>\<open>strings.EqualFold\<close> with an ASCII word none of whose letters has a non-ASCII fold.\<close>

definition EqualFold :: "string \<Rightarrow> string \<Rightarrow> bool" where
  "EqualFold s t \<longleftrightarrow> map to_lower s = map to_lower t"

definition auth_check :: "jwt_lib \<Rightarrow> string \<Rightarrow> string list option \<Rightarrow> go_error + claims" where
  "auth_check lib secret md =
     (case md of
        None \<Rightarrow> Inl (StatusErr GrpcUnauthenticated ''missing authorization token'')
      | Some [] \<Rightarrow> Inl (StatusErr GrpcUnauthenticated ''missing authorization token'')
      | Some (authHeader # others) \<Rightarrow>
          (let parts = split_scheme authHeader
           in if length parts \<noteq> 2 \<or> \<not> EqualFold (parts ! 0) ''Bearer'' \<or> is_blank (parts ! 1)
              then Inl (StatusErr GrpcUnauthenticated ''invalid authorization format'')
              else case ValidateToken lib secret (parts ! 1) of
                  Inl err \<Rightarrow> Inl (StatusErr GrpcUnauthenticated ''invalid token'')
                | Inr c \<Rightarrow> Inr c))"

definition auth_interceptor ::
  "jwt_lib \<Rightarrow> string \<Rightarrow> string \<Rightarrow> string list option \<Rightarrow> ('s, go_error, 'a) op \<Rightarrow> ('s, go_error, 'a) op" where
  "auth_interceptor lib secret fullMethod md handler =
     (if \<not> prefix MetadataServicePrefix fullMethod then handler
      else case auth_check lib secret md of
          Inl err \<Rightarrow> failR err
        | Inr c \<Rightarrow> handler)"

subsection \<open>Request metrics\<close>

text \<open>The last element of \<open>strings.Split(s, "/")\<close>.\<close>

definition last_segment :: "string \<Rightarrow> string" where
  "last_segment s = after_last (CHR ''/'') s"

definition method_label :: "string \<Rightarrow> string" where
  "method_label fullMethod =
     (if prefix MetadataServicePrefix fullMethod then drop (length MetadataServicePrefix) fullMethod
      else if prefix NodeServicePrefix fullMethod then drop (length NodeServicePrefix) fullMethod
      else last_segment fullMethod)"

text \<open>The histogram as the list of its observations, a label and a duration each.\<close>

definition metrics_interceptor ::
  "int \<Rightarrow> int \<Rightarrow> string \<Rightarrow> ('s, go_error, 'a) op \<Rightarrow> ('s \<times> (string \<times> int) list, go_error, 'a) op" where
  "metrics_interceptor start finish fullMethod handler st =
     (case handler (fst st) of
        (r, s1) \<Rightarrow> (r, (s1, snd st @ [(method_label fullMethod, finish - start)])))"

text \<open>The chain of the metadata daemon: authentication first, then metrics, then the handler.\<close>

definition served_call ::
  "jwt_lib \<Rightarrow> string \<Rightarrow> string list option \<Rightarrow> int \<Rightarrow> int \<Rightarrow> string \<Rightarrow> ('s, go_error, 'a) op
     \<Rightarrow> ('s \<times> (string \<times> int) list, go_error, 'a) op" where
  "served_call lib secret md start finish fullMethod handler =
     auth_interceptor lib secret fullMethod md (metrics_interceptor start finish fullMethod handler)"

subsection \<open>What they let through\<close>

lemma takeWhile_scheme: "CHR '' '' \<notin> set scheme \<Longrightarrow> before_char (CHR '' '') (scheme @ CHR '' '' # token) = scheme"
  by (induction scheme) (auto simp: before_char_def)

lemma split_scheme_eq:
  "split_scheme s = [scheme, token] \<longleftrightarrow> s = scheme @ CHR '' '' # token \<and> CHR '' '' \<notin> set scheme"
proof
  assume split: "split_scheme s = [scheme, token]"
  then have sp: "CHR '' '' \<in> set s" and scheme: "scheme = before_char (CHR '' '') s"
    and token: "token = drop (Suc (length scheme)) s"
    by (auto simp: split_scheme_def split: if_splits)
  have "dropWhile (\<lambda>x. x \<noteq> CHR '' '') s \<noteq> []" "hd (dropWhile (\<lambda>x. x \<noteq> CHR '' '') s) = CHR '' ''"
    using sp hd_dropWhile [of "\<lambda>x. x \<noteq> CHR '' ''" s] by (auto simp: dropWhile_eq_Nil_conv)
  moreover have "drop (length scheme) s = dropWhile (\<lambda>x. x \<noteq> CHR '' '') s"
    unfolding scheme before_char_def by (rule dropWhile_eq_drop [symmetric])
  ultimately have "drop (length scheme) s = CHR '' '' # token"
    unfolding token by (metis drop_Suc list.exhaust_sel tl_drop)
  moreover have "take (length scheme) s = scheme"
    unfolding scheme before_char_def by (rule takeWhile_eq_take [symmetric])
  ultimately show "s = scheme @ CHR '' '' # token \<and> CHR '' '' \<notin> set scheme"
    using append_take_drop_id [of "length scheme" s] scheme by (auto simp: before_char_def dest: set_takeWhileD)
qed (auto simp: split_scheme_def takeWhile_scheme)

text \<open>
  A header that authenticates: \<open>Bearer\<close> in any case, one space, and a token that the library accepts when
  it is given the secret for the HMAC methods and an error for every other one.
\<close>

fun hmac_only :: "string \<Rightarrow> jwt_method \<Rightarrow> go_error + string" where
  "hmac_only secret SigningMethodHMAC = Inr secret"
| "hmac_only secret (OtherMethod name) = Inl (PlainErr ''token signature is invalid'')"

definition authorized :: "jwt_lib \<Rightarrow> string \<Rightarrow> string list option \<Rightarrow> bool" where
  "authorized lib secret md \<longleftrightarrow>
     (\<exists>scheme token others c. md = Some ((scheme @ CHR '' '' # token) # others) \<and> map to_lower scheme = ''bearer''
        \<and> \<not> is_blank token \<and> jwt_parse lib token (hmac_only secret) = Inr (True, c))"

lemma jwt_key_hmac: "jwt_key secret = hmac_only secret"
proof
  show "jwt_key secret alg = hmac_only secret alg" for alg
    by (cases alg) (simp_all add: jwt_key_def)
qed

lemma authorized_eq: "authorized lib secret md \<longleftrightarrow>
     (\<exists>scheme token others c. md = Some ((scheme @ CHR '' '' # token) # others) \<and> map to_lower scheme = ''bearer''
        \<and> \<not> is_blank token \<and> jwt_parse lib token (jwt_key secret) = Inr (True, c))"
  by (simp add: authorized_def jwt_key_hmac)

lemma authorizedI:
  "map to_lower scheme = ''bearer'' \<Longrightarrow> \<not> is_blank token \<Longrightarrow> jwt_parse lib token (jwt_key secret) = Inr (True, c)
     \<Longrightarrow> authorized lib secret (Some ((scheme @ CHR '' '' # token) # others))"
  unfolding authorized_eq by (intro exI conjI) (rule refl, assumption+)

lemma ValidateToken_Inr: "ValidateToken lib secret token = Inr c \<longleftrightarrow> jwt_parse lib token (jwt_key secret) = Inr (True, c)"
  by (auto simp: ValidateToken_def split: sum.splits)

lemma bearer_no_space: "map to_lower scheme = ''bearer'' \<Longrightarrow> CHR '' '' \<notin> set scheme"
  by (auto simp: to_lower_def Let_def split: if_splits)

lemma EqualFold_bearer: "EqualFold s ''Bearer'' \<longleftrightarrow> map to_lower s = ''bearer''"
proof -
  have "map to_lower ''Bearer'' = ''bearer''"
    by code_simp
  then show ?thesis
    unfolding EqualFold_def by (simp only:)
qed

lemma auth_check_authorized: "(\<exists>c. auth_check lib secret md = Inr c) \<longleftrightarrow> authorized lib secret md"
proof -
  have two: "length parts = 2 \<longleftrightarrow> (\<exists>x y. parts = [x, y])" for parts :: "string list"
    by (auto simp: length_Suc_conv numeral_2_eq_2)
  have header: "(\<exists>c. auth_check lib secret (Some (h # others)) = Inr c) \<longleftrightarrow>
      (\<exists>scheme token c. split_scheme h = [scheme, token] \<and> map to_lower scheme = ''bearer'' \<and> \<not> is_blank token
         \<and> jwt_parse lib token (jwt_key secret) = Inr (True, c))" for h others
    by (auto simp: auth_check_def Let_def two EqualFold_bearer ValidateToken_Inr [symmetric] split: sum.splits)
  show ?thesis
  proof (cases "\<exists>h others. md = Some (h # others)")
    case True
    then obtain h others where md: "md = Some (h # others)"
      by blast
    show ?thesis
    proof
      assume "\<exists>c. auth_check lib secret md = Inr c"
      then obtain scheme token c where "h = scheme @ CHR '' '' # token" "map to_lower scheme = ''bearer''"
        "\<not> is_blank token" "jwt_parse lib token (jwt_key secret) = Inr (True, c)"
        unfolding md header split_scheme_eq by (elim exE conjE) (rule that)
      then show "authorized lib secret md"
        unfolding md by (simp only: authorizedI [where c = c] simp_thms)
    next
      assume "authorized lib secret md"
      then obtain scheme token c where auth: "h = scheme @ CHR '' '' # token" "map to_lower scheme = ''bearer''"
        "\<not> is_blank token" "jwt_parse lib token (jwt_key secret) = Inr (True, c)"
        unfolding authorized_eq md option.inject list.inject by (elim exE conjE) (rule that)
      then have "split_scheme h = [scheme, token]"
        using split_scheme_eq bearer_no_space by metis
      with auth show "\<exists>c. auth_check lib secret md = Inr c"
        unfolding md header by (intro exI conjI)
    qed
  next
    case False
    then have "md = None \<or> md = Some []"
      by (metis not_None_eq neq_Nil_conv)
    then show ?thesis
      by (auto simp: auth_check_def authorized_eq)
  qed
qed

text \<open>The label of a method is its name, whatever the service.\<close>

lemma before_char_append: "c \<notin> set xs \<Longrightarrow> before_char c (xs @ c # ys) = xs"
  by (induction xs) (auto simp: before_char_def)

lemma after_last_append: "c \<notin> set ys \<Longrightarrow> after_last c (xs @ c # ys) = ys"
  using before_char_append [of c "rev ys" "rev xs"] by (simp add: after_last_def)

lemma prefix_service:
  assumes "prefix (''/'' @ known @ ''/'') (''/'' @ service @ ''/'' @ name)" "CHR ''/'' \<notin> set service" "CHR ''/'' \<notin> set known"
  shows "drop (length (''/'' @ known @ ''/'')) (''/'' @ service @ ''/'' @ name) = name"
proof -
  from assms(1) obtain rest where eq: "service @ CHR ''/'' # name = known @ CHR ''/'' # rest"
    by (auto simp: prefix_def)
  then have "before_char (CHR ''/'') (service @ CHR ''/'' # name) = before_char (CHR ''/'') (known @ CHR ''/'' # rest)"
    by simp
  then have "service = known"
    by (simp only: before_char_append [OF assms(2)] before_char_append [OF assms(3)])
  with eq show ?thesis
    by simp
qed

lemma method_label_name:
  assumes "CHR ''/'' \<notin> set service" "CHR ''/'' \<notin> set name"
  shows "method_label (''/'' @ service @ ''/'' @ name) = name"
  using prefix_service [of "''metadata.MetadataService''" service name] prefix_service [of "''node.NodeService''" service name]
    after_last_append [OF assms(2), of "''/'' @ service"] assms(1)
  by (auto simp: method_label_def MetadataServicePrefix_def NodeServicePrefix_def last_segment_def)

text \<open>
  C21. No metadata call without a token: a call of a method of the metadata service reaches its handler
  exactly when its first authorization header is \<open>Bearer\<close>, in any case, a space and a token that the
  library accepts with a key function that gives the secret for the HMAC methods only; otherwise it ends as \<open>Unauthenticated\<close> and
  changes nothing, the request histogram included. Calls of other services always reach their handler.
\<close>

theorem metadata_calls_need_token:
  "(prefix MetadataServicePrefix m \<and> \<not> authorized lib secret md \<longrightarrow>
      (\<exists>msg. served_call lib secret md start finish m handler st = (Inl (StatusErr GrpcUnauthenticated msg), st)))
   \<and> (\<not> prefix MetadataServicePrefix m \<or> authorized lib secret md \<longrightarrow>
      served_call lib secret md start finish m handler st =
        (fst (handler (fst st)), snd (handler (fst st)), snd st @ [(method_label m, finish - start)]))"
proof (cases "auth_check lib secret md")
  case (Inl err)
  then have "\<not> authorized lib secret md"
    using auth_check_authorized [of lib secret md] by auto
  moreover have "\<exists>msg. err = StatusErr GrpcUnauthenticated msg"
    using Inl by (auto simp: auth_check_def Let_def split: option.splits list.splits if_splits sum.splits)
  ultimately show ?thesis
    using Inl by (auto simp: served_call_def auth_interceptor_def metrics_interceptor_def case_prod_beta)
next
  case (Inr c)
  then have "authorized lib secret md"
    using auth_check_authorized [of lib secret md] by auto
  with Inr show ?thesis
    by (auto simp: served_call_def auth_interceptor_def metrics_interceptor_def case_prod_beta)
qed

definition open_lib :: jwt_lib where
  "open_lib = \<lparr>jwt_parse = (\<lambda>token key. case key SigningMethodHMAC of
       Inr secret \<Rightarrow> if token = secret then Inr (True, \<lparr>cl_Subject = ''client'', cl_ExpiresAt = 1, cl_IssuedAt = 0\<rparr>)
         else Inl (PlainErr ''signature is invalid'')
     | Inl err \<Rightarrow> Inl err),
     jwt_sign = (\<lambda>c secret. Inr secret)\<rparr>"

theorem metadata_calls_need_token_witness:
  "served_call open_lib ''s'' (Some [''bEARER s'']) 1 3 ''/metadata.MetadataService/ListFiles'' (retR ()) ((), [])
     = (Inr (), (), [(''ListFiles'', 2)])
   \<and> fst (served_call open_lib ''s'' (Some []) 1 3 ''/metadata.MetadataService/ListFiles'' (retR ()) ((), [])) \<noteq> Inr ()"
proof -
  have "auth_check open_lib ''s'' (Some [''bEARER s'']) = Inr \<lparr>cl_Subject = ''client'', cl_ExpiresAt = 1, cl_IssuedAt = 0\<rparr>"
    by code_simp
  then have yes: "authorized open_lib ''s'' (Some [''bEARER s''])"
    using auth_check_authorized [of open_lib "''s''" "Some [''bEARER s'']"] by blast
  have no: "\<not> authorized open_lib ''s'' (Some [])"
    by (simp add: authorized_eq)
  let ?m = "''/metadata.MetadataService/ListFiles''"
  have m: "prefix MetadataServicePrefix ?m" "method_label ?m = ''ListFiles''"
    by (simp_all add: method_label_def MetadataServicePrefix_def)
  show ?thesis
    using metadata_calls_need_token [of ?m open_lib "''s''" "Some [''bEARER s'']" 1 3 "retR ()" "((), [])"] yes m
      metadata_calls_need_token [of ?m open_lib "''s''" "Some []" 1 3 "retR () :: (unit, go_error, unit) op" "((), [])"] no by auto
qed

end
