(* ===== verification/Metad_Client.thy ===== *)
theory Metad_Client
  imports Interceptors Metad_System
begin

text \<open>
  How the daemons start and how a storage node reports to the metadata daemon:
  \<open>cmd/storaged/metad_client.go\<close> and the parts of \<open>cmd/metad/main.go\<close> and \<open>cmd/storaged/main.go\<close> up to
  serving. The state of a report is the metadata daemon and the storage daemon. What the libraries decide
  (TLS files, dialling, the listener, the logger) is a parameter; a dial that blocks for ever is not
  a run of these functions.
\<close>

record metad_client =
  mc_nodeID :: string
  mc_nodeAddr :: string
  mc_capacityBytes :: int64

record metad_link =
  ml_tls :: tls_files
  ml_dial :: "string \<Rightarrow> go_error option"
  ml_request :: "nat \<Rightarrow> go_error option"
  ml_reply :: "nat \<Rightarrow> go_error option"

subsection \<open>Heartbeats\<close>

definition send_heartbeat :: "engine \<Rightarrow> int \<Rightarrow> metad_link \<Rightarrow> nat \<Rightarrow> metad_client \<Rightarrow> (metad \<times> storaged, go_error, unit) op" where
  "send_heartbeat e now link t mc st =
     (let available = AvailableBytes (sd_store (snd st));
          sd = with_storage_metrics (SetAvailableBytes available) (snd st)
      in case ml_request link t of
           Some err \<Rightarrow> (Inl err, (fst st, sd))
         | None \<Rightarrow>
             (case server_Heartbeat e now (mc_nodeID mc) (mc_nodeAddr mc) (mc_capacityBytes mc) available (fst st) of
                (r, md) \<Rightarrow> (case ml_reply link t of Some err \<Rightarrow> (Inl err, (md, sd)) | None \<Rightarrow> (r, (md, sd)))))"

definition newMetadClient ::
  "engine \<Rightarrow> int \<Rightarrow> metad_link \<Rightarrow> string \<Rightarrow> string \<Rightarrow> (metad \<times> storaged, go_error, metad_client) op" where
  "newMetadClient e now link nodeID nodeAddr st =
     (case load_tls (\<lambda>what err. err) PlainErr (ml_tls link) of
        Inl err \<Rightarrow> (Inl err, st)
      | Inr _ \<Rightarrow>
          (case ml_dial link ''metad'' of
             Some err \<Rightarrow> (Inl err, st)
           | None \<Rightarrow>
               (let mc = \<lparr>mc_nodeID = nodeID, mc_nodeAddr = nodeAddr, mc_capacityBytes = CapacityBytes (sd_store (snd st))\<rparr>
                in case send_heartbeat e now link 0 mc st of
                     (Inl err, st1) \<Rightarrow> (Inl err, st1)
                   | (Inr _, st1) \<Rightarrow> (Inr mc, st1))))"

text \<open>One turn of the loop of \<open>startHeartbeat\<close>: a failed heartbeat is only logged.\<close>

definition heartbeat_tick :: "engine \<Rightarrow> int \<Rightarrow> metad_link \<Rightarrow> nat \<Rightarrow> metad_client \<Rightarrow> metad \<times> storaged \<Rightarrow> metad \<times> storaged" where
  "heartbeat_tick e now link t mc st = snd (send_heartbeat e now link t mc st)"

subsection \<open>Starting the daemons\<close>

datatype 'a boot = Started 'a | Crashed string | Fatal string

definition server_tls :: "tls_files \<Rightarrow> string option" where
  "server_tls tls =
     (case tls_keypair tls of
        Some err \<Rightarrow> Some ''failed to load server certificate/key''
      | None \<Rightarrow>
          (case tls_ca_pem tls of
             Inl err \<Rightarrow> Some ''failed to read CA certificate''
           | Inr pem \<Rightarrow> if tls_append tls pem then None else Some ''failed to append CA certificate to pool''))"

text \<open>\<open>net.Listen\<close>, then the server's TLS files.\<close>

definition open_server :: "go_error option \<Rightarrow> tls_files \<Rightarrow> string option" where
  "open_server listen tls = (case listen of Some err \<Rightarrow> Some ''failed to listen'' | None \<Rightarrow> server_tls tls)"

record metad_daemon =
  dm_state :: metad
  dm_manager :: manager
  dm_repairFactor :: int
  dm_failureTimeout :: int64
  dm_monitorInterval :: int64
  dm_secret :: string

definition seconds :: "int64 \<Rightarrow> int64" where
  "seconds n = n * word_of_int second"

text \<open>
  \<open>main\<close> of the metadata daemon. The monitor's ticker is made in a goroutine; its panic for a
  non-positive interval ends the process all the same.
\<close>

definition metad_start ::
  "(string \<Rightarrow> string) \<Rightarrow> (bool \<Rightarrow> zap_level \<Rightarrow> go_error + 'l) \<Rightarrow> os_env \<Rightarrow> engine \<Rightarrow> tables option \<Rightarrow> go_error option \<Rightarrow> tls_files
     \<Rightarrow> disk \<Rightarrow> metad_daemon boot \<times> disk" where
  "metad_start env build os e db listen tls d =
     (let cfg = Load env; jwtSecret = env EnvJWTSecret
      in case logging_Init build (Log cfg) of
           Inl err \<Rightarrow> (Crashed (error_text err), d)
         | Inr log \<Rightarrow>
             if jwtSecret = [] then (Crashed (EnvJWTSecret @ '' is required and cannot be empty''), d)
             else case EnsureDir os (MetadataDBPath cfg) d of
                 (Inl err, d1) \<Rightarrow> (Fatal ''failed to create metadata directory'', d1)
               | (Inr _, d1) \<Rightarrow>
                   (case NewSQLite e (MetadataDBPath cfg) db of
                      (Inl err, c) \<Rightarrow> (Fatal ''failed to initialize metadata store'', d1)
                    | (Inr _, c) \<Rightarrow>
                        if seconds (MonitorIntervalSeconds cfg) \<le>s 0
                        then (Crashed ''non-positive interval for NewTicker'', d1)
                        else case DetermineChunkSize NewPolicy [] 0 of
                            Inl err \<Rightarrow> (Fatal ''failed to determine chunk size'', d1)
                          | Inr chunkSize \<Rightarrow>
                              (case open_server listen tls of
                                 Some m \<Rightarrow> (Fatal m, d1)
                               | None \<Rightarrow>
                                   (Started \<lparr>dm_state = \<lparr>md_conn = c, md_metrics = zero_metrics\<rparr>,
                                      dm_manager = NewManager (NewEngine (sint (cfg_ReplicationFactor cfg))) chunkSize,
                                      dm_repairFactor = sint (cfg_ReplicationFactor cfg),
                                      dm_failureTimeout = seconds (FailureTimeoutSeconds cfg),
                                      dm_monitorInterval = seconds (MonitorIntervalSeconds cfg),
                                      dm_secret = jwtSecret\<rparr>, d1))))"

text \<open>\<open>main\<close> of the storage daemon: the store is opened, then the node registers, then it serves.\<close>

definition storaged_start ::
  "(string \<Rightarrow> string) \<Rightarrow> (bool \<Rightarrow> zap_level \<Rightarrow> go_error + 'l) \<Rightarrow> os_env \<Rightarrow> engine \<Rightarrow> int \<Rightarrow> metad_link \<Rightarrow> go_error option \<Rightarrow> tls_files
     \<Rightarrow> metad \<times> disk \<Rightarrow> (storaged \<times> metad_client) boot \<times> metad" where
  "storaged_start env build os e now link listen tls st =
     (let cfg = Load env
      in case logging_Init build (Log cfg) of
           Inl err \<Rightarrow> (Crashed (error_text err), fst st)
         | Inr log \<Rightarrow>
             (case New_store os (StorageDataPath cfg) (StorageCapacityBytes cfg) (snd st) of
                (Inl err, d1) \<Rightarrow> (Fatal ''failed to initialize chunkstore'', fst st)
              | (Inr store, d1) \<Rightarrow>
                  (let sd = \<lparr>sd_chunks = \<lparr>cs_store = store, cs_disk = d1\<rparr>,
                         sd_metrics = \<lparr>chunksStoredTotal = 0, chunksServedTotal = 0, availableBytes = AvailableBytes store\<rparr>\<rparr>
                   in case newMetadClient e now link (StorageNodeID cfg) (StorageListenAddr cfg) (fst st, sd) of
                        (Inl err, (md, sd1)) \<Rightarrow> (Fatal ''failed to connect to metad'', md)
                      | (Inr mc, (md, sd1)) \<Rightarrow>
                          (case open_server listen tls of
                             Some m \<Rightarrow> (Fatal m, md)
                           | None \<Rightarrow> (Started (sd1, mc), md)))))"

subsection \<open>What a report leaves in the tables\<close>

lemma server_Heartbeat_row:
  assumes "server_Heartbeat e now nid addr cap avail s = (Inr u, s1)"
  shows "node_map (md_tables s1) = (node_map (md_tables s))(nid \<mapsto>
     \<lparr>node_id = nid, node_address = addr, node_capacity = cap, node_available = avail,
      node_status = NodeStatusHealthy, node_heartbeat = unix_seconds now\<rparr>)"
proof -
  obtain c where hb: "registry_Heartbeat e now nid addr cap avail (md_conn s) = (Inr u, c)"
    and s1: "md_tables s1 = conn_tables c"
  proof -
    obtain r c where hb: "registry_Heartbeat e now nid addr cap avail (md_conn s) = (r, c)"
      by (cases "registry_Heartbeat e now nid addr cap avail (md_conn s)")
    obtain q c2 where ls: "registry_ListHealthyNodes e c = (q, c2)"
      by (cases "registry_ListHealthyNodes e c")
    then have "conn_tables c2 = conn_tables c"
      by (metis registry_ListHealthyNodes_tables snd_conv)
    with hb ls assms have "r = Inr u \<and> md_tables s1 = conn_tables c"
      by (auto simp: server_Heartbeat_def on_conn_def with_metrics_def split: if_splits sum.splits)
    with hb that show thesis
      by blast
  qed
  then have "UpsertNodeHeartbeat e (unix_seconds now) nid addr cap avail (md_conn s) = (Inr u, c)"
    by (auto simp: registry_Heartbeat_def split: if_splits)
  with UpsertNodeHeartbeat_map [where e = e and now = "unix_seconds now" and nid = nid and addr = addr and cap = cap
      and avail = avail and s = "md_conn s"] s1 show ?thesis
    by (simp add: heartbeat_written_def)
qed

lemma send_heartbeat_row:
  assumes "send_heartbeat e now link t mc st = (Inr u, st1)"
  shows "node_map (md_tables (fst st1)) = (node_map (md_tables (fst st)))(mc_nodeID mc \<mapsto>
     \<lparr>node_id = mc_nodeID mc, node_address = mc_nodeAddr mc, node_capacity = mc_capacityBytes mc,
      node_available = AvailableBytes (sd_store (snd st)), node_status = NodeStatusHealthy, node_heartbeat = unix_seconds now\<rparr>)"
    "sd_chunks (snd st1) = sd_chunks (snd st)" "availableBytes (sd_metrics (snd st1)) = AvailableBytes (sd_store (snd st))"
  using assms
  by (auto simp: send_heartbeat_def Let_def with_storage_metrics_def SetAvailableBytes_def
      split: option.splits prod.splits dest!: server_Heartbeat_row)

lemma newMetadClient_InrD:
  assumes "newMetadClient e now link nodeID addr st = (Inr mc, st1)"
  shows "mc = \<lparr>mc_nodeID = nodeID, mc_nodeAddr = addr, mc_capacityBytes = CapacityBytes (sd_store (snd st))\<rparr>
    \<and> send_heartbeat e now link 0 mc st = (Inr (), st1)"
  using assms by (auto simp: newMetadClient_def Let_def split: sum.splits option.splits prod.splits)

subsection \<open>Claims\<close>

text \<open>
  C22. A storage daemon that starts is registered under its configured ID: the metadata holds its
  listen address as it was configured, the configured capacity, and as available bytes the capacity
  less the sizes of all files below its chunk directory (modulo \<open>2 ^ 64\<close>); its status is healthy, its
  gauge shows the same number, and no other node's row has changed.
\<close>

theorem storaged_registers:
  assumes "storaged_start env build os e now link listen tls (md, d) = (Started (sd, mc), md1)"
  shows "let cfg = Load env; base = Join [StorageDataPath cfg, ''chunks''];
      available = StorageCapacityBytes cfg - word_of_nat (usage base (cs_nodes (sd_chunks sd)))
    in node_map (md_tables md1) = (node_map (md_tables md))(StorageNodeID cfg \<mapsto>
        \<lparr>node_id = StorageNodeID cfg, node_address = StorageListenAddr cfg, node_capacity = StorageCapacityBytes cfg,
         node_available = available, node_status = NodeStatusHealthy, node_heartbeat = unix_seconds now\<rparr>)
      \<and> ds_baseDir (sd_store sd) = base \<and> availableBytes (sd_metrics sd) = available"
proof -
  let ?cfg = "Load env"
  obtain store d1 where new: "New_store os (StorageDataPath ?cfg) (StorageCapacityBytes ?cfg) d = (Inr store, d1)"
    and client: "newMetadClient e now link (StorageNodeID ?cfg) (StorageListenAddr ?cfg) (md,
        \<lparr>sd_chunks = \<lparr>cs_store = store, cs_disk = d1\<rparr>, sd_metrics = \<lparr>chunksStoredTotal = 0, chunksServedTotal = 0,
           availableBytes = AvailableBytes store\<rparr>\<rparr>) = (Inr mc, (md1, sd))"
    using assms by (auto simp: storaged_start_def Let_def split: sum.splits prod.splits option.splits)
  note store = New_store_InrD [OF new] and mc = newMetadClient_InrD [OF client]
  then have "send_heartbeat e now link 0 mc (md, \<lparr>sd_chunks = \<lparr>cs_store = store, cs_disk = d1\<rparr>,
      sd_metrics = \<lparr>chunksStoredTotal = 0, chunksServedTotal = 0, availableBytes = AvailableBytes store\<rparr>\<rparr>) = (Inr (), (md1, sd))"
    by blast
  from send_heartbeat_row [OF this] mc store show ?thesis
    by (simp add: Let_def AvailableBytes_def CapacityBytes_def)
qed

text \<open>
  C23. What the settings make of a metadata daemon on a fresh database: it starts only with a secret; its
  state is a reachable one of the state machine, so that every invariant holds of it; its chunk size
  is 4 MiB; and its replication factor is the configured number, 2 for a blank setting and 0 for one
  that is not a number. With a factor that is not positive it runs, and refuses every upload.
\<close>

theorem metad_start_settings:
  assumes "metad_start env build os e None listen tls d = (Started D, d1)"
  shows "env EnvJWTSecret \<noteq> [] \<and> dm_secret D = env EnvJWTSecret
    \<and> metad_reachable (dm_manager D) (dm_failureTimeout D) copy (dm_state D, w)
    \<and> mgr_chunkSize (dm_manager D) = 4 * 1024 * 1024
    \<and> ReplicationFactor (mgr_placement (dm_manager D)) = (if is_blank (env EnvReplicationFactor) then 2
        else case ParseInt (env EnvReplicationFactor) of None \<Rightarrow> 0 | Some i \<Rightarrow> sint i)
    \<and> (ReplicationFactor (mgr_placement (dm_manager D)) \<le> 0 \<longrightarrow> tables_wf (conn_tables s) \<longrightarrow>
         (\<forall>x s1. PrepareUpload e' (dm_manager D) a name fileSize s \<noteq> (Ret (Inr x), s1)))"
proof -
  let ?cfg = "Load env"
  obtain u c where db: "NewSQLite e (MetadataDBPath ?cfg) None = (Inr u, c)"
    and secret: "env EnvJWTSecret \<noteq> []" "dm_secret D = env EnvJWTSecret"
    and state: "dm_state D = \<lparr>md_conn = c, md_metrics = zero_metrics\<rparr>"
    and mgr: "dm_manager D = NewManager (NewEngine (sint (cfg_ReplicationFactor ?cfg))) (4 * 1024 * 1024)"
    using assms
    by (auto simp: metad_start_def Let_def DetermineChunkSize_def NewPolicy_def split: sum.splits prod.splits option.splits if_splits)
  have "metad_reachable (dm_manager D) (dm_failureTimeout D) copy (dm_state D, w)"
    unfolding state by (rule metad_reachable.start [OF db])
  moreover have "sint (cfg_ReplicationFactor ?cfg) = (if is_blank (env EnvReplicationFactor) then 2
        else case ParseInt (env EnvReplicationFactor) of None \<Rightarrow> 0 | Some i \<Rightarrow> sint i)"
    by (simp add: Load_def getEnv_def default_numbers parseInt_def [of "env EnvReplicationFactor"] split: option.split)
  moreover have "PrepareUpload e' (dm_manager D) a name fileSize s \<noteq> (Ret (Inr x), s1)"
    if "ReplicationFactor (mgr_placement (dm_manager D)) \<le> 0" "tables_wf (conn_tables s)" for x s1
    using PrepareUpload_tables [OF that(2), of e' "dm_manager D" a name fileSize "fst x" "snd x" s1] that(1) by auto
  ultimately show ?thesis
    using secret by (simp add: mgr NewManager_def NewEngine_def ReplicationFactor_def)
qed

subsection \<open>Examples\<close>

definition example_env :: "string \<Rightarrow> string" where
  "example_env key =
     (if key = ''DFS_STORAGE_DATA_PATH'' then ''/data''
      else if key = ''DFS_STORAGE_CAPACITY_BYTES'' then ''10''
      else if key = ''DFS_STORAGE_NODE_ID'' then ''n1''
      else if key = ''DFS_STORAGE_LISTEN_ADDR'' then ''c:1''
      else if key = ''DFS_JWT_SECRET'' then ''s''
      else if key = ''DFS_REPLICATION_FACTOR'' then ''two''
      else [])"

definition plain_link :: metad_link where
  "plain_link = \<lparr>ml_tls = plain_tls, ml_dial = (\<lambda>name. None), ml_request = (\<lambda>t. None), ml_reply = (\<lambda>t. None)\<rparr>"

definition started :: "'a boot \<times> 'b \<Rightarrow> bool" where
  "started r \<longleftrightarrow> (case fst r of Started x \<Rightarrow> True | _ \<Rightarrow> False)"

lemma startedE: "started r \<Longrightarrow> (\<And>x y. r = (Started x, y) \<Longrightarrow> P) \<Longrightarrow> P"
  by (cases r; cases "fst r") (auto simp: started_def)

lemma example_storaged:
  "started (storaged_start example_env (\<lambda>p l. Inr ()) plain_os plain_engine 5000000000 plain_link None plain_tls
     (two_node_metad, \<lparr>dk_nodes = [], dk_tick = 0\<rparr>))"
  by code_simp

lemma example_metad:
  "started (metad_start example_env (\<lambda>p l. Inr ()) plain_os plain_engine None None plain_tls \<lparr>dk_nodes = [], dk_tick = 0\<rparr>)"
  by code_simp

theorem storaged_registers_witness:
  "\<exists>sd mc md1 n. storaged_start example_env (\<lambda>p l. Inr ()) plain_os plain_engine 5000000000 plain_link None plain_tls
       (two_node_metad, \<lparr>dk_nodes = [], dk_tick = 0\<rparr>) = (Started (sd, mc), md1)
     \<and> node_map (md_tables md1) ''n1'' = Some n \<and> node_address n = ''c:1'' \<and> node_capacity n = 10"
proof -
  obtain sd mc md1 where run: "storaged_start example_env (\<lambda>p l. Inr ()) plain_os plain_engine 5000000000 plain_link None plain_tls
       (two_node_metad, \<lparr>dk_nodes = [], dk_tick = 0\<rparr>) = (Started (sd, mc), md1)"
    using startedE [OF example_storaged] by (metis surj_pair)
  have "StorageNodeID (Load example_env) = ''n1''" "StorageListenAddr (Load example_env) = ''c:1''"
    "StorageCapacityBytes (Load example_env) = 10"
    by (code_simp, code_simp, code_simp)
  with storaged_registers [OF run] run show ?thesis
    by (simp add: Let_def)
qed

theorem metad_start_settings_witness:
  "\<exists>D d1. metad_start example_env (\<lambda>p l. Inr ()) plain_os plain_engine None None plain_tls \<lparr>dk_nodes = [], dk_tick = 0\<rparr>
       = (Started D, d1)
     \<and> ReplicationFactor (mgr_placement (dm_manager D)) = 0
     \<and> (\<forall>x s1. PrepareUpload plain_engine (dm_manager D) upload_ambient ''x'' 1 (md_conn two_node_metad) \<noteq> (Ret (Inr x), s1))"
proof -
  obtain D d1 where run: "metad_start example_env (\<lambda>p l. Inr ()) plain_os plain_engine None None plain_tls
      \<lparr>dk_nodes = [], dk_tick = 0\<rparr> = (Started D, d1)"
    using startedE [OF example_metad] by blast
  have "\<not> is_blank (example_env EnvReplicationFactor)" "ParseInt (example_env EnvReplicationFactor) = None"
    by (code_simp, code_simp)
  moreover have "tables_wf (conn_tables (md_conn two_node_metad))"
    by (simp add: tables_wf_def two_node_metad_def loc_key_def)
  ultimately show ?thesis
    using metad_start_settings [OF run, of "\<lambda>t s c w. (Inr (), w)" "()" "md_conn two_node_metad" plain_engine upload_ambient "''x''" 1] run by simp
qed

end
