(* ===== verification/Background.thy ===== *)
theory Background
  imports Metad_Client
begin

text \<open>
  The background goroutines: the monitor of \<open>registry.go\<close>, the scanner of \<open>repair/manager.go\<close>, the
  metrics updater and the heartbeats of a storage node. Each is a ticker and a loop that runs one cycle
  per tick until its context is cancelled; a run is given by what its \<open>select\<close> receives. The
  second part shows what happens when a heartbeat arrives in the middle of a monitor cycle.
\<close>

subsection \<open>Ticker loops\<close>

datatype 'a loop_event = Tick 'a | Cancelled

text \<open>The loop returns whether it has ended, and the state.\<close>

fun ticker_loop :: "('a \<Rightarrow> 's \<Rightarrow> 's) \<Rightarrow> 'a loop_event list \<Rightarrow> 's \<Rightarrow> bool \<times> 's" where
  "ticker_loop body [] s = (False, s)"
| "ticker_loop body (Cancelled # events) s = (True, s)"
| "ticker_loop body (Tick x # events) s = ticker_loop body events (body x s)"

definition with_ticker :: "int64 \<Rightarrow> ('a \<Rightarrow> 's \<Rightarrow> 's) \<Rightarrow> 'a loop_event list \<Rightarrow> 's \<Rightarrow> (bool \<times> 's) outcome" where
  "with_ticker interval body events s =
     (if interval \<le>s 0 then Panic ''non-positive interval for NewTicker'' else Ret (ticker_loop body events s))"

record registry_manager =
  reg_failureTimeout :: int64

definition registry_NewManager :: "int64 \<Rightarrow> registry_manager" where
  "registry_NewManager failureTimeout = \<lparr>reg_failureTimeout = failureTimeout\<rparr>"

definition StartMonitor ::
  "registry_manager \<Rightarrow> int64 \<Rightarrow> (engine \<times> int) loop_event list \<Rightarrow> metad \<Rightarrow> (bool \<times> metad) outcome" where
  "StartMonitor m interval = with_ticker interval (\<lambda>(e, now). monitorOnce e (reg_failureTimeout m) now)"

record repair_manager =
  rm_replicationFactor :: int

definition repair_NewManager :: "int \<Rightarrow> repair_manager" where
  "repair_NewManager factor = \<lparr>rm_replicationFactor = factor\<rparr>"

definition StartScanner ::
  "repair_manager \<Rightarrow> 'w copy_rpc \<Rightarrow> int64 \<Rightarrow> engine loop_event list \<Rightarrow> metad \<times> 'w \<Rightarrow> (bool \<times> (metad \<times> 'w)) outcome" where
  "StartScanner m copy interval = with_ticker interval (\<lambda>e. scanOnce e copy (rm_replicationFactor m))"

text \<open>The updater runs one update before the loop.\<close>

definition MetricsUpdater_Start :: "engine \<Rightarrow> engine loop_event list \<Rightarrow> metad \<Rightarrow> (bool \<times> metad) outcome" where
  "MetricsUpdater_Start e events s =
     with_ticker (word_of_int DefaultMetricsPollInterval) update_metrics events (update_metrics e s)"

definition startHeartbeat ::
  "metad_client \<Rightarrow> int64 \<Rightarrow> (engine \<times> int \<times> metad_link \<times> nat) loop_event list \<Rightarrow> metad \<times> storaged
     \<Rightarrow> (bool \<times> (metad \<times> storaged)) outcome" where
  "startHeartbeat mc interval = with_ticker interval (\<lambda>(e, now, link, t). heartbeat_tick e now link t mc)"

lemma loop_events_induct [case_names Nil Cancelled Tick]:
  assumes "P []" "\<And>events. P (Cancelled # events)" "\<And>x events. P events \<Longrightarrow> P (Tick x # events)"
  shows "P events"
proof (induction events)
  case (Cons ev events)
  then show ?case
    by (cases ev) (simp_all add: assms(2,3))
qed (rule assms(1))

lemma ticker_loop_run:
  "ticker_loop body (map Tick xs @ Cancelled # events) s = (True, fold body xs s)"
  "ticker_loop body (map Tick xs) s = (False, fold body xs s)"
  by (induction xs arbitrary: s) simp_all

text \<open>What every cycle keeps, the loop keeps.\<close>

lemma ticker_loop_keeps:
  assumes "\<And>x s. P s \<Longrightarrow> P (body x s)" "P s" "with_ticker interval body events s = Ret (ended, s1)"
  shows "P s1"
proof -
  have "P (snd (ticker_loop body events s))"
    using assms(2) by (induction events arbitrary: s rule: loop_events_induct) (simp_all add: assms(1))
  with assms(3) show ?thesis
    by (auto simp: with_ticker_def split: if_splits)
qed

lemma StartMonitor_steps:
  assumes "StartMonitor m interval events s = Ret (ended, s1)" "metad_reachable mgr (reg_failureTimeout m) copy (s, w)"
  shows "metad_reachable mgr (reg_failureTimeout m) copy (s1, w)"
  using ticker_loop_keeps [where P = "\<lambda>s. metad_reachable mgr (reg_failureTimeout m) copy (s, w)",
      OF _ assms(2) assms(1) [unfolded StartMonitor_def]]
  by (auto intro: metad_reachable.step step_monitor)

lemma StartScanner_steps:
  assumes "StartScanner m copy interval events st = Ret (ended, st1)" "metad_reachable mgr t copy st"
    and "rm_replicationFactor m = ReplicationFactor (mgr_placement mgr)"
  shows "metad_reachable mgr t copy st1"
proof (rule ticker_loop_keeps [where P = "metad_reachable mgr t copy", OF _ assms(2) assms(1) [unfolded StartScanner_def]])
  fix e st2
  assume "metad_reachable mgr t copy st2"
  then show "metad_reachable mgr t copy (scanOnce e copy (rm_replicationFactor m) st2)"
    using step_repair [of mgr t copy "fst st2" "snd st2" e] assms(3) by (auto intro: metad_reachable.step)
qed

text \<open>
  C26. Monitor cycles do not accumulate. With a database that answers, after any number of ticks and until its
  context is cancelled the monitor has given every node the status of the last cycle alone: a
  node that was healthy or down is down if its last heartbeat is older than the failure timeout at the last
  tick and healthy if not. Nothing that arrives after the loop has received the cancellation has an effect, and a
  non-positive interval panics at once.
\<close>

theorem StartMonitor_settles:
  assumes "tables_wf (md_tables s)" "\<forall>(e, now) \<in> set cycles. no_faults e \<and> complete_scans e" "cycles \<noteq> []"
  shows "if 0 < sint interval
    then \<exists>s1. StartMonitor m interval (map Tick cycles @ Cancelled # later) s = Ret (True, s1)
      \<and> md_tables s1 = (md_tables s)\<lparr>t_nodes := map (\<lambda>n. n\<lparr>node_status :=
          if node_status n \<in> {NodeStatusHealthy, NodeStatusDown}
          then if stale (reg_failureTimeout m) (snd (last cycles)) n then NodeStatusDown else NodeStatusHealthy
          else node_status n\<rparr>) (t_nodes (md_tables s))\<rparr>
    else StartMonitor m interval (map Tick cycles @ Cancelled # later) s = Panic ''non-positive interval for NewTicker''"
proof -
  let ?t = "reg_failureTimeout m" and ?body = "\<lambda>(e, now). monitorOnce e (reg_failureTimeout m) now"
  have "md_tables (fold ?body cs s) = (md_tables s)\<lparr>t_nodes := map (monitored ?t (snd (last cs))) (t_nodes (md_tables s))\<rparr>"
    if "cs \<noteq> []" "\<forall>(e, now) \<in> set cs. no_faults e \<and> complete_scans e" "tables_wf (md_tables s)" for cs s
    using that
  proof (induction cs arbitrary: s)
    case (Cons c cs)
    obtain e now where c: "c = (e, now)"
      by (cases c)
    let ?s1 = "monitorOnce e ?t now s"
    have s1: "md_tables ?s1 = (md_tables s)\<lparr>t_nodes := map (monitored ?t now) (t_nodes (md_tables s))\<rparr>"
      using Cons.prems by (intro monitorOnce_tables) (simp_all add: c)
    have wf1: "tables_wf (md_tables ?s1)"
      using wf.keeps_monitorOnce [of s e ?t now] Cons.prems(3) by (simp add: on_metad_def)
    have again: "monitored ?t now1 (monitored ?t now n) = monitored ?t now1 n" for now1 n
      by (simp add: monitored_status_def)
    show ?case
    proof (cases "cs = []")
      case True
      with s1 show ?thesis
        by (simp add: c)
    next
      case False
      with Cons.IH [OF False _ wf1] Cons.prems(2) s1 again show ?thesis
        by (simp add: c comp_def)
    qed
  qed simp
  note run = this [OF assms(3,2,1)]
  have status: "monitored_status ?t now n = (if node_status n \<in> {NodeStatusHealthy, NodeStatusDown}
      then if stale ?t now n then NodeStatusDown else NodeStatusHealthy else node_status n)" for now n
    by (simp add: monitored_status_def)
  show ?thesis
    using run by (simp add: StartMonitor_def with_ticker_def ticker_loop_run status word_sle_eq)
qed

theorem StartMonitor_settles_witness:
  "\<exists>s1. StartMonitor (registry_NewManager 10000000000) 1 (map Tick [(plain_engine, 120000000000), (plain_engine, 130000000000)]
      @ Cancelled # []) monitor_example = Ret (True, s1)
    \<and> map node_status (t_nodes (md_tables s1)) = [NodeStatusDown, NodeStatusDown]"
  using StartMonitor_settles [OF monitor_example_wf, of "[(plain_engine, 120000000000), (plain_engine, 130000000000)]" 1
      "registry_NewManager 10000000000" "[]"]
  by (simp add: registry_NewManager_def) (elim exE conjE, intro exI conjI, assumption,
    simp add: registry_NewManager_def monitor_example_def stale_def Sub_duration_def second_def)

subsection \<open>A heartbeat in the middle of a monitor cycle\<close>

text \<open>The effect of the cycle's updates on one node, whatever happened since its list was read.\<close>

lemma find_map_key:
  "(\<And>n. key (f n) = key n) \<Longrightarrow> find (\<lambda>n. key n = k) (map f ns) = map_option f (find (\<lambda>n. key n = k) ns)"
  by (induction ns) auto

lemma find_status:
  "find (\<lambda>n. node_id n = nid) (map (\<lambda>n. if node_id n = k then n\<lparr>node_status := st\<rparr> else n) ns)
   = map_option (\<lambda>n. if k = nid then n\<lparr>node_status := st\<rparr> else n) (find (\<lambda>n. node_id n = nid) ns)"
  by (induction ns) auto

lemma monitor_loop_node:
  assumes "no_faults e" "distinct (map node_id ns)"
  shows "node_map (conn_tables (monitor_loop e t now ns s)) nid = map_option
    (\<lambda>m. case find (\<lambda>k. node_id k = nid) ns of
       None \<Rightarrow> m
     | Some k \<Rightarrow> if monitored_status t now k = node_status k then m else m\<lparr>node_status := monitored_status t now k\<rparr>)
    (node_map (conn_tables s) nid)"
  using assms(2)
proof (induction ns arbitrary: s)
  case Nil
  then show ?case
    by (simp add: option.map_ident)
next
  case (Cons n ns)
  let ?st = "monitored_status t now n"
  let ?s1 = "if ?st = node_status n then s else snd (UpdateNodeStatus e (node_id n) ?st s)"
  have s1: "node_map (conn_tables ?s1) nid
      = map_option (\<lambda>m. if node_id n = nid \<and> ?st \<noteq> node_status n then m\<lparr>node_status := ?st\<rparr> else m) (node_map (conn_tables s) nid)"
    by (simp add: UpdateNodeStatus_ok [OF assms(1)] query_update_node_status_def node_map_def find_status option.map_ident)
  have later: "find (\<lambda>k. node_id k = node_id n) ns = None"
    using Cons.prems by (simp add: find_None_iff image_iff) metis
  show ?case
    unfolding monitor_loop_Cons Cons.IH [OF distinct_tl [OF Cons.prems, simplified]] s1
    using later by (auto simp: option.map_comp comp_def intro!: option.map_cong0)
qed

text \<open>
  C27. A heartbeat can be overtaken. If it arrives after a monitor cycle has read its list of nodes, in which
  the node was healthy with a heartbeat too old, and before that cycle writes, then the
  cycle marks the node down although its heartbeat is fresh: the node gets no new chunks. The next cycle within the
  failure timeout, less the fraction of a second that storing whole seconds cuts off, brings it back.
\<close>

theorem heartbeat_overtaken:
  assumes "no_faults e" "complete_scans e" "tables_wf (md_tables s)"
    and "n \<in> set (t_nodes (md_tables s))" "node_status n = NodeStatusHealthy" "stale failureTimeout now n"
    and list: "ListAllNodes e (md_conn s) = (Inr nodes, c)"
    and beat: "registry_Heartbeat e hb (node_id n) addr cap avail c = (Inr u, c1)"
    and "0 \<le> hb" "hb \<le> now1" "now1 < 2 ^ 63"
  shows "healthy_node (conn_tables c1) (node_id n)
    \<and> \<not> healthy_node (conn_tables (monitor_loop e failureTimeout now nodes c1)) (node_id n)
    \<and> (healthy_node (md_tables (monitorOnce e failureTimeout now1
            (s\<lparr>md_conn := monitor_loop e failureTimeout now nodes c1\<rparr>))) (node_id n)
        \<longleftrightarrow> now1 - hb + hb mod second \<le> sint failureTimeout)"
proof -
  let ?nid = "node_id n" and ?c2 = "monitor_loop e failureTimeout now nodes c1"
  let ?row = "\<lparr>node_id = ?nid, node_address = addr, node_capacity = cap, node_available = avail,
     node_status = NodeStatusHealthy, node_heartbeat = unix_seconds hb\<rparr>"
  have nodes: "set nodes = set (t_nodes (md_tables s))" "distinct (map node_id nodes)" and c: "conn_tables c = md_tables s"
    using list assms(1-3) by (auto simp: ListAllNodes_def mapErrR_def Query_ok query_select_all_nodes_def tables_wf_def)
  have n: "find (\<lambda>k. node_id k = ?nid) nodes = Some n"
    using nodes assms(4) distinct_map_inj_on_set [OF nodes(2), of _ n] by (auto simp: find_key_eq_Some)
  have row: "node_map (conn_tables c1) ?nid = Some ?row"
    using UpsertNodeHeartbeat_map [where e = e and now = "unix_seconds hb" and nid = ?nid and addr = addr and cap = cap
        and avail = avail and s = c] beat by (simp add: registry_Heartbeat_def heartbeat_written_def split: if_splits)
  have status: "monitored_status failureTimeout now n = NodeStatusDown"
    using assms(5,6) by (simp add: monitored_status_def)
  have down: "node_map (conn_tables ?c2) ?nid = Some (?row\<lparr>node_status := NodeStatusDown\<rparr>)"
    using monitor_loop_node [OF assms(1) nodes(2), of failureTimeout now c1 ?nid] row n status assms(5) by simp
  have wf1: "tables_wf (conn_tables c1)"
    using preservesD [where s = c, OF wf.keeps_registry_Heartbeat] beat c assms(3) by (simp add: on_tables_def) (metis snd_conv)
  then have wf2: "tables_wf (conn_tables ?c2)"
    using wf.keeps_UpdateNodeStatus monitor_loop_keeps [of tables_wf e c1 failureTimeout now nodes] by (simp add: on_tables_def)
  have healthy: "healthy_node T ?nid \<longleftrightarrow> (\<exists>r. node_map T ?nid = Some r \<and> node_status r = NodeStatusHealthy)"
    if "tables_wf T" for T
    using that find_key_eq_Some [of node_id "t_nodes T" ?nid] by (auto simp: healthy_node_def node_map_def tables_wf_def)
  let ?s2 = "s\<lparr>md_conn := ?c2\<rparr>"
  have wf3: "tables_wf (md_tables (monitorOnce e failureTimeout now1 ?s2))"
    using wf.keeps_monitorOnce [of ?s2 e failureTimeout now1] wf2 by (simp add: on_metad_def)
  have "node_map (md_tables (monitorOnce e failureTimeout now1 ?s2)) ?nid
      = map_option (monitored failureTimeout now1) (node_map (conn_tables ?c2) ?nid)"
    using monitorOnce_tables [OF assms(1,2), of ?s2 failureTimeout now1] wf2 by (simp add: node_map_def find_map_key)
  then have "healthy_node (md_tables (monitorOnce e failureTimeout now1 ?s2)) ?nid \<longleftrightarrow> \<not> stale failureTimeout now1 ?row"
    using healthy [OF wf3] down by (simp add: monitored_status_def stale_def)
  then show ?thesis
    using healthy [OF wf1] healthy [OF wf2] row down stale_iff [of ?row hb now1 failureTimeout] assms(9-11) by auto
qed

definition overtaken_beat :: conn where
  "overtaken_beat = snd (registry_Heartbeat plain_engine 121500000000 ''n1'' ''h:1'' 10 9 (snd (ListAllNodes plain_engine (md_conn monitor_example))))"

lemma overtaken_example:
  "ListAllNodes plain_engine (md_conn monitor_example)
     = (Inr (t_nodes (md_tables monitor_example)), snd (ListAllNodes plain_engine (md_conn monitor_example)))"
  "registry_Heartbeat plain_engine 121500000000 ''n1'' ''h:1'' 10 9 (snd (ListAllNodes plain_engine (md_conn monitor_example)))
     = (Inr (), overtaken_beat)"
  "\<exists>n \<in> set (t_nodes (md_tables monitor_example)).
     node_id n = ''n1'' \<and> node_status n = NodeStatusHealthy \<and> stale 10000000000 120000000000 n"
  by (simp_all add: overtaken_beat_def registry_Heartbeat_def ListAllNodes_def run_simps monitor_example_def
      query_upsert_node_heartbeat_def query_select_all_nodes_def reorder_def stale_def Sub_duration_def second_def)

theorem heartbeat_overtaken_witness:
  "healthy_node (conn_tables overtaken_beat) ''n1''
    \<and> \<not> healthy_node (conn_tables (monitor_loop plain_engine 10000000000 120000000000
          (t_nodes (md_tables monitor_example)) overtaken_beat)) ''n1''
    \<and> healthy_node (md_tables (monitorOnce plain_engine 10000000000 130000000000 (monitor_example\<lparr>md_conn :=
          monitor_loop plain_engine 10000000000 120000000000 (t_nodes (md_tables monitor_example)) overtaken_beat\<rparr>))) ''n1''"
proof -
  obtain n where n: "n \<in> set (t_nodes (md_tables monitor_example))" "node_id n = ''n1''"
      "node_status n = NodeStatusHealthy" "stale 10000000000 120000000000 n"
    using overtaken_example(3) by blast
  show ?thesis
    using heartbeat_overtaken [OF plain_engine_simps(4,5) monitor_example_wf n(1,3,4) overtaken_example(1)
        overtaken_example(2) [folded n(2)], of 130000000000] n(2)
    by (simp add: second_def)
qed

end
