(* ===== verification/Daemon_Process.thy ===== *)
theory Daemon_Process
  imports Background
begin

text \<open>
  The frame around the daemons' work: request IDs and the loggers carried in contexts
  (\<open>internal/common/ids\<close>, \<open>internal/common/logging/context.go\<close>), the Prometheus instruments and their
  registration, the order in which \<open>main\<close> shuts a daemon down, and \<open>cmd/token\<close>. The libraries
  behind them (ULID, zap, Prometheus, net/http, grpc) are parameters.
\<close>

subsection \<open>Request IDs and logging contexts\<close>

text \<open>\<open>ulid.New\<close> gets the time in milliseconds and a source of entropy.\<close>

definition NewRequestID :: "(int \<Rightarrow> 'r \<Rightarrow> go_error + string) \<Rightarrow> int \<Rightarrow> 'r \<Rightarrow> string outcome" where
  "NewRequestID ulid_New now entropy =
     (case ulid_New (now div 1000000) entropy of
        Inl err \<Rightarrow> Panic (''failed to generate request ID: '' @ error_text err)
      | Inr i \<Rightarrow> Ret i)"

text \<open>A context is nil or holds the value of the logger key, if any; \<open>L\<close> is the global logger.\<close>

type_synonym 'l log_context = "'l option option"

definition FromContext :: "'l \<Rightarrow> 'l log_context \<Rightarrow> 'l" where
  "FromContext L ctx = (case ctx of None \<Rightarrow> L | Some v \<Rightarrow> (case v of Some lg \<Rightarrow> lg | None \<Rightarrow> L))"

text \<open>\<open>context.WithValue\<close> panics on a nil context.\<close>

definition WithContext :: "('l \<Rightarrow> (string \<times> string) list \<Rightarrow> 'l) \<Rightarrow> 'l \<Rightarrow> 'l log_context \<Rightarrow> (string \<times> string) list \<Rightarrow> 'l log_context outcome" where
  "WithContext zap_With L ctx kvs =
     (let newLogger = zap_With (FromContext L ctx) kvs
      in if ctx = None then Panic ''cannot create context from nil parent'' else Ret (Some (Some newLogger)))"

definition WithRequestID :: "('l \<Rightarrow> (string \<times> string) list \<Rightarrow> 'l) \<Rightarrow> 'l \<Rightarrow> 'l log_context \<Rightarrow> string \<Rightarrow> 'l log_context outcome" where
  "WithRequestID zap_With L ctx requestID = WithContext zap_With L ctx [(''request_id'', requestID)]"

lemma FromContext_WithContext:
  "WithContext zap_With L ctx kvs = Ret ctx1 \<Longrightarrow> FromContext L' ctx1 = zap_With (FromContext L ctx) kvs"
  by (auto simp: WithContext_def FromContext_def Let_def split: if_splits)

subsection \<open>Instruments\<close>

datatype instrument_kind = Counter | Gauge | Histogram "nat list"

text \<open>Buckets in thousandths of a second.\<close>

record instrument =
  in_kind :: instrument_kind
  in_namespace :: string
  in_subsystem :: string
  in_name :: string
  in_labels :: "string list"

definition MetricNamespaceDFS :: string where "MetricNamespaceDFS = ''dfs''"
definition MetricSubsystemGRPC :: string where "MetricSubsystemGRPC = ''grpc''"
definition MetricSubsystemCluster :: string where "MetricSubsystemCluster = ''cluster''"
definition MetricNameRequestDurationSeconds :: string where "MetricNameRequestDurationSeconds = ''request_duration_seconds''"
definition MetricNameHealthyNodes :: string where "MetricNameHealthyNodes = ''healthy_nodes''"
definition MetricNameTotalNodes :: string where "MetricNameTotalNodes = ''total_nodes''"
definition MetricNameTotalChunks :: string where "MetricNameTotalChunks = ''total_chunks''"
definition MetricNameTotalReplicas :: string where "MetricNameTotalReplicas = ''total_replicas''"
definition MetricNameHeartbeatsTotal :: string where "MetricNameHeartbeatsTotal = ''dfs_heartbeats_total''"
definition MetricNameRepairAttempts :: string where "MetricNameRepairAttempts = ''dfs_repair_attempts_total''"
definition MetricNameRepairFailures :: string where "MetricNameRepairFailures = ''dfs_repair_failures_total''"
definition MetricNameRepairSuccess :: string where "MetricNameRepairSuccess = ''dfs_repair_success_total''"
definition MetricNameMetadataHealthy :: string where "MetricNameMetadataHealthy = ''dfs_healthy_nodes''"
definition MetricLabelMethod :: string where "MetricLabelMethod = ''method''"

lemmas metric_name_defs = MetricNamespaceDFS_def MetricSubsystemGRPC_def MetricSubsystemCluster_def
  MetricNameRequestDurationSeconds_def MetricNameHealthyNodes_def MetricNameTotalNodes_def MetricNameTotalChunks_def
  MetricNameTotalReplicas_def MetricNameHeartbeatsTotal_def MetricNameRepairAttempts_def MetricNameRepairFailures_def
  MetricNameRepairSuccess_def MetricNameMetadataHealthy_def MetricLabelMethod_def

definition plain_instrument :: "instrument_kind \<Rightarrow> string \<Rightarrow> instrument" where
  "plain_instrument kind name = \<lparr>in_kind = kind, in_namespace = [], in_subsystem = [], in_name = name, in_labels = []\<rparr>"

definition cluster_gauge :: "string \<Rightarrow> instrument" where
  "cluster_gauge name =
     \<lparr>in_kind = Gauge, in_namespace = MetricNamespaceDFS, in_subsystem = MetricSubsystemCluster, in_name = name, in_labels = []\<rparr>"

definition MetadataRequestDuration :: instrument where
  "MetadataRequestDuration =
     \<lparr>in_kind = Histogram [1, 5, 10, 50, 100, 250, 500, 1000, 2000, 5000], in_namespace = MetricNamespaceDFS,
      in_subsystem = MetricSubsystemGRPC, in_name = MetricNameRequestDurationSeconds, in_labels = [MetricLabelMethod]\<rparr>"

definition server_instruments :: "instrument list" where
  "server_instruments = [MetadataRequestDuration, cluster_gauge MetricNameHealthyNodes, cluster_gauge MetricNameTotalNodes,
     cluster_gauge MetricNameTotalChunks, cluster_gauge MetricNameTotalReplicas]"

definition metad_instruments :: "instrument list" where
  "metad_instruments = [plain_instrument Counter MetricNameHeartbeatsTotal, plain_instrument Counter MetricNameRepairAttempts,
     plain_instrument Counter MetricNameRepairFailures, plain_instrument Counter MetricNameRepairSuccess,
     plain_instrument Gauge MetricNameMetadataHealthy]"

definition storage_instruments :: "instrument list" where
  "storage_instruments = [plain_instrument Counter ''dfs_chunks_stored_total'', plain_instrument Counter ''dfs_chunks_served_total'',
     plain_instrument Gauge ''dfs_available_bytes'']"

lemmas instrument_defs = server_instruments_def metad_instruments_def storage_instruments_def MetadataRequestDuration_def
  cluster_gauge_def plain_instrument_def

text \<open>
  \<open>prometheus.MustRegister\<close> is a parameter on a registry \<open>'r\<close>. The \<open>init\<close> function of the server metrics
  registers once; the two \<open>Register\<close> functions go through a \<open>sync.Once\<close>.
\<close>

record 'r registered =
  rg_once :: bool
  rg_registry :: 'r

definition server_metrics_init :: "(instrument list \<Rightarrow> 'r \<Rightarrow> 'r outcome) \<Rightarrow> 'r \<Rightarrow> 'r outcome" where
  "server_metrics_init MustRegister = MustRegister server_instruments"

definition Register_once :: "(instrument list \<Rightarrow> 'r \<Rightarrow> 'r outcome) \<Rightarrow> instrument list \<Rightarrow> 'r registered \<Rightarrow> 'r registered outcome" where
  "Register_once MustRegister instruments p =
     (if rg_once p then Ret p
      else case MustRegister instruments (rg_registry p) of
          Panic d \<Rightarrow> Panic d
        | Ret r \<Rightarrow> Ret \<lparr>rg_once = True, rg_registry = r\<rparr>)"

definition metad_Register :: "(instrument list \<Rightarrow> 'r \<Rightarrow> 'r outcome) \<Rightarrow> 'r registered \<Rightarrow> 'r registered outcome" where
  "metad_Register MustRegister = Register_once MustRegister metad_instruments"

definition storaged_Register :: "(instrument list \<Rightarrow> 'r \<Rightarrow> 'r outcome) \<Rightarrow> 'r registered \<Rightarrow> 'r registered outcome" where
  "storaged_Register MustRegister = Register_once MustRegister storage_instruments"

text \<open>
  The documented behaviour of the library: a full name joins the parts that are not empty by underscores, and
  \<open>MustRegister\<close> panics if a name is already taken.
\<close>

definition full_name :: "instrument \<Rightarrow> string" where
  "full_name i = (if in_namespace i = [] then [] else in_namespace i @ ''_'')
     @ (if in_subsystem i = [] then [] else in_subsystem i @ ''_'') @ in_name i"

definition registers :: "(instrument list \<Rightarrow> 'r \<Rightarrow> 'r outcome) \<Rightarrow> ('r \<Rightarrow> string set) \<Rightarrow> bool" where
  "registers MustRegister names \<longleftrightarrow> (\<forall>is r. distinct (map full_name is) \<longrightarrow> full_name ` set is \<inter> names r = {} \<longrightarrow>
     (\<exists>r1. MustRegister is r = Ret r1 \<and> names r1 = names r \<union> full_name ` set is))"

lemma full_names:
  "distinct (map full_name (server_instruments @ metad_instruments))" "distinct (map full_name storage_instruments)"
  by (simp_all add: instrument_defs full_name_def metric_name_defs)

text \<open>Both gauges for healthy nodes of the metadata daemon fit into one registry, and registering twice is harmless.\<close>

lemma metad_registers:
  assumes "registers MustRegister names" "names r = {}"
  shows "\<exists>r1 p. server_metrics_init MustRegister r = Ret r1 \<and> metad_Register MustRegister \<lparr>rg_once = False, rg_registry = r1\<rparr> = Ret p
    \<and> names (rg_registry p) = full_name ` set (server_instruments @ metad_instruments) \<and> metad_Register MustRegister p = Ret p"
proof -
  have server: "distinct (map full_name server_instruments)" and metad: "distinct (map full_name metad_instruments)"
    and apart: "full_name ` set metad_instruments \<inter> full_name ` set server_instruments = {}"
    using full_names(1) by auto
  obtain r1 where r1: "MustRegister server_instruments r = Ret r1" "names r1 = full_name ` set server_instruments"
    using assms server unfolding registers_def by fastforce
  obtain r2 where "MustRegister metad_instruments r1 = Ret r2" "names r2 = names r1 \<union> full_name ` set metad_instruments"
    using assms(1) metad apart r1(2) unfolding registers_def by metis
  with r1 show ?thesis
    by (simp add: server_metrics_init_def metad_Register_def Register_once_def image_Un)
qed

subsection \<open>Serving and shutting down\<close>

text \<open>
  The two goroutines that serve: \<open>Serve\<close> returns nil only after a stop, and \<open>is_closed\<close> stands for the test
  for \<open>http.ErrServerClosed\<close>.
\<close>

definition serve_gRPC :: "go_error option \<Rightarrow> unit boot" where
  "serve_gRPC r = (case r of None \<Rightarrow> Started () | Some err \<Rightarrow> Fatal ''failed to serve gRPC'')"

definition serve_metrics :: "(go_error \<Rightarrow> bool) \<Rightarrow> go_error option \<Rightarrow> unit boot" where
  "serve_metrics is_closed r =
     (case r of
        None \<Rightarrow> Started ()
      | Some err \<Rightarrow> if is_closed err then Started () else Fatal ''failed to serve metrics'')"

text \<open>
  What the process has open: the context of the background loops, the gRPC server, the metrics server, the
  listener, and the database or the connection to the metadata daemon, which \<open>main\<close> closes when it returns.
  \<open>shutdown\<close> lists every state passed through. \<open>GracefulStop\<close> waits for the running calls, so
  \<open>main\<close> stays there if one of them never ends; an error of the metrics server's \<open>Shutdown\<close> is only logged. A loop
  whose context is cancelled may still be in its last cycle.
\<close>

record process =
  pc_context :: bool
  pc_grpc :: bool
  pc_metrics :: bool
  pc_listener :: bool
  pc_backend :: bool

definition shutdown :: "(process \<Rightarrow> process) \<Rightarrow> bool \<Rightarrow> go_error option \<Rightarrow> process \<Rightarrow> process list" where
  "shutdown deferred calls_end metrics_err p0 =
     (let p1 = p0\<lparr>pc_context := False\<rparr>;
          p2 = p1\<lparr>pc_grpc := False\<rparr>;
          p3 = (case metrics_err of None \<Rightarrow> p2\<lparr>pc_metrics := False\<rparr> | Some err \<Rightarrow> p2);
          p4 = p3\<lparr>pc_listener := False\<rparr>
      in if calls_end then [p0, p1, p2, p3, p4, deferred p4] else [p0, p1])"

text \<open>The metadata daemon closes its store, a storage daemon its connection if it has one.\<close>

definition metad_shutdown :: "bool \<Rightarrow> go_error option \<Rightarrow> process \<Rightarrow> process list" where
  "metad_shutdown = shutdown (\<lambda>p. p\<lparr>pc_backend := False\<rparr>)"

definition metadClient_close :: "process \<Rightarrow> process" where
  "metadClient_close p = (if pc_backend p then p\<lparr>pc_backend := False\<rparr> else p)"

definition storaged_shutdown :: "bool \<Rightarrow> go_error option \<Rightarrow> process \<Rightarrow> process list" where
  "storaged_shutdown = shutdown metadClient_close"

text \<open>\<open>Close\<close> of the store hands the library's answer on.\<close>

definition store_Close :: "(conn \<Rightarrow> go_error option) \<Rightarrow> conn \<Rightarrow> go_error option" where
  "store_Close db_Close s = db_Close s"

text \<open>
  The backend is closed after the handlers have ended and the loops were told to stop. At the end everything is
  closed but a metrics server that did not shut down in time.
\<close>

lemma shutdown_order:
  assumes "pc_backend p" "\<And>q. pc_backend q \<Longrightarrow> deferred q = q\<lparr>pc_backend := False\<rparr>"
  shows "\<forall>q \<in> set (shutdown deferred calls_end metrics_err p). pc_grpc q \<or> pc_context q \<longrightarrow> pc_backend q"
    and "calls_end \<Longrightarrow> last (shutdown deferred calls_end metrics_err p)
      = \<lparr>pc_context = False, pc_grpc = False, pc_metrics = pc_metrics p \<and> metrics_err \<noteq> None, pc_listener = False, pc_backend = False\<rparr>"
  using assms by (cases metrics_err; simp add: shutdown_def Let_def)+

lemma both_shutdowns:
  assumes "pc_backend p"
  shows "storaged_shutdown calls_end metrics_err p = metad_shutdown calls_end metrics_err p"
  using assms by (cases metrics_err) (simp_all add: metad_shutdown_def storaged_shutdown_def metadClient_close_def shutdown_def Let_def)

subsection \<open>The token tool\<close>

text \<open>\<open>main\<close> of \<open>cmd/token\<close>: the line it prints, or its panic.\<close>

definition token_main :: "jwt_lib \<Rightarrow> int \<Rightarrow> (string \<Rightarrow> string) \<Rightarrow> string outcome" where
  "token_main lib now env =
     (let secret = env ''DFS_JWT_SECRET''
      in if secret = [] then Panic ''DFS_JWT_SECRET is required and cannot be empty''
         else case GenerateToken lib now secret ''client'' (3600 * second) of
             Inl err \<Rightarrow> Panic (error_text err)
           | Inr token \<Rightarrow> Ret token)"

end
