(* ===== verification/Spec2Isabelle.thy ===== *)
theory Spec2Isabelle
  imports Store_Properties Registry_Properties Placement_Properties Upload_Properties Commit_Properties
    Cluster_Progress Chunk_Crowd Dfs_Roundtrip Daemon_Process
begin

text \<open>
  A verification library for the distributed file system in Go of this repository.

  \<^bold>\<open>The program.\<close> A metadata daemon (\<open>cmd/metad\<close>) keeps files, chunks, replica locations, nodes and upload
  sessions in SQLite. Storage daemons (\<open>cmd/storaged\<close>) keep chunks as files, register with the metadata
  daemon and send heartbeats. A client prepares an upload, which plans the chunks of a file and assigns
  healthy nodes to each; it writes the chunks to the nodes and commits the upload with the map of the
  replicas it wrote. A monitor marks nodes down and up by the age of their heartbeats, and a scanner
  lets a healthy node copy each chunk of a committed file that has too few healthy replicas.

  \<^bold>\<open>Conventions\<close> (\<open>Dfs_Prelude\<close>, \<open>Constants\<close>, \<open>Decimal\<close>, \<open>Go_Errors\<close>). A Go function that returns a value and an
  error on some state is an operation \<open>'s \<Rightarrow> (error + 'a) \<times> 's\<close>; a panic is a value of \<open>outcome\<close> or \<open>boot\<close>.
  \<open>int64\<close> and \<open>uint64\<close> are 64-bit words, bytes are 8-bit words, strings are lists of bytes. Errors keep
  their texts, codes and causes (\<open>internal/common/errors\<close>), status errors their gRPC codes. Log lines are
  not modelled, nor is the cancellation of a context except where a function tests it.

  \<^bold>\<open>The metadata daemon.\<close>
  \<^item> \<open>Metadata_Tables\<close>: the rows and the schema (\<open>internal/metadata/store/schema.go\<close>, \<open>store.go\<close>) and every
    statement of \<open>queries.go\<close> as a function on the tables, with its constraint errors. \<open>Sqlite_Store\<close>: the
    methods of \<open>sqlite.go\<close> over a driver whose calls may fail, before a statement took effect or (\<open>RowsAffected\<close>)
    after it, whose scans may break off and whose unordered results come in any order (the parameter \<open>engine\<close>).
    A transaction whose \<open>Rollback\<close> or \<open>Commit\<close> failed is taken to be over and undone: an assumption on the
    driver and SQLite, named \<open>abandon_tx\<close> and discussed there. The error of a row \<open>Scan\<close> in a list query has the text of
    the error of the query. \<open>Store_Laws\<close>, \<open>Store_Invariants\<close> and
    \<open>Store_Properties\<close>: what each call does, preservation of every invariant of the tables (the locale
    \<open>table_invariant\<close>), the schema, and the refinement of the heartbeat upsert.
  \<^item> \<open>Metad_State\<close>: the daemon's state and metrics (\<open>internal/metadata/metrics\<close>, \<open>metrics_updater.go\<close>).
  \<^item> \<open>Registry\<close>, \<open>Registry_Properties\<close>: \<open>internal/metadata/registry\<close>, with the clock a parameter.
  \<^item> \<open>Placement\<close>, \<open>Placement_Properties\<close>: \<open>internal/metadata/placement\<close>, with the shuffle of \<open>math/rand\<close>
    written out and its draws a parameter. \<open>Policy\<close>: \<open>internal/metadata/policy\<close>.
  \<^item> \<open>Manifest\<close>: \<open>internal/metadata/manifest\<close>; new identifiers, clock readings, random draws and the order in
    which a Go map is ranged over are parameters. \<open>Upload_Plan\<close> and \<open>Upload_Properties\<close> treat the
    preparation of an upload (the 64-bit arithmetic of the plan included), \<open>Commit\<close> and
    \<open>Commit_Properties\<close> commits (over scans that may break off too), deletions and listings.
  \<^item> \<open>Repair\<close>, \<open>Repair_Properties\<close>, \<open>Repair_Progress\<close>: one cycle of \<open>internal/metadata/repair\<close> with the copy RPC
    a parameter: what it may change under any failures and, in the locale \<open>repair_progress\<close>, what repeated
    cycles achieve when the copies they ask for succeed.
  \<^item> \<open>Metad_Server\<close>, \<open>Metad_Server_Properties\<close>: the handlers of \<open>cmd/metad/server.go\<close>, with the round trip of an
    upload. \<open>Lifecycle\<close>: the invariant of the life cycle of files and sessions. \<open>Metad_Calls\<close>: the database calls
    that the handlers and cycles are made of, and the locale \<open>db_client\<close>, by which a property that every call
    keeps is kept by all of them. \<open>Metad_System\<close>: the daemon as a step relation over its handlers, monitor,
    scanner, metrics updater and restarts.

  \<^bold>\<open>The storage daemon.\<close>
  \<^item> The standard library as far as it is used: \<open>Paths\<close> (\<open>path/filepath\<close>), \<open>Sha256\<close> (\<open>crypto/sha256\<close> and
    \<open>encoding/binary\<close>), \<open>Disk\<close> and \<open>Disk_Laws\<close> (a file system whose calls may fail and whose reads may be
    short, the parameter \<open>os_env\<close>).
  \<^item> \<open>Chunk_Store\<close>: \<open>internal/storage/chunkstore/store.go\<close>, every step of a write included. \<open>Chunk_Read\<close> (the
    verifying reader and its reference), \<open>Chunk_Write\<close> (what a write may leave behind), \<open>Chunk_Layout\<close> (the
    paths of valid IDs and the layout of the directory), \<open>Chunk_Put\<close> (every branch when the operating
    system works), \<open>Chunk_Properties\<close> and \<open>Chunk_Usage\<close> (the claims; the usage counter). \<open>Chunk_Threads\<close>: \<open>Put\<close> and \<open>Delete\<close> one
    system call at a time; \<open>Chunk_Crowd\<close>: any number of them at once, with crashes, and how two Puts of one
    chunk can both be acknowledged.
  \<^item> \<open>Chunk_Service\<close>: the service as a map from IDs to bytes, and the locales \<open>chunk_service\<close> and
    \<open>chunk_copy\<close> of its clients. \<open>Storage_Server\<close>: the handlers of \<open>cmd/storaged/server.go\<close> and the storage
    metrics, and the interpretation of both locales on them.

  \<^bold>\<open>The cluster.\<close>
  \<^item> \<open>Node_Service\<close>: the handler and the client of \<open>CopyChunk\<close> (\<open>cmd/storaged/node_server.go\<close>,
    \<open>internal/node/client.go\<close>) between daemons at addresses, over a network that may refuse or lose any
    message (the parameter \<open>net_env\<close>). \<open>Cluster\<close>: under any failures of the network and of the nodes' operating systems
    no copy spoils what another chunk's replicas hold. \<open>Cluster_Repair\<close>: the locale \<open>copy_contract\<close>, what the
    scanner relies on, interpreted on the client; so recorded replicas are real. \<open>Cluster_Properties\<close>: the claims.
    \<open>Cluster_Progress\<close>: \<open>repair_progress\<close> interpreted on the client as well: over healthy nodes that are up at
    addresses of their own, cycles add replicas that hold the bytes until the replication factor is met.
  \<^item> \<open>Dfs_System\<close>: the whole system as a step relation whose steps are single database calls and single calls
    between clients and nodes, in any order and with any failures, restarts included: whatever the handlers, the
    scanner and the clients interleave, a chunk of a committed file that was acknowledged keeps
    its replicas. Whole operations of the daemon stay among its reachable states. A commit is a step only when its scans
    are complete and the replicas it names were acknowledged. \<open>Dfs_Roundtrip\<close>: what a client
    uploads it downloads again, through both daemons.
  \<^item> \<open>Config\<close> (\<open>internal/common/config\<close>, \<open>internal/common/logging\<close>), \<open>Interceptors\<close> (\<open>internal/auth\<close>,
    \<open>internal/metrics\<close>, with the JWT library a parameter) and \<open>Metad_Client\<close> (the start of both daemons, the
    registration and the heartbeats of a storage node, \<open>cmd/storaged/metad_client.go\<close>).
  \<^item> \<open>Background\<close>: the ticker loops of monitor, scanner, metrics updater and heartbeats, and what a heartbeat
    in the middle of a monitor cycle loses. \<open>Daemon_Process\<close>: request IDs and the loggers in contexts
    (\<open>internal/common/ids\<close>, \<open>internal/common/logging/context.go\<close>), the Prometheus instruments and their
    registration, serving and shutting down, and \<open>cmd/token\<close>.

  \<^bold>\<open>Bounds.\<close> All recursions of the model end: reading a chunk is a recursion on the bytes left, with at
  least one byte per read that is not the end of the file; \<open>CreateTemp\<close> tries 10000 names, as
  the standard library does. No other fuel is used. Contents are compared by digest and length
  wherever the code does so, and nothing assumes that digests do not collide. \<open>valid_id\<close> singles out the chunk
  IDs without slashes, dots at the wrong place or the name of a temporary file, as the identifiers of
  the metadata daemon are; \<open>Path_escapes\<close> shows what other IDs do. The properties of the storage service that
  give exact answers assume a working operating system; the safety properties do not.

  \<^bold>\<open>Not modelled.\<close> Interleavings of calls to a chunk store inside the cluster, where such a call is one step
  (\<open>Chunk_Crowd\<close> has them for one store); the closing of files that are only read; what a crash of the machine
  loses of the data not yet on the disk; permissions and links of the file system; the limit of gRPC on the size of a message;
  the wire format, TLS and the HTTP servers, which are libraries; the names of the tables, which occur only in the text of
  statements; generated code under \<open>internal/protocol\<close>, and the scripts.
\<close>

end
